(* ===== verification/PyDecimal.thy ===== *)
theory PyDecimal
  imports Prelude
begin

text \<open>
  Python's \<open>decimal.Decimal\<close> with the default context, as far as the money code uses it:
  a number is a coefficient and an exponent of ten. Addition and multiplication round to 28
  significant digits (half to even, the context's rounding); \<open>quantize\<close> to cents rounds half
  up, as \<open>_money\<close> asks, and raises \<open>InvalidOperation\<close> when the coefficient would need
  more than 28 digits. The sign of zero is not kept. \<open>dec_val\<close> is the rational number meant;
  comparison is shown to agree with it.
\<close>

datatype decimal = Dec (coef: int) (expo: int)

definition dec_val :: "decimal \<Rightarrow> rat" where
  "dec_val d = of_int (coef d) * 10 powi (expo d)"

text \<open>The coefficient at a smaller exponent.\<close>

definition scale_to :: "int \<Rightarrow> decimal \<Rightarrow> int" where
  "scale_to e d = coef d * 10 ^ nat (expo d - e)"

definition dec_le :: "decimal \<Rightarrow> decimal \<Rightarrow> bool" where
  "dec_le a b = (let e = min (expo a) (expo b) in scale_to e a \<le> scale_to e b)"

definition dec_less :: "decimal \<Rightarrow> decimal \<Rightarrow> bool" where
  "dec_less a b = (\<not> dec_le b a)"

text \<open>Division by a positive power of ten, rounded half up (away from zero) or half to even.\<close>

definition div_half_up :: "int \<Rightarrow> int \<Rightarrow> int" where
  "div_half_up n d = sgn n * ((2 * \<bar>n\<bar> + d) div (2 * d))"

definition div_half_even :: "int \<Rightarrow> int \<Rightarrow> int" where
  "div_half_even n d =
     (let q = \<bar>n\<bar> div d; r = \<bar>n\<bar> mod d
      in sgn n * (if 2 * r > d \<or> (2 * r = d \<and> odd q) then q + 1 else q))"

definition max_coef :: int where
  "max_coef = 10 ^ 28"

definition ctx_round :: "decimal \<Rightarrow> decimal" where
  "ctx_round d =
     (if \<bar>coef d\<bar> < max_coef then d
      else let k = length (show_nat (nat \<bar>coef d\<bar>)) - 28;
               q = div_half_even (coef d) (10 ^ k)
           in if \<bar>q\<bar> = max_coef then Dec (q div 10) (expo d + int k + 1)
              else Dec q (expo d + int k))"

definition dec_add :: "decimal \<Rightarrow> decimal \<Rightarrow> decimal" where
  "dec_add a b =
     (let e = min (expo a) (expo b) in ctx_round (Dec (scale_to e a + scale_to e b) e))"

definition dec_sub :: "decimal \<Rightarrow> decimal \<Rightarrow> decimal" where
  "dec_sub a b = dec_add a (Dec (- coef b) (expo b))"

definition dec_mul :: "decimal \<Rightarrow> decimal \<Rightarrow> decimal" where
  "dec_mul a b = ctx_round (Dec (coef a * coef b) (expo a + expo b))"

text \<open>\<open>max(a, b)\<close>: the first argument unless the second is greater.\<close>

definition dec_max :: "decimal \<Rightarrow> decimal \<Rightarrow> decimal" where
  "dec_max a b = (if dec_less a b then b else a)"

text \<open>\<open>d.quantize(Decimal("0.01"), rounding=ROUND_HALF_UP)\<close>.\<close>

definition cents_of :: "decimal \<Rightarrow> int" where
  "cents_of d =
     (if - 2 \<le> expo d then coef d * 10 ^ nat (expo d + 2)
      else div_half_up (coef d) (10 ^ nat (- 2 - expo d)))"

definition quantize_cent :: "decimal \<Rightarrow> decimal res" where
  "quantize_cent d =
     (let c = cents_of d
      in if \<bar>c\<bar> < max_coef then Inr (Dec c (- 2)) else raise_exn ''InvalidOperation'')"

section \<open>Comparison agrees with the numbers\<close>

lemma dec_val_scale: "e \<le> expo d \<Longrightarrow> dec_val d = of_int (scale_to e d) * 10 powi e"
proof -
  assume "e \<le> expo d"
  then have "(10 :: rat) powi (expo d) = 10 ^ nat (expo d - e) * 10 powi e"
    by (metis add.commute diff_add_cancel diff_ge_0_iff_ge int_nat_eq power_int_add power_int_of_nat
        zero_neq_numeral)
  then show ?thesis by (simp add: dec_val_def scale_to_def)
qed

lemma dec_le_iff: "dec_le a b \<longleftrightarrow> dec_val a \<le> dec_val b"
proof -
  let ?e = "min (expo a) (expo b)"
  have "dec_val a = of_int (scale_to ?e a) * 10 powi ?e"
    and "dec_val b = of_int (scale_to ?e b) * 10 powi ?e"
    by (rule dec_val_scale, simp)+
  moreover have "(0 :: rat) < 10 powi ?e" by (simp add: zero_less_power_int)
  ultimately show ?thesis by (simp add: dec_le_def Let_def)
qed

lemma dec_less_iff: "dec_less a b \<longleftrightarrow> dec_val a < dec_val b"
  by (simp add: dec_less_def dec_le_iff not_le)

lemma dec_le_cents [simp]: "dec_le (Dec a (- 2)) (Dec b (- 2)) \<longleftrightarrow> a \<le> b"
  by (simp add: dec_le_def scale_to_def)

lemma dec_less_cents [simp]: "dec_less (Dec a (- 2)) (Dec b (- 2)) \<longleftrightarrow> a < b"
  by (auto simp: dec_less_def)

lemma dec_add_cents:
  "\<bar>a + b\<bar> < max_coef \<Longrightarrow> dec_add (Dec a (- 2)) (Dec b (- 2)) = Dec (a + b) (- 2)"
  by (simp add: dec_add_def scale_to_def ctx_round_def)

lemma dec_sub_cents:
  "\<bar>a - b\<bar> < max_coef \<Longrightarrow> dec_sub (Dec a (- 2)) (Dec b (- 2)) = Dec (a - b) (- 2)"
  by (simp add: dec_sub_def dec_add_cents)

lemma dec_max_cents [simp]: "dec_max (Dec a (- 2)) (Dec b (- 2)) = Dec (max a b) (- 2)"
  by (auto simp: dec_max_def)

lemma quantize_cent_InrD: "quantize_cent d = Inr q \<Longrightarrow> q = Dec (cents_of d) (- 2) \<and> \<bar>cents_of d\<bar> < max_coef"
  by (auto simp: quantize_cent_def Let_def split: if_splits)

lemma cents_of_cents [simp]: "cents_of (Dec c (- 2)) = c"
  by (simp add: cents_of_def)

lemma quantize_cents [simp]: "\<bar>c\<bar> < max_coef \<Longrightarrow> quantize_cent (Dec c (- 2)) = Inr (Dec c (- 2))"
  by (simp add: quantize_cent_def)

text \<open>Rounding to cents moves the number by at most half a cent.\<close>

lemma div_half_up_bounds:
  assumes d: "0 < (d :: int)" and n: "0 \<le> n"
  shows "2 * d * div_half_up n d \<le> 2 * n + d" and "2 * n - d < 2 * d * div_half_up n d"
proof -
  let ?q = "(2 * n + d) div (2 * d)" and ?r = "(2 * n + d) mod (2 * d)"
  have q: "div_half_up n d = ?q"
  proof (cases "n = 0")
    case True
    with d show ?thesis by (simp add: div_half_up_def)
  next
    case False
    with n show ?thesis by (simp add: div_half_up_def)
  qed
  have eq: "2 * d * ?q = 2 * n + d - ?r" by (metis add_diff_cancel_right' mult_div_mod_eq)
  have r: "0 \<le> ?r" "?r < 2 * d" using d by simp_all
  show "2 * d * div_half_up n d \<le> 2 * n + d" unfolding q eq using r by simp
  show "2 * n - d < 2 * d * div_half_up n d" unfolding q eq using r by simp
qed

lemma div_half_up_mono:
  assumes "0 < (d :: int)" "0 \<le> m" "m \<le> n"
  shows "div_half_up m d \<le> div_half_up n d"
proof -
  have p: "div_half_up k d = (2 * k + d) div (2 * d)" if "0 \<le> k" for k
    using that assms(1) by (cases "k = 0") (simp_all add: div_half_up_def)
  show ?thesis using assms by (simp add: p zdiv_mono1)
qed

lemma div_half_up_nonneg: "0 < (d :: int) \<Longrightarrow> 0 \<le> n \<Longrightarrow> 0 \<le> div_half_up n d"
  by (cases "n = 0") (simp_all add: div_half_up_def pos_imp_zdiv_nonneg_iff)

lemma cents_of_nonneg: "0 \<le> coef d \<Longrightarrow> 0 \<le> cents_of d"
  by (simp add: cents_of_def div_half_up_nonneg)

section \<open>Printing\<close>

text \<open>
  \<open>str(d)\<close>: plain notation when the exponent is not positive and the leading digit is not
  more than six places behind the point, scientific notation otherwise.
\<close>

definition dec_str :: "decimal \<Rightarrow> string" where
  "dec_str d =
     (let ds = show_nat (nat \<bar>coef d\<bar>); n = int (length ds);
          left = expo d + n;
          dot = (if expo d \<le> 0 \<and> - 6 < left then left else 1);
          body = (if dot \<le> 0 then ''0.'' @ replicate (nat (- dot)) (CHR ''0'') @ ds
                  else if n \<le> dot then ds @ replicate (nat (dot - n)) (CHR ''0'')
                  else take (nat dot) ds @ ''.'' @ drop (nat dot) ds);
          ex = (if left = dot then ''''
                else ''E'' @ (if left - dot < 0 then show_int (left - dot)
                             else CHR ''+'' # show_int (left - dot)))
      in (if coef d < 0 then ''-'' else '''') @ body @ ex)"

text \<open>An amount in cents prints with its two decimals.\<close>

lemma dec_str_example: "dec_str (Dec 4550 (- 2)) = ''45.50''"
  by (simp add: dec_str_def show_nat.simps digit_char_def Let_def)

lemma dec_str_small: "dec_str (Dec 5 (- 2)) = ''0.05''"
  by (simp add: dec_str_def show_nat.simps digit_char_def Let_def numeral_eq_Suc)

section \<open>Floats\<close>

text \<open>
  A float of the program is the decimal that its \<open>repr\<close> prints (the shortest one that reads
  back as the same double), or one of the special values. Every amount enters the money code as
  \<open>Decimal(str(x))\<close>, which is exactly that decimal. The rounding of a longer literal to the
  nearest double happens before a value of this type exists.
\<close>

datatype pyfloat = Fin decimal | PInf | NInf | NaN

definition pf_ge :: "pyfloat \<Rightarrow> pyfloat \<Rightarrow> bool" where
  "pf_ge x y =
     (case (x, y) of
        (NaN, _) \<Rightarrow> False
      | (_, NaN) \<Rightarrow> False
      | (PInf, _) \<Rightarrow> True
      | (_, NInf) \<Rightarrow> True
      | (Fin a, Fin b) \<Rightarrow> dec_le b a
      | _ \<Rightarrow> False)"

definition pf_gt :: "pyfloat \<Rightarrow> pyfloat \<Rightarrow> bool" where
  "pf_gt x y = (pf_ge x y \<and> \<not> pf_ge y x)"

lemma pf_ge_NaN [simp]: "\<not> pf_ge NaN y" "\<not> pf_ge y NaN"
  by (auto simp: pf_ge_def split: pyfloat.splits)

lemma pf_ge_Fin [simp]: "pf_ge (Fin a) (Fin b) = dec_le b a"
  by (simp add: pf_ge_def)

text \<open>\<open>float(d)\<close> of an amount of a \<open>Numeric(12, 2)\<close> column, given in cents.\<close>

definition float_of_cents :: "int \<Rightarrow> pyfloat" where
  "float_of_cents c = Fin (if c mod 10 = 0 then Dec (c div 10) (- 1) else Dec c (- 2))"

text \<open>\<open>repr\<close> of a finite float: at most 17 digits, never a trailing zero behind the point
  except the one of \<open>.0\<close>, and an exponent from \<open>1e16\<close> on and below \<open>1e-4\<close>.\<close>

fun drop_zeros :: "nat \<Rightarrow> int \<Rightarrow> int \<Rightarrow> int \<times> int" where
  "drop_zeros 0 c e = (c, e)"
| "drop_zeros (Suc k) c e = (if c \<noteq> 0 \<and> c mod 10 = 0 then drop_zeros k (c div 10) (e + 1) else (c, e))"

definition float_repr :: "decimal \<Rightarrow> string" where
  "float_repr d =
     (let c0 = \<bar>coef d\<bar>; (c, e) = drop_zeros (length (show_nat (nat c0))) c0 (expo d);
          ds = show_nat (nat c); n = int (length ds); pt = (if c = 0 then 1 else e + n);
          body = (if - 4 < pt \<and> pt \<le> 16
                  then if pt \<le> 0 then ''0.'' @ replicate (nat (- pt)) (CHR ''0'') @ ds
                       else if n \<le> pt then ds @ replicate (nat (pt - n)) (CHR ''0'') @ ''.0''
                       else take (nat pt) ds @ ''.'' @ drop (nat pt) ds
                  else take 1 ds @ (if n = 1 then '''' else CHR ''.'' # drop 1 ds) @ ''e'' @
                       (if pt - 1 < 0 then ''-'' else ''+'') @
                       (let x = show_nat (nat \<bar>pt - 1\<bar>)
                        in if length x < 2 then CHR ''0'' # x else x))
      in (if coef d < 0 then ''-'' else '''') @ body)"

section \<open>Reading numbers\<close>

definition is_digit :: "char \<Rightarrow> bool" where
  "is_digit c = (digit_value c \<noteq> None)"

definition nat_of_digits :: "string \<Rightarrow> int" where
  "nat_of_digits s = (case digits_value 0 s of None \<Rightarrow> 0 | Some n \<Rightarrow> int n)"

definition split_sign :: "string \<Rightarrow> bool \<times> string" where
  "split_sign s =
     (case s of [] \<Rightarrow> (False, [])
      | c # r \<Rightarrow> if c = CHR ''-'' then (True, r) else if c = CHR ''+'' then (False, r) else (False, s))"

text \<open>The unsigned part \<open>digits[.digits][e[sign]digits]\<close>, as a decimal.\<close>

definition read_exponent :: "string \<Rightarrow> int option" where
  "read_exponent s =
     (let (neg, r) = split_sign s
      in if r \<noteq> [] \<and> list_all is_digit r then Some ((if neg then - 1 else 1) * nat_of_digits r) else None)"

definition read_unsigned :: "string \<Rightarrow> decimal option" where
  "read_unsigned s =
     (let ip = takeWhile is_digit s; r = dropWhile is_digit s;
          (fp, rest) = (case r of [] \<Rightarrow> ([], [])
                        | c # r' \<Rightarrow> if c = CHR ''.'' then (takeWhile is_digit r', dropWhile is_digit r')
                                   else ([], r));
          d = Dec (nat_of_digits (ip @ fp)) (- int (length fp))
      in if ip = [] \<and> fp = [] then None
         else case rest of [] \<Rightarrow> Some d
              | c # x \<Rightarrow> if lower_char c = CHR ''e''
                        then map_option (\<lambda>k. Dec (coef d) (expo d + k)) (read_exponent x) else None)"

text \<open>An underscore is accepted between two digits only.\<close>

fun drop_underscores :: "bool \<Rightarrow> string \<Rightarrow> string option" where
  "drop_underscores p [] = Some []"
| "drop_underscores p (c # cs) =
     (if c = CHR ''_''
      then if p \<and> (case cs of [] \<Rightarrow> False | d # _ \<Rightarrow> is_digit d) then drop_underscores False cs else None
      else map_option ((#) c) (drop_underscores (is_digit c) cs))"

text \<open>\<open>float(s)\<close>; \<open>None\<close> is the \<open>ValueError\<close>.\<close>

definition py_float :: "string \<Rightarrow> pyfloat option" where
  "py_float s =
     (let (neg, r) = split_sign (strip s); l = lower r
      in if l = ''inf'' \<or> l = ''infinity'' then Some (if neg then NInf else PInf)
         else if l = ''nan'' then Some NaN
         else case Option.bind (drop_underscores False r) read_unsigned of
                None \<Rightarrow> None
              | Some d \<Rightarrow> Some (Fin (if neg then Dec (- coef d) (expo d) else d)))"

lemma py_float_empty: "py_float '''' = None"
  by (simp add: py_float_def split_sign_def lower_def read_unsigned_def)

end
