(* ===== verification/PyJson.thy ===== *)
theory PyJson
  imports PyDecimal
begin

text \<open>
  The JSON values that travel between the processes (claims, tool arguments, tool results,
  judge trails), as the Python objects \<open>json.loads\<close> makes of them, with the operations the
  source uses on them: \<open>dict.get\<close>, truth value, \<open>or\<close>, \<open>str\<close>, \<open>int\<close>,
  \<open>Decimal(str(x))\<close> and \<open>json.dumps\<close>. A \<open>dict\<close> is the list of its items in insertion
  order; a key is stored once. Strings hold characters below 256.
\<close>

datatype json =
    JNull
  | JBool bool
  | JInt int
  | JFloat pyfloat
  | JStr string
  | JList "json list"
  | JObj "(string \<times> json) list"

type_synonym dict = "(string \<times> json) list"

text \<open>\<open>d.get(k)\<close> and \<open>d.get(k, v)\<close>.\<close>

definition dget :: "dict \<Rightarrow> string \<Rightarrow> json" where
  "dget d k = (case map_of d k of None \<Rightarrow> JNull | Some v \<Rightarrow> v)"

definition dget_or :: "dict \<Rightarrow> string \<Rightarrow> json \<Rightarrow> json" where
  "dget_or d k v = (case map_of d k of None \<Rightarrow> v | Some x \<Rightarrow> x)"

text \<open>\<open>d[k]\<close>, which raises \<open>KeyError\<close>.\<close>

definition dindex :: "dict \<Rightarrow> string \<Rightarrow> json res" where
  "dindex d k = (case map_of d k of None \<Rightarrow> raise_exn ''KeyError'' | Some v \<Rightarrow> Inr v)"

text \<open>\<open>{**d, k: v}\<close>: an existing key keeps its place.\<close>

definition dset :: "string \<Rightarrow> json \<Rightarrow> dict \<Rightarrow> dict" where
  "dset k v d = AList.update k v d"

lemma dget_dset_eq [simp, db_simps]: "dget (dset k v d) k = v"
  by (simp add: dget_def dset_def db_simps)

lemma dget_dset_neq [simp, db_simps]: "k' \<noteq> k \<Longrightarrow> dget (dset k v d) k' = dget d k'"
  by (simp add: dget_def dset_def db_simps)

text \<open>Using a value as a mapping raises when it is not a \<open>dict\<close>.\<close>

definition as_dict :: "json \<Rightarrow> dict res" where
  "as_dict j = (case j of JObj d \<Rightarrow> Inr d | _ \<Rightarrow> raise_exn ''AttributeError'')"

lemma as_dict_Inr [res_simps]: "as_dict j = Inr d \<longleftrightarrow> j = JObj d"
  by (simp add: as_dict_def split: json.splits)

section \<open>Truth value\<close>

fun truthy :: "json \<Rightarrow> bool" where
  "truthy JNull = False"
| "truthy (JBool b) = b"
| "truthy (JInt n) = (n \<noteq> 0)"
| "truthy (JFloat f) = (case f of Fin d \<Rightarrow> coef d \<noteq> 0 | _ \<Rightarrow> True)"
| "truthy (JStr s) = (s \<noteq> [])"
| "truthy (JList xs) = (xs \<noteq> [])"
| "truthy (JObj d) = (d \<noteq> [])"

definition py_or :: "json \<Rightarrow> json \<Rightarrow> json" where
  "py_or a b = (if truthy a then a else b)"

lemma not_truthy_dget: "map_of d k = None \<Longrightarrow> \<not> truthy (dget d k)"
  by (simp add: dget_def)

lemma truthy_mapD: "truthy (dget d k) \<Longrightarrow> map_of d k = Some (dget d k)"
  by (auto simp: dget_def split: option.splits)

section \<open>Text of a value\<close>

definition hex_digit :: "nat \<Rightarrow> char" where
  "hex_digit n = ''0123456789abcdef'' ! (n mod 16)"

text \<open>\<open>repr\<close> of a string: single quotes unless the text holds one and no double quote.\<close>

definition repr_char :: "char \<Rightarrow> char \<Rightarrow> string" where
  "repr_char q c =
     (let n = (of_char c :: nat)
      in if c = q \<or> c = CHR 0x5C then [CHR 0x5C, c]
         else if n = 10 then [CHR 0x5C, CHR ''n'']
         else if n = 13 then [CHR 0x5C, CHR ''r'']
         else if n = 9 then [CHR 0x5C, CHR ''t'']
         else if n < 32 \<or> (127 \<le> n \<and> n \<le> 160) \<or> n = 173
              then [CHR 0x5C, CHR ''x'', hex_digit (n div 16), hex_digit n]
         else [c])"

definition repr_str :: "string \<Rightarrow> string" where
  "repr_str s =
     (let q = (if CHR 0x27 \<in> set s \<and> CHR 0x22 \<notin> set s then CHR 0x22 else CHR 0x27)
      in [q] @ concat (map (repr_char q) s) @ [q])"

definition float_text :: "pyfloat \<Rightarrow> string" where
  "float_text f = (case f of Fin d \<Rightarrow> float_repr d | PInf \<Rightarrow> ''inf'' | NInf \<Rightarrow> ''-inf'' | NaN \<Rightarrow> ''nan'')"

fun py_repr :: "json \<Rightarrow> string" where
  "py_repr JNull = ''None''"
| "py_repr (JBool b) = (if b then ''True'' else ''False'')"
| "py_repr (JInt n) = show_int n"
| "py_repr (JFloat f) = float_text f"
| "py_repr (JStr s) = repr_str s"
| "py_repr (JList xs) = ''['' @ join '', '' (map py_repr xs) @ '']''"
| "py_repr (JObj d) = ''{'' @ join '', '' (map (\<lambda>(k, v). repr_str k @ '': '' @ py_repr v) d) @ ''}''"

definition py_str :: "json \<Rightarrow> string" where
  "py_str j = (case j of JStr s \<Rightarrow> s | _ \<Rightarrow> py_repr j)"

lemma py_str_JStr [simp]: "py_str (JStr s) = s"
  by (simp add: py_str_def)

section \<open>Numbers\<close>

text \<open>
  \<open>Decimal(str(x))\<close> of a number. Anything whose text is not a finite number raises: for the
  special floats Python builds a special \<open>Decimal\<close>, and it is the first \<open>quantize\<close> or
  comparison that raises \<open>InvalidOperation\<close>. \<open>Decimal\<close> drops every underscore.
\<close>

definition dec_of_float :: "pyfloat \<Rightarrow> decimal res" where
  "dec_of_float f = (case f of Fin d \<Rightarrow> Inr d | _ \<Rightarrow> raise_exn ''InvalidOperation'')"

definition json_decimal :: "json \<Rightarrow> decimal res" where
  "json_decimal j =
     (case j of
        JInt n \<Rightarrow> Inr (Dec n 0)
      | JFloat f \<Rightarrow> dec_of_float f
      | JStr s \<Rightarrow> (case py_float (filter (\<lambda>c. c \<noteq> CHR ''_'') s) of
                     Some (Fin d) \<Rightarrow> Inr d | _ \<Rightarrow> raise_exn ''InvalidOperation'')
      | _ \<Rightarrow> raise_exn ''InvalidOperation'')"

lemma dec_of_float_of_cents: "\<exists>d. dec_of_float (float_of_cents c) = Inr d \<and> cents_of d = c"
proof (cases "c mod 10 = 0")
  case True
  then have "c div 10 * 10 = c" by presburger
  with True show ?thesis by (simp add: dec_of_float_def float_of_cents_def cents_of_def)
next
  case False
  then show ?thesis by (simp add: dec_of_float_def float_of_cents_def)
qed

text \<open>\<open>int(x)\<close>: truncates a float, reads a numeral.\<close>

definition trunc_dec :: "decimal \<Rightarrow> int" where
  "trunc_dec d =
     (if 0 \<le> expo d then coef d * 10 ^ nat (expo d)
      else sgn (coef d) * (\<bar>coef d\<bar> div 10 ^ nat (- expo d)))"

definition py_int :: "json \<Rightarrow> int res" where
  "py_int j =
     (case j of
        JInt n \<Rightarrow> Inr n
      | JBool b \<Rightarrow> Inr (if b then 1 else 0)
      | JFloat (Fin d) \<Rightarrow> Inr (trunc_dec d)
      | JFloat NaN \<Rightarrow> raise_exn ''ValueError''
      | JFloat _ \<Rightarrow> raise_exn ''OverflowError''
      | JStr s \<Rightarrow>
          (let (neg, r) = split_sign (strip s)
           in case drop_underscores False r of
                None \<Rightarrow> raise_exn ''ValueError''
              | Some ds \<Rightarrow> if ds \<noteq> [] \<and> list_all is_digit ds
                          then Inr ((if neg then - 1 else 1) * nat_of_digits ds)
                          else raise_exn ''ValueError'')
      | _ \<Rightarrow> raise_exn ''TypeError'')"

text \<open>\<open>list(x)\<close>.\<close>

definition py_list :: "json \<Rightarrow> json list res" where
  "py_list j =
     (case j of JList xs \<Rightarrow> Inr xs
      | JObj d \<Rightarrow> Inr (map (JStr \<circ> fst) d)
      | JStr s \<Rightarrow> Inr (map (\<lambda>c. JStr [c]) s)
      | _ \<Rightarrow> raise_exn ''TypeError'')"

section \<open>json.dumps\<close>

text \<open>The default encoder: ASCII output, separators comma-blank and colon-blank.\<close>

definition esc_char :: "char \<Rightarrow> string" where
  "esc_char c =
     (let n = (of_char c :: nat)
      in if c = CHR 0x22 \<or> c = CHR 0x5C then [CHR 0x5C, c]
         else if n = 10 then [CHR 0x5C, CHR ''n'']
         else if n = 13 then [CHR 0x5C, CHR ''r'']
         else if n = 9 then [CHR 0x5C, CHR ''t'']
         else if n = 8 then [CHR 0x5C, CHR ''b'']
         else if n = 12 then [CHR 0x5C, CHR ''f'']
         else if n < 32 \<or> 126 < n
              then [CHR 0x5C] @ ''u00'' @ [hex_digit (n div 16), hex_digit n]
         else [c])"

definition dumps_str :: "string \<Rightarrow> string" where
  "dumps_str s = [CHR 0x22] @ concat (map esc_char s) @ [CHR 0x22]"

definition dumps_float :: "pyfloat \<Rightarrow> string" where
  "dumps_float f = (case f of Fin d \<Rightarrow> float_repr d | PInf \<Rightarrow> ''Infinity'' | NInf \<Rightarrow> ''-Infinity'' | NaN \<Rightarrow> ''NaN'')"

fun json_dumps :: "json \<Rightarrow> string" where
  "json_dumps JNull = ''null''"
| "json_dumps (JBool b) = (if b then ''true'' else ''false'')"
| "json_dumps (JInt n) = show_int n"
| "json_dumps (JFloat f) = dumps_float f"
| "json_dumps (JStr s) = dumps_str s"
| "json_dumps (JList xs) = ''['' @ join '', '' (map json_dumps xs) @ '']''"
| "json_dumps (JObj d) = ''{'' @ join '', '' (map (\<lambda>(k, v). dumps_str k @ '': '' @ json_dumps v) d) @ ''}''"

lemma json_dumps_example:
  "json_dumps (JObj [(''verdict'', JStr ''APPROVE''), (''n'', JInt 7), (''ok'', JBool True)]) =
   ''{\"verdict\": \"APPROVE\", \"n\": 7, \"ok\": true}''"
  by (simp add: dumps_str_def esc_char_def show_int_def show_nat.simps digit_char_def)

end
