(* ===== verification/Tables.thy ===== *)
theory Tables
  imports Settings "HOL-Library.Product_Lexorder"
begin

text \<open>
  The stored data (\<open>src/core/models.py\<close>): one record per table row, a table as its rows in
  insertion order with the sequence of its \<open>id\<close> column, and the PostgreSQL statements the
  repositories rely on: \<open>INSERT ... ON CONFLICT DO NOTHING RETURNING id\<close> (a conflict takes a
  sequence value too), and the conversion of a value to its column's type. Times are
  microseconds since the epoch, in UTC.
\<close>

type_synonym time = int

abbreviation seconds :: "int \<Rightarrow> time" where
  "seconds n \<equiv> n * 1000000"

section \<open>Rows\<close>

record refund_row =
  rf_id :: int
  rf_request_id :: string
  rf_transaction_id :: string
  rf_amount :: int \<comment> \<open>cents: Numeric(12, 2)\<close>
  rf_currency :: string
  rf_created_at :: time

record order_row =
  or_id :: int
  or_order_id :: string
  or_user_id :: string
  or_amount :: int \<comment> \<open>cents: Numeric(12, 2)\<close>
  or_currency :: string
  or_created_at :: time

record transaction_row =
  tx_request_id :: string
  tx_payload :: json
  tx_status :: string
  tx_created_at :: time
  tx_updated_at :: time
  tx_judge_trail :: "dict option"

record audit_row =
  au_id :: int
  au_client_id :: string
  au_tool :: "string option"
  au_arguments :: dict
  au_decision :: string
  au_result :: "string option"
  au_created_at :: time

record knowledge_row =
  kb_id :: int
  kb_source :: string
  kb_source_tier :: string
  kb_content :: string
  kb_embedding :: "pyfloat list"
  kb_created_at :: time
  kb_updated_at :: time

definition EMBEDDING_DIM :: nat where
  "EMBEDDING_DIM = 768"

section \<open>Tables\<close>

record 'r table =
  tb_rows :: "'r list"
  tb_seq :: int

definition insert_row :: "(int \<Rightarrow> 'r) \<Rightarrow> 'r table \<Rightarrow> 'r table" where
  "insert_row mk t = t\<lparr>tb_rows := tb_rows t @ [mk (tb_seq t)], tb_seq := tb_seq t + 1\<rparr>"

definition insert_on_conflict :: "('r \<Rightarrow> 'k) \<Rightarrow> (int \<Rightarrow> 'r) \<Rightarrow> 'r table \<Rightarrow> int option \<times> 'r table" where
  "insert_on_conflict key mk t =
     (if list_ex (\<lambda>r. key r = key (mk (tb_seq t))) (tb_rows t)
      then (None, t\<lparr>tb_seq := tb_seq t + 1\<rparr>)
      else (Some (tb_seq t), insert_row mk t))"

text \<open>A table's rows carry distinct keys and ids below the sequence.\<close>

definition keyed :: "('r \<Rightarrow> 'k) \<Rightarrow> ('r \<Rightarrow> int) \<Rightarrow> 'r table \<Rightarrow> bool" where
  "keyed key rid t \<longleftrightarrow>
     distinct (map key (tb_rows t)) \<and> distinct (map rid (tb_rows t)) \<and>
     (\<forall>r \<in> set (tb_rows t). rid r < tb_seq t)"

definition lookup_key :: "('r \<Rightarrow> 'k) \<Rightarrow> 'k \<Rightarrow> 'r table \<Rightarrow> 'r option" where
  "lookup_key key k t = find (\<lambda>r. key r = k) (tb_rows t)"

lemma insert_row_rows [simp, db_simps]: "tb_rows (insert_row mk t) = tb_rows t @ [mk (tb_seq t)]"
  by (simp add: insert_row_def)

lemma insert_row_seq [simp, db_simps]: "tb_seq (insert_row mk t) = tb_seq t + 1"
  by (simp add: insert_row_def)

lemma keyed_seq [simp]: "keyed key rid t \<Longrightarrow> keyed key rid (t\<lparr>tb_seq := tb_seq t + 1\<rparr>)"
  by (force simp: keyed_def)

lemma keyed_insert_row:
  assumes "keyed key rid t" "\<And>i. rid (mk i) = i"
    and "key (mk (tb_seq t)) \<notin> key ` set (tb_rows t)"
  shows "keyed key rid (insert_row mk t)"
  using assms by (auto simp: keyed_def)

lemma keyed_insert_on_conflict [step_inv]:
  assumes "keyed key rid t" "\<And>i. rid (mk i) = i"
  shows "keyed key rid (snd (insert_on_conflict key mk t))"
  using assms by (force simp: insert_on_conflict_def list_ex_iff intro!: keyed_insert_row)

lemma lookup_key_SomeD: "lookup_key key k t = Some r \<Longrightarrow> r \<in> set (tb_rows t) \<and> key r = k"
  by (auto simp: lookup_key_def dest: find_SomeD)

lemma lookup_key_None: "lookup_key key k t = None \<longleftrightarrow> k \<notin> key ` set (tb_rows t)"
  by (auto simp: lookup_key_def find_None_iff)

lemma lookup_key_in:
  "keyed key rid t \<Longrightarrow> r \<in> set (tb_rows t) \<Longrightarrow> lookup_key key (key r) t = Some r"
proof -
  assume k: "keyed key rid t" and r: "r \<in> set (tb_rows t)"
  then obtain x where x: "lookup_key key (key r) t = Some x"
    by (metis image_eqI lookup_key_None not_None_eq)
  from lookup_key_SomeD [OF x] k r have "x = r"
    by (auto simp: keyed_def intro: distinct_map_inj)
  with x show ?thesis by simp
qed

lemma insert_on_conflict_hit:
  "lookup_key key (key (mk (tb_seq t))) t = Some r \<Longrightarrow>
   insert_on_conflict key mk t = (None, t\<lparr>tb_seq := tb_seq t + 1\<rparr>)"
  by (auto simp: insert_on_conflict_def list_ex_iff dest: lookup_key_SomeD)

lemma insert_on_conflict_miss:
  "lookup_key key (key (mk (tb_seq t))) t = None \<Longrightarrow>
   insert_on_conflict key mk t = (Some (tb_seq t), insert_row mk t)"
  unfolding insert_on_conflict_def list_ex_iff lookup_key_None image_iff by metis

lemma lookup_key_insert_row:
  "lookup_key key k (insert_row mk t) =
     (case lookup_key key k t of
        Some r \<Rightarrow> Some r
      | None \<Rightarrow> if key (mk (tb_seq t)) = k then Some (mk (tb_seq t)) else None)"
  by (simp add: lookup_key_def find_append split: option.splits)

lemma lookup_key_seq [simp]: "lookup_key key k (t\<lparr>tb_seq := n\<rparr>) = lookup_key key k t"
  by (simp add: lookup_key_def)

lemma filter_key_singleton:
  assumes "keyed key rid t" "lookup_key key k t = Some r"
  shows "filter (\<lambda>x. key x = k) (tb_rows t) = [r]"
proof -
  have "distinct (map key xs) \<Longrightarrow> find (\<lambda>x. key x = k) xs = Some r \<Longrightarrow>
      filter (\<lambda>x. key x = k) xs = [r]" for xs
  proof (induction xs)
    case Nil
    then show ?case by simp
  next
    case (Cons x xs)
    then show ?case
    proof (cases "key x = k")
      case True
      with Cons.prems have "filter (\<lambda>x. key x = k) xs = []"
        by (auto simp: filter_empty_conv rev_image_eqI)
      with True Cons.prems show ?thesis by simp
    qed (auto)
  qed
  with assms show ?thesis by (simp add: keyed_def lookup_key_def)
qed

section \<open>Column types\<close>

text \<open>
  \<open>Numeric(12, 2)\<close> rounds to cents, half away from zero, and rejects what needs more than ten
  digits before the point; \<open>String(3)\<close> rejects a longer text. The driver raises
  \<open>DBAPIError\<close>.
\<close>

definition max_numeric :: int where
  "max_numeric = 10 ^ 12"

definition numeric_12_2 :: "decimal \<Rightarrow> int res" where
  "numeric_12_2 d = (let c = cents_of d in if \<bar>c\<bar> < max_numeric then Inr c else raise_exn ''DBAPIError'')"

definition string_3 :: "string \<Rightarrow> string res" where
  "string_3 s = (if length s \<le> 3 then Inr s else raise_exn ''DBAPIError'')"

lemma numeric_12_2_Inr [res_simps]:
  "numeric_12_2 d = Inr c \<longleftrightarrow> c = cents_of d \<and> \<bar>c\<bar> < max_numeric"
  by (auto simp: numeric_12_2_def Let_def)

lemma string_3_Inr [res_simps]: "string_3 s = Inr s' \<longleftrightarrow> s' = s \<and> length s \<le> 3"
  by (auto simp: string_3_def)

section \<open>Selecting one row\<close>

text \<open>\<open>scalar_one()\<close> and \<open>scalar_one_or_none()\<close>.\<close>

definition scalar_one :: "'r list \<Rightarrow> 'r res" where
  "scalar_one rs = (case rs of [r] \<Rightarrow> Inr r | [] \<Rightarrow> raise_exn ''NoResultFound''
                    | _ \<Rightarrow> raise_exn ''MultipleResultsFound'')"

definition scalar_one_or_none :: "'r list \<Rightarrow> 'r option res" where
  "scalar_one_or_none rs = (case rs of [] \<Rightarrow> Inr None | [r] \<Rightarrow> Inr (Some r)
                            | _ \<Rightarrow> raise_exn ''MultipleResultsFound'')"

lemma scalar_one_keyed:
  "keyed key rid t \<Longrightarrow> lookup_key key k t = Some r \<Longrightarrow>
   scalar_one (filter (\<lambda>x. key x = k) (tb_rows t)) = Inr r"
  by (simp add: filter_key_singleton scalar_one_def)

lemma scalar_one_or_none_keyed:
  assumes "keyed key rid t"
  shows "scalar_one_or_none (filter (\<lambda>x. key x = k) (tb_rows t)) = Inr (lookup_key key k t)"
proof (cases "lookup_key key k t")
  case None
  then have "filter (\<lambda>x. key x = k) (tb_rows t) = []"
    by (auto simp: lookup_key_None filter_empty_conv)
  with None show ?thesis by (simp add: scalar_one_or_none_def)
next
  case (Some r)
  with assms show ?thesis by (simp add: filter_key_singleton scalar_one_or_none_def)
qed

section \<open>Timestamps as text\<close>

text \<open>\<open>datetime.isoformat()\<close> of a UTC time (proleptic Gregorian calendar, years 1 to 9999).\<close>

definition civil_date :: "int \<Rightarrow> int \<times> int \<times> int" where
  "civil_date days =
     (let z = days + 719468; era = z div 146097; doe = z mod 146097;
          yoe = (doe - doe div 1460 + doe div 36524 - doe div 146096) div 365;
          doy = doe - (365 * yoe + yoe div 4 - yoe div 100);
          mp = (5 * doy + 2) div 153;
          m = (if mp < 10 then mp + 3 else mp - 9)
      in (yoe + era * 400 + (if m \<le> 2 then 1 else 0), m, doy - (153 * mp + 2) div 5 + 1))"

definition pad :: "nat \<Rightarrow> int \<Rightarrow> string" where
  "pad w n = (let s = show_nat (nat n) in replicate (w - length s) (CHR ''0'') @ s)"

definition isoformat :: "time \<Rightarrow> string" where
  "isoformat t =
     (let s = t div 1000000; us = t mod 1000000; (y, m, d) = civil_date (s div 86400); r = s mod 86400
      in pad 4 y @ ''-'' @ pad 2 m @ ''-'' @ pad 2 d @ ''T'' @ pad 2 (r div 3600) @ '':'' @
         pad 2 (r mod 3600 div 60) @ '':'' @ pad 2 (r mod 60) @
         (if us = 0 then '''' else CHR ''.'' # pad 6 us) @ ''+00:00'')"

lemma isoformat_example: "isoformat (seconds 1789293600) = ''2026-09-13T10:00:00+00:00''"
  by code_simp

end
