(* ===== verification/Store_Interface.thy ===== *)
theory Store_Interface
  imports Tables
begin

text \<open>
  The contract of a write-once store: what the callers of \<open>record_refund\<close> and of the order
  seed rely on. A \<open>put\<close> returns the row on file for its key and whether it was created; the
  first writer of a key wins and no later \<open>put\<close> changes what is on file. The lemmas about
  runs of puts are proved once here and reach the repositories by interpretation.
\<close>

text \<open>A run of puts; one that raises leaves the store as it was.\<close>

fun run_puts :: "('a \<Rightarrow> 't \<Rightarrow> ('r \<times> bool \<times> 't) res) \<Rightarrow> 'a list \<Rightarrow> 't \<Rightarrow> 't" where
  "run_puts put [] t = t"
| "run_puts put (a # as) t =
     run_puts put as (case put a t of Inl e \<Rightarrow> t | Inr (r, c, t') \<Rightarrow> t')"

locale write_once_store =
  fixes put :: "'a \<Rightarrow> 't \<Rightarrow> ('r \<times> bool \<times> 't) res"
    and get :: "'k \<Rightarrow> 't \<Rightarrow> 'r option"
    and key :: "'a \<Rightarrow> 'k"
    and inv :: "'t \<Rightarrow> bool"
  assumes put_inv: "inv t \<Longrightarrow> put a t = Inr (r, c, t') \<Longrightarrow> inv t'"
    and put_get: "inv t \<Longrightarrow> put a t = Inr (r, c, t') \<Longrightarrow> get (key a) t' = Some r"
    and put_other: "inv t \<Longrightarrow> put a t = Inr (r, c, t') \<Longrightarrow> k \<noteq> key a \<Longrightarrow> get k t' = get k t"
    and put_created: "inv t \<Longrightarrow> put a t = Inr (r, c, t') \<Longrightarrow> c \<longleftrightarrow> get (key a) t = None"
    and put_hit: "inv t \<Longrightarrow> put a t = Inr (r, c, t') \<Longrightarrow> get (key a) t = Some r' \<Longrightarrow> r = r'"
begin

lemma put_keeps:
  assumes "inv t" "put a t = Inr (r, c, t')" "get k t = Some x"
  shows "get k t' = Some x"
proof (cases "k = key a")
  case True
  with assms put_hit put_get show ?thesis by metis
next
  case False
  with assms put_other show ?thesis by metis
qed

lemma run_inv: "inv t \<Longrightarrow> inv (run_puts put as t)"
proof (induction as arbitrary: t)
  case (Cons a as)
  then show ?case by (cases "put a t") (auto dest: put_inv)
qed simp

lemma run_keeps: "inv t \<Longrightarrow> get k t = Some x \<Longrightarrow> get k (run_puts put as t) = Some x"
proof (induction as arbitrary: t)
  case (Cons a as)
  show ?case
  proof (cases "put a t")
    case (Inl e)
    with Cons show ?thesis by simp
  next
    case (Inr y)
    obtain r c t' where y: "y = (r, c, t')" by (cases y)
    from Cons.prems Inr y have "inv t'" "get k t' = Some x"
      by (auto intro: put_inv put_keeps)
    with Cons.IH Inr y show ?thesis by simp
  qed
qed simp

lemma replay:
  assumes inv: "inv t" and first: "put a t = Inr (r, c, t1)"
    and later: "put b (run_puts put as t1) = Inr (r', c', t2)" and key: "key b = key a"
  shows "r' = r \<and> \<not> c'"
proof -
  have t1: "inv t1" "get (key a) t1 = Some r"
    using inv first put_inv put_get by blast+
  then have "get (key a) (run_puts put as t1) = Some r" "inv (run_puts put as t1)"
    by (auto intro: run_keeps run_inv)
  with later key put_hit put_created show ?thesis by (metis option.distinct(1))
qed

end

end
