(* ===== verification/Refunds.thy ===== *)
theory Refunds
  imports Store_Interface "HOL-Library.Multiset"
begin

text \<open>
  The refund ledger (\<open>src/core/repositories/refund_repository.py\<close>): recording a refund at most
  once per \<open>request_id\<close>, and the per-user history, a join through \<open>orders\<close>. The ledger is
  an instance of the write-once store. \<open>refunded_on\<close> is the abstract view the other
  components reason with: the cents refunded on an order.
\<close>

section \<open>record_refund\<close>

text \<open>
  Both values are converted to their column's type before the conflict is looked at. The
  \<open>SELECT\<close> after the commit reads the row on file.
\<close>

definition record_refund ::
  "time \<Rightarrow> string \<Rightarrow> string \<Rightarrow> pyfloat \<Rightarrow> string \<Rightarrow> refund_row table
   \<Rightarrow> (refund_row \<times> bool \<times> refund_row table) res" where
  "record_refund now request_id transaction_id amount currency t =
     bindR (dec_of_float amount) (\<lambda>d.
     bindR (numeric_12_2 d) (\<lambda>cents.
     bindR (string_3 currency) (\<lambda>cur.
     let mk = (\<lambda>i. \<lparr>rf_id = i, rf_request_id = request_id, rf_transaction_id = transaction_id,
                    rf_amount = cents, rf_currency = cur, rf_created_at = now\<rparr>);
         (inserted_id, t') = insert_on_conflict rf_request_id mk t
     in bindR (scalar_one (filter (\<lambda>r. rf_request_id r = request_id) (tb_rows t'))) (\<lambda>refund.
        Inr (refund, inserted_id \<noteq> None, t')))))"

section \<open>History of a user\<close>

definition user_refunds :: "order_row table \<Rightarrow> refund_row table \<Rightarrow> string \<Rightarrow> refund_row list" where
  "user_refunds ords refs user_id =
     concat (map (\<lambda>r. map (\<lambda>o'. r)
       (filter (\<lambda>o'. or_order_id o' = rf_transaction_id r \<and> or_user_id o' = user_id) (tb_rows ords)))
       (tb_rows refs))"

text \<open>Newest first, the id breaking ties; a negative \<open>LIMIT\<close> is an error of the database.\<close>

definition newest_first :: "refund_row \<Rightarrow> int \<times> int" where
  "newest_first r = (- rf_created_at r, - rf_id r)"

definition list_refunds_for_user ::
  "order_row table \<Rightarrow> refund_row table \<Rightarrow> string \<Rightarrow> int \<Rightarrow> refund_row list res" where
  "list_refunds_for_user ords refs user_id limit =
     (if limit < 0 then raise_exn ''DBAPIError''
      else Inr (take (nat limit) (sort_key newest_first (user_refunds ords refs user_id))))"

text \<open>
  Count and totals per currency. The database returns the groups in no stated order; here it is
  the order of first appearance.
\<close>

definition summarize_refunds_for_user ::
  "order_row table \<Rightarrow> refund_row table \<Rightarrow> string \<Rightarrow> int \<times> (string \<times> int) list" where
  "summarize_refunds_for_user ords refs user_id =
     (let rs = user_refunds ords refs user_id;
          rows = map (\<lambda>c. let g = filter (\<lambda>r. rf_currency r = c) rs
                           in (c, int (length g), \<Sum>r \<leftarrow> g. rf_amount r))
                     (remdups (map rf_currency rs))
      in (\<Sum>row \<leftarrow> rows. fst (snd row), map (\<lambda>row. (fst row, snd (snd row))) rows))"

section \<open>The abstract view\<close>

definition refunded_on :: "string \<Rightarrow> refund_row table \<Rightarrow> int" where
  "refunded_on oid t = (\<Sum>r \<leftarrow> filter (\<lambda>r. rf_transaction_id r = oid) (tb_rows t). rf_amount r)"

text \<open>
  Rows with distinct request ids and ids, amounts that the column can hold, currency codes of at
  most three letters.
\<close>

definition ledger_inv :: "refund_row table \<Rightarrow> bool" where
  "ledger_inv t \<longleftrightarrow>
     keyed rf_request_id rf_id t \<and>
     (\<forall>r \<in> set (tb_rows t). \<bar>rf_amount r\<bar> < max_numeric \<and> length (rf_currency r) \<le> 3)"

definition find_refund :: "string \<Rightarrow> refund_row table \<Rightarrow> refund_row option" where
  "find_refund request_id t = lookup_key rf_request_id request_id t"

lemma ledger_inv_keyed [simp, dest]: "ledger_inv t \<Longrightarrow> keyed rf_request_id rf_id t"
  by (simp add: ledger_inv_def)

text \<open>What a successful call did, in the two cases.\<close>

lemma record_refund_cases:
  assumes inv: "ledger_inv t"
    and ok: "record_refund now rid oid amt cur t = Inr (r, c, t')"
  obtains
    (replayed) "find_refund rid t = Some r" "\<not> c" "t' = t\<lparr>tb_seq := tb_seq t + 1\<rparr>"
  | (created) d where "find_refund rid t = None" "c" "dec_of_float amt = Inr d"
      "\<bar>cents_of d\<bar> < max_numeric" "length cur \<le> 3"
      "r = \<lparr>rf_id = tb_seq t, rf_request_id = rid, rf_transaction_id = oid,
            rf_amount = cents_of d, rf_currency = cur, rf_created_at = now\<rparr>"
      "tb_rows t' = tb_rows t @ [r]" "tb_seq t' = tb_seq t + 1"
proof -
  from ok obtain d where d: "dec_of_float amt = Inr d" "\<bar>cents_of d\<bar> < max_numeric" "length cur \<le> 3"
    by (auto simp: record_refund_def res_simps)
  define mk where "mk = (\<lambda>i. \<lparr>rf_id = i, rf_request_id = rid, rf_transaction_id = oid,
    rf_amount = cents_of d, rf_currency = cur, rf_created_at = now\<rparr>)"
  have key: "rf_request_id (mk i) = rid" for i by (simp add: mk_def)
  have ok': "(let (i, t'') = insert_on_conflict rf_request_id mk t
      in bindR (scalar_one (filter (\<lambda>r. rf_request_id r = rid) (tb_rows t''))) (\<lambda>x.
         Inr (x, i \<noteq> None, t''))) = Inr (r, c, t')"
    using ok d by (auto simp: record_refund_def res_simps mk_def Let_def numeric_12_2_def string_3_def)
  show thesis
  proof (cases "find_refund rid t")
    case (Some x)
    then have hit: "insert_on_conflict rf_request_id mk t = (None, t\<lparr>tb_seq := tb_seq t + 1\<rparr>)"
      by (simp add: insert_on_conflict_hit find_refund_def key)
    from inv Some have "scalar_one (filter (\<lambda>r. rf_request_id r = rid) (tb_rows t)) = Inr x"
      unfolding find_refund_def by (metis ledger_inv_keyed scalar_one_keyed)
    with ok' hit have "r = x \<and> \<not> c \<and> t' = t\<lparr>tb_seq := tb_seq t + 1\<rparr>" by auto
    with Some show thesis by (auto intro: replayed)
  next
    case None
    then have miss: "insert_on_conflict rf_request_id mk t = (Some (tb_seq t), insert_row mk t)"
      by (simp add: insert_on_conflict_miss find_refund_def key)
    from None have "filter (\<lambda>r. rf_request_id r = rid) (tb_rows t) = []"
      by (auto simp: find_refund_def lookup_key_None filter_empty_conv)
    with ok' miss have "c \<and> r = mk (tb_seq t) \<and> t' = insert_row mk t"
      by (auto simp: scalar_one_def key)
    with None d show thesis by (intro created [of d]) (auto simp: mk_def)
  qed
qed

lemma record_refund_inv [step_inv]:
  assumes "ledger_inv t" "record_refund now rid oid amt cur t = Inr (r, c, t')"
  shows "ledger_inv t'"
  using assms
proof (cases rule: record_refund_cases)
  case replayed
  with assms(1) show ?thesis by (auto simp: ledger_inv_def)
next
  case (created d)
  have "keyed rf_request_id rf_id t'"
    using assms(1) created by (auto simp: ledger_inv_def keyed_def find_refund_def lookup_key_None)
  with assms(1) created show ?thesis by (auto simp: ledger_inv_def)
qed

text \<open>The interface the callers use, as a \<open>put\<close> over the call's arguments.\<close>

record refund_args =
  ra_request_id :: string
  ra_transaction_id :: string
  ra_amount :: pyfloat
  ra_currency :: string

definition put_refund ::
  "time \<times> refund_args \<Rightarrow> refund_row table \<Rightarrow> (refund_row \<times> bool \<times> refund_row table) res" where
  "put_refund a t =
     record_refund (fst a) (ra_request_id (snd a)) (ra_transaction_id (snd a))
       (ra_amount (snd a)) (ra_currency (snd a)) t"

lemma find_refund_append:
  "tb_rows t' = tb_rows t @ [r] \<Longrightarrow>
   find_refund k t' = (case find_refund k t of Some x \<Rightarrow> Some x
     | None \<Rightarrow> if rf_request_id r = k then Some r else None)"
  by (simp add: find_refund_def lookup_key_def find_append split: option.splits)

interpretation refund_store: write_once_store put_refund find_refund
  "\<lambda>a. ra_request_id (snd a)" ledger_inv
proof (unfold_locales, goal_cases)
  case (1 t a r c t')
  then show ?case by (auto simp: put_refund_def intro: record_refund_inv)
next
  case (2 t a r c t')
  then show ?case unfolding put_refund_def
    by (cases rule: record_refund_cases) (auto simp: find_refund_append, simp add: find_refund_def)
next
  case (3 t a r c t' k)
  then show ?case unfolding put_refund_def
    by (cases rule: record_refund_cases)
      (auto simp: find_refund_append split: option.splits, simp add: find_refund_def)
next
  case (4 t a r c t')
  then show ?case unfolding put_refund_def
    by (cases rule: record_refund_cases) auto
next
  case (5 t a r c t' r')
  then show ?case unfolding put_refund_def
    by (cases rule: record_refund_cases) auto
qed

lemma refunded_on_record:
  assumes "ledger_inv t" "record_refund now rid oid amt cur t = Inr (r, c, t')"
  shows "refunded_on k t' = refunded_on k t + (if c \<and> k = oid then rf_amount r else 0)"
  using assms by (cases rule: record_refund_cases) (auto simp: refunded_on_def)

section \<open>What the history lists\<close>

lemma sum_groups:
  fixes g :: "'a \<Rightarrow> int"
  assumes "finite X" "f ` set xs \<subseteq> X"
  shows "(\<Sum>c \<in> X. \<Sum>x \<leftarrow> filter (\<lambda>x. f x = c) xs. g x) = (\<Sum>x \<leftarrow> xs. g x)"
  using assms(2)
proof (induction xs)
  case (Cons x xs)
  have "(\<Sum>c \<in> X. \<Sum>y \<leftarrow> filter (\<lambda>y. f y = c) (x # xs). g y) =
      (\<Sum>c \<in> X. (if c = f x then g x else 0) + (\<Sum>y \<leftarrow> filter (\<lambda>y. f y = c) xs. g y))"
    by (rule sum.cong) auto
  also have "\<dots> = g x + (\<Sum>y \<leftarrow> xs. g y)"
    using assms(1) Cons by (simp add: sum.distrib)
  finally show ?case by simp
qed simp

lemma sum_remdups_groups:
  fixes g :: "'a \<Rightarrow> int"
  shows "(\<Sum>c \<leftarrow> remdups (map f xs). \<Sum>x \<leftarrow> filter (\<lambda>x. f x = c) xs. g x) = (\<Sum>x \<leftarrow> xs. g x)"
  using sum_groups [where X = "f ` set xs" and f = f and xs = xs and g = g]
  by (simp add: sum_list_distinct_conv_sum_set)

lemma sum_list_ones: "(\<Sum>x \<leftarrow> xs. (1 :: int)) = int (length xs)"
  by (induction xs) auto

lemma summary_count:
  "fst (summarize_refunds_for_user ords refs u) = int (length (user_refunds ords refs u))"
  using sum_remdups_groups [where f = rf_currency and xs = "user_refunds ords refs u" and g = "\<lambda>_. 1"]
  by (simp add: summarize_refunds_for_user_def Let_def o_def sum_list_ones)

lemma summary_total:
  "map_of (snd (summarize_refunds_for_user ords refs u)) c =
     (if c \<in> rf_currency ` set (user_refunds ords refs u)
      then Some (\<Sum>r \<leftarrow> filter (\<lambda>r. rf_currency r = c) (user_refunds ords refs u). rf_amount r)
      else None)"
proof -
  have "map_of (map (\<lambda>c. (c, h c)) ks) c = (if c \<in> set ks then Some (h c) else None)"
    for ks and h :: "string \<Rightarrow> int"
    by (induction ks) auto
  then show ?thesis by (simp add: summarize_refunds_for_user_def Let_def o_def)
qed

lemma user_refunds_filter:
  assumes "keyed or_order_id or_id ords"
  shows "user_refunds ords refs u =
    filter (\<lambda>r. case lookup_key or_order_id (rf_transaction_id r) ords of
              None \<Rightarrow> False | Some x \<Rightarrow> or_user_id x = u) (tb_rows refs)"
proof -
  have one: "filter (\<lambda>x. or_order_id x = k \<and> or_user_id x = u) (tb_rows ords) =
      (case lookup_key or_order_id k ords of None \<Rightarrow> [] | Some x \<Rightarrow> if or_user_id x = u then [x] else [])" for k
  proof -
    have "filter (\<lambda>x. or_order_id x = k \<and> or_user_id x = u) (tb_rows ords) =
        filter (\<lambda>x. or_user_id x = u) (filter (\<lambda>x. or_order_id x = k) (tb_rows ords))"
      by (simp add: conj_commute)
    also have "\<dots> = (case lookup_key or_order_id k ords of None \<Rightarrow> []
        | Some x \<Rightarrow> if or_user_id x = u then [x] else [])"
    proof (cases "lookup_key or_order_id k ords")
      case None
      then have "filter (\<lambda>x. or_order_id x = k) (tb_rows ords) = []"
        by (auto simp: lookup_key_None filter_empty_conv)
      with None show ?thesis by simp
    next
      case (Some x)
      with assms show ?thesis by (simp add: filter_key_singleton)
    qed
    finally show ?thesis .
  qed
  have "concat (map (\<lambda>r. map (\<lambda>x. r) (case lookup_key or_order_id (rf_transaction_id r) ords of
          None \<Rightarrow> [] | Some x \<Rightarrow> if or_user_id x = u then [x] else [])) rs) =
      filter (\<lambda>r. case lookup_key or_order_id (rf_transaction_id r) ords of
          None \<Rightarrow> False | Some x \<Rightarrow> or_user_id x = u) rs" for rs
    by (induction rs) (auto split: option.splits)
  then show ?thesis by (simp add: user_refunds_def one)
qed

lemma list_refunds_length:
  "list_refunds_for_user ords refs u limit = Inr rs \<Longrightarrow>
   length rs = min (nat limit) (length (user_refunds ords refs u))"
  by (auto simp: list_refunds_for_user_def split: if_splits)

lemma list_refunds_set:
  "list_refunds_for_user ords refs u limit = Inr rs \<Longrightarrow> set rs \<subseteq> set (user_refunds ords refs u)"
  by (auto simp: list_refunds_for_user_def dest: in_set_takeD split: if_splits)

lemma list_refunds_sorted:
  "list_refunds_for_user ords refs u limit = Inr rs \<Longrightarrow> sorted (map newest_first rs)"
  by (auto simp: list_refunds_for_user_def take_map [symmetric] intro!: sorted_wrt_take split: if_splits)

text \<open>A listing as long as the count holds every refund.\<close>

lemma list_refunds_complete:
  assumes "list_refunds_for_user ords refs u limit = Inr rs"
    and "fst (summarize_refunds_for_user ords refs u) \<le> int (length rs)"
  shows "mset rs = mset (user_refunds ords refs u)"
proof -
  have "length (user_refunds ords refs u) \<le> nat limit"
    using assms list_refunds_length [OF assms(1)] by (simp add: summary_count)
  with assms(1) show ?thesis by (auto simp: list_refunds_for_user_def split: if_splits)
qed

text \<open>A listing as long as the count holds every refund on each of the user's orders.\<close>

lemma list_refunds_order:
  assumes "keyed or_order_id or_id ords" "lookup_key or_order_id oid ords = Some ord"
    and "list_refunds_for_user ords refs (or_user_id ord) limit = Inr rs"
    and "summarize_refunds_for_user ords refs (or_user_id ord) = (n, totals)" "n \<le> int (length rs)"
  shows "mset (filter (\<lambda>r. rf_transaction_id r = oid) rs) =
    mset (filter (\<lambda>r. rf_transaction_id r = oid) (tb_rows refs))"
proof -
  have "mset rs = mset (user_refunds ords refs (or_user_id ord))"
    using assms(3-5) by (intro list_refunds_complete) auto
  then have "mset (filter (\<lambda>r. rf_transaction_id r = oid) rs) =
      mset (filter (\<lambda>r. rf_transaction_id r = oid) (user_refunds ords refs (or_user_id ord)))"
    by simp
  also have "filter (\<lambda>r. rf_transaction_id r = oid) (user_refunds ords refs (or_user_id ord)) =
      filter (\<lambda>r. rf_transaction_id r = oid) (tb_rows refs)"
    unfolding user_refunds_filter [OF assms(1)] filter_filter
    by (rule filter_cong) (use assms(2) in auto)
  finally show ?thesis .
qed

lemma list_refunds_total:
  assumes "keyed or_order_id or_id ords" "lookup_key or_order_id oid ords = Some ord"
    and "list_refunds_for_user ords refs (or_user_id ord) limit = Inr rs"
    and "summarize_refunds_for_user ords refs (or_user_id ord) = (n, totals)" "n \<le> int (length rs)"
  shows "(\<Sum>r \<leftarrow> filter (\<lambda>r. rf_transaction_id r = oid) rs. rf_amount r) = refunded_on oid refs"
proof -
  from list_refunds_order [OF assms]
  have "mset (map rf_amount (filter (\<lambda>r. rf_transaction_id r = oid) rs)) =
      mset (map rf_amount (filter (\<lambda>r. rf_transaction_id r = oid) (tb_rows refs)))"
    by simp
  then show ?thesis unfolding refunded_on_def by (metis sum_mset_sum_list)
qed

section \<open>Properties\<close>

text \<open>
  C16. A refund is recorded at most once per \<open>request_id\<close>: after a call succeeded, any later
  call with the same \<open>request_id\<close>, whatever its other arguments and whatever calls came in
  between, returns the row of the first call with \<open>created = False\<close>, and leaves the amounts
  refunded on every order unchanged.
\<close>

theorem refund_replayed:
  assumes "ledger_inv t"
    and "put_refund a t = Inr (r, c, t1)"
    and "put_refund b (run_puts put_refund as t1) = Inr (r', c', t2)"
    and "ra_request_id (snd b) = ra_request_id (snd a)"
  shows "r' = r \<and> \<not> c' \<and> (\<forall>oid. refunded_on oid t2 = refunded_on oid (run_puts put_refund as t1))"
proof -
  have rep: "r' = r \<and> \<not> c'"
    using refund_store.replay [OF assms(1-3)] assms(4) by simp
  have "ledger_inv (run_puts put_refund as t1)"
    using assms(1,2) by (auto intro: refund_store.run_inv refund_store.put_inv)
  with assms(3) rep show ?thesis by (simp add: put_refund_def refunded_on_record)
qed

definition sample_ledger :: "refund_row table" where
  "sample_ledger = \<lparr>tb_rows = [], tb_seq = 1\<rparr>"

definition sample_refund :: "string \<Rightarrow> pyfloat \<Rightarrow> time \<times> refund_args" where
  "sample_refund rid amt = (0, \<lparr>ra_request_id = rid, ra_transaction_id = ''ord-1'',
     ra_amount = amt, ra_currency = ''USD''\<rparr>)"

text \<open>A replay with another amount, after a refund of another claim: the first row comes back.\<close>

theorem refund_replayed_witness:
  "\<exists>r t2. put_refund (sample_refund ''a'' (Fin (Dec 99 0)))
       (run_puts put_refund [sample_refund ''b'' (Fin (Dec 1 0))]
         (case put_refund (sample_refund ''a'' (Fin (Dec 455 (- 1)))) sample_ledger of
            Inr (r, c, t') \<Rightarrow> t' | Inl e \<Rightarrow> sample_ledger)) = Inr (r, False, t2) \<and>
     rf_amount r = 4550 \<and> refunded_on ''ord-1'' t2 = 4650"
proof -
  let ?a = "sample_refund ''a'' (Fin (Dec 455 (- 1)))" and ?b = "sample_refund ''a'' (Fin (Dec 99 0))"
  let ?as = "[sample_refund ''b'' (Fin (Dec 1 0))]"
  have inv: "ledger_inv sample_ledger"
    by (simp add: sample_ledger_def ledger_inv_def keyed_def)
  obtain r c t1 where first: "put_refund ?a sample_ledger = Inr (r, c, t1)"
      and r: "rf_amount r = 4550" and t1: "tb_rows t1 = [r]" "rf_request_id r = ''a''" "rf_transaction_id r = ''ord-1''"
    by (simp add: put_refund_def record_refund_def sample_refund_def sample_ledger_def
        dec_of_float_def numeric_12_2_def cents_of_def max_numeric_def string_3_def
        insert_on_conflict_def scalar_one_def Let_def insert_row_def)
  obtain r' t2 where later: "put_refund ?b (run_puts put_refund ?as t1) = Inr (r', False, t2)"
      and sum: "refunded_on ''ord-1'' (run_puts put_refund ?as t1) = 4650"
    using t1 r by (simp add: put_refund_def record_refund_def sample_refund_def refunded_on_def
        dec_of_float_def numeric_12_2_def cents_of_def max_numeric_def string_3_def
        insert_on_conflict_def scalar_one_def Let_def insert_row_def)
  have "r' = r \<and> \<not> False \<and> (\<forall>oid. refunded_on oid t2 = refunded_on oid (run_puts put_refund ?as t1))"
    by (rule refund_replayed [OF inv first later]) (simp add: sample_refund_def)
  with first later r sum show ?thesis by auto
qed

text \<open>
  The history a user is judged by: the count covers every refund on the user's orders, the
  totals are per currency, the listing is a prefix of the refunds sorted newest first, and when
  the count does not exceed the length of the listing, the listing holds every refund on each of
  the user's orders, so that it adds up to exactly what the ledger has refunded on the order.
\<close>

theorem refund_history_complete:
  assumes "keyed or_order_id or_id ords"
    and "lookup_key or_order_id oid ords = Some ord"
    and "list_refunds_for_user ords refs (or_user_id ord) limit = Inr rs"
    and "summarize_refunds_for_user ords refs (or_user_id ord) = (n, totals)"
  shows "n = int (length (user_refunds ords refs (or_user_id ord))) \<and>
    sorted (map newest_first rs) \<and> int (length rs) \<le> max 0 limit \<and>
    (n \<le> int (length rs) \<longrightarrow>
       (\<Sum>r \<leftarrow> filter (\<lambda>r. rf_transaction_id r = oid) rs. rf_amount r) = refunded_on oid refs)"
proof (intro conjI impI)
  show n: "n = int (length (user_refunds ords refs (or_user_id ord)))"
    using summary_count [of ords refs "or_user_id ord"] assms(4) by simp
  show "sorted (map newest_first rs)" by (rule list_refunds_sorted [OF assms(3)])
  show "int (length rs) \<le> max 0 limit" using list_refunds_length [OF assms(3)] by linarith
  assume "n \<le> int (length rs)"
  then show "(\<Sum>r \<leftarrow> filter (\<lambda>r. rf_transaction_id r = oid) rs. rf_amount r) = refunded_on oid refs"
    using assms by (simp add: list_refunds_total)
qed

definition sample_orders :: "order_row table" where
  "sample_orders = \<lparr>tb_rows = [
     \<lparr>or_id = 1, or_order_id = ''ord-1'', or_user_id = ''user-1'', or_amount = 10000,
      or_currency = ''USD'', or_created_at = 0\<rparr>,
     \<lparr>or_id = 2, or_order_id = ''ord-2'', or_user_id = ''user-1'', or_amount = 5000,
      or_currency = ''EUR'', or_created_at = 0\<rparr>], tb_seq = 3\<rparr>"

definition sample_history :: "refund_row table" where
  "sample_history = \<lparr>tb_rows = [
     \<lparr>rf_id = 1, rf_request_id = ''a'', rf_transaction_id = ''ord-1'', rf_amount = 4550,
      rf_currency = ''USD'', rf_created_at = 5\<rparr>,
     \<lparr>rf_id = 2, rf_request_id = ''b'', rf_transaction_id = ''ord-2'', rf_amount = 100,
      rf_currency = ''EUR'', rf_created_at = 7\<rparr>], tb_seq = 3\<rparr>"

theorem refund_history_complete_witness:
  "\<exists>rs n totals ord. list_refunds_for_user sample_orders sample_history ''user-1'' 100 = Inr rs \<and>
     summarize_refunds_for_user sample_orders sample_history ''user-1'' = (n, totals) \<and>
     lookup_key or_order_id ''ord-1'' sample_orders = Some ord \<and> n = 2 \<and> map rf_request_id rs = [''b'', ''a''] \<and>
     (\<Sum>r \<leftarrow> filter (\<lambda>r. rf_transaction_id r = ''ord-1'') rs. rf_amount r) = refunded_on ''ord-1'' sample_history"
proof -
  obtain ord where ord: "lookup_key or_order_id ''ord-1'' sample_orders = Some ord" "or_user_id ord = ''user-1''"
    by (simp add: lookup_key_def sample_orders_def)
  have k: "keyed or_order_id or_id sample_orders"
    by (simp add: keyed_def sample_orders_def)
  obtain rs where rs: "list_refunds_for_user sample_orders sample_history (or_user_id ord) 100 = Inr rs"
      "map rf_request_id rs = [''b'', ''a'']"
    unfolding ord(2)
    by (simp add: list_refunds_for_user_def user_refunds_def sample_orders_def sample_history_def newest_first_def)
  obtain n totals where n: "summarize_refunds_for_user sample_orders sample_history (or_user_id ord) = (n, totals)" "n = 2"
    unfolding ord(2)
    by (simp add: summarize_refunds_for_user_def user_refunds_def sample_orders_def sample_history_def)
  from rs(2) have "length rs = 2" by (metis length_map length_Cons list.size(3) One_nat_def Suc_1)
  with refund_history_complete [OF k ord(1) rs(1) n(1)] n ord rs show ?thesis by auto
qed

end
