(* ===== verification/Orders.thy ===== *)
theory Orders
  imports Store_Interface
begin

text \<open>
  Database access for \<open>orders\<close> and \<open>transactions\<close>
  (\<open>src/core/repositories/order_repository.py\<close>, \<open>transaction_repository.py\<close>) and the sample
  orders of \<open>scripts/seed_orders.py\<close>. The order table is a second instance of the
  write-once store: a seed never overwrites.
\<close>

section \<open>order_repository\<close>

definition get_order_row :: "order_row table \<Rightarrow> string \<Rightarrow> order_row option res" where
  "get_order_row t order_id = scalar_one_or_none (filter (\<lambda>r. or_order_id r = order_id) (tb_rows t))"

text \<open>An entry to insert; \<open>None\<close> leaves \<open>created_at\<close> to the column's default.\<close>

record order_entry =
  en_order_id :: string
  en_user_id :: string
  en_amount :: pyfloat
  en_currency :: string
  en_created_at :: "time option"

text \<open>
  The conversion of the entries comes first and raises for the whole statement; the one
  \<open>INSERT ... ON CONFLICT DO NOTHING\<close> then takes the rows in order.
\<close>

definition order_values :: "order_entry \<Rightarrow> (order_entry \<times> int) res" where
  "order_values e =
     bindR (dec_of_float (en_amount e)) (\<lambda>d.
     bindR (numeric_12_2 d) (\<lambda>c.
     bindR (string_3 (en_currency e)) (\<lambda>_. Inr (e, c))))"

definition order_row_of :: "time \<Rightarrow> order_entry \<times> int \<Rightarrow> int \<Rightarrow> order_row" where
  "order_row_of now ec i =
     \<lparr>or_id = i, or_order_id = en_order_id (fst ec), or_user_id = en_user_id (fst ec),
      or_amount = snd ec, or_currency = en_currency (fst ec),
      or_created_at = (case en_created_at (fst ec) of None \<Rightarrow> now | Some x \<Rightarrow> x)\<rparr>"

fun insert_order_rows ::
  "time \<Rightarrow> (order_entry \<times> int) list \<Rightarrow> order_row table \<Rightarrow> int list \<times> order_row table" where
  "insert_order_rows now [] t = ([], t)"
| "insert_order_rows now (ec # ecs) t =
     (let (i, t') = insert_on_conflict or_order_id (order_row_of now ec) t;
          (is, t'') = insert_order_rows now ecs t'
      in (case i of None \<Rightarrow> is | Some k \<Rightarrow> k # is, t''))"

definition insert_orders_if_absent ::
  "time \<Rightarrow> order_entry list \<Rightarrow> order_row table \<Rightarrow> (int \<times> order_row table) res" where
  "insert_orders_if_absent now orders t =
     (if orders = [] then Inr (0, t)
      else bindR (mapR order_values orders) (\<lambda>vals.
           let (inserted, t') = insert_order_rows now vals t
           in Inr (int (length inserted), t')))"

definition orders_inv :: "order_row table \<Rightarrow> bool" where
  "orders_inv t \<longleftrightarrow>
     keyed or_order_id or_id t \<and>
     (\<forall>r \<in> set (tb_rows t). \<bar>or_amount r\<bar> < max_numeric \<and> length (or_currency r) \<le> 3)"

definition find_order :: "string \<Rightarrow> order_row table \<Rightarrow> order_row option" where
  "find_order order_id t = lookup_key or_order_id order_id t"

lemma orders_inv_keyed [simp, dest]: "orders_inv t \<Longrightarrow> keyed or_order_id or_id t"
  by (simp add: orders_inv_def)

lemma get_order_row_find: "orders_inv t \<Longrightarrow> get_order_row t oid = Inr (find_order oid t)"
  unfolding get_order_row_def find_order_def by (metis orders_inv_keyed scalar_one_or_none_keyed)

text \<open>One entry as a \<open>put\<close>.\<close>

definition put_order ::
  "time \<times> order_entry \<times> int \<Rightarrow> order_row table \<Rightarrow> (order_row \<times> bool \<times> order_row table) res" where
  "put_order a t =
     (let (i, t') = insert_on_conflict or_order_id (order_row_of (fst a) (snd a)) t
      in case find_order (en_order_id (fst (snd a))) t' of
           None \<Rightarrow> raise_exn ''NoResultFound'' | Some r \<Rightarrow> Inr (r, i \<noteq> None, t'))"

lemma order_row_of_sel [simp]:
  "or_order_id (order_row_of now ec i) = en_order_id (fst ec)" "or_id (order_row_of now ec i) = i"
  by (simp_all add: order_row_of_def)

lemma put_order_cases:
  assumes "put_order a t = Inr (r, c, t')"
  obtains
    (kept) "find_order (en_order_id (fst (snd a))) t = Some r" "\<not> c" "t' = t\<lparr>tb_seq := tb_seq t + 1\<rparr>"
  | (fresh) "find_order (en_order_id (fst (snd a))) t = None" "c"
      "r = order_row_of (fst a) (snd a) (tb_seq t)" "t' = insert_row (order_row_of (fst a) (snd a)) t"
proof (cases "find_order (en_order_id (fst (snd a))) t")
  case (Some x)
  then have "insert_on_conflict or_order_id (order_row_of (fst a) (snd a)) t = (None, t\<lparr>tb_seq := tb_seq t + 1\<rparr>)"
    by (simp add: insert_on_conflict_hit find_order_def)
  with assms Some show thesis by (intro kept) (auto simp: put_order_def find_order_def)
next
  case None
  then have "insert_on_conflict or_order_id (order_row_of (fst a) (snd a)) t =
      (Some (tb_seq t), insert_row (order_row_of (fst a) (snd a)) t)"
    by (simp add: insert_on_conflict_miss find_order_def)
  with assms None show thesis
    by (intro fresh) (auto simp: put_order_def find_order_def lookup_key_insert_row)
qed

text \<open>
  The column bounds of a row are those of its entry, so the store's invariant is the keys'.
\<close>

interpretation order_store: write_once_store put_order find_order
  "\<lambda>a. en_order_id (fst (snd a))" "keyed or_order_id or_id"
proof (unfold_locales, goal_cases)
  case (1 t a r c t')
  from 1(2) show ?case
  proof (cases rule: put_order_cases)
    case kept
    with 1(1) show ?thesis by simp
  next
    case fresh
    have "keyed or_order_id or_id (insert_row (order_row_of (fst a) (snd a)) t)"
      by (rule keyed_insert_row [OF 1(1)]) (use fresh(1) in \<open>auto simp: find_order_def lookup_key_None\<close>)
    with fresh show ?thesis by simp
  qed
next
  case (2 t a r c t')
  from 2(2) show ?case
    by (cases rule: put_order_cases) (auto simp: find_order_def lookup_key_insert_row)
next
  case (3 t a r c t' k)
  from 3(2) show ?case
    using 3(3) by (cases rule: put_order_cases)
      (auto simp: find_order_def lookup_key_insert_row split: option.splits)
next
  case (4 t a r c t')
  from 4(2) show ?case by (cases rule: put_order_cases) auto
next
  case (5 t a r c t' r')
  from 5(2) show ?case using 5(3) by (cases rule: put_order_cases) auto
qed

lemma put_order_some: "\<exists>r c. put_order (now, ec) t = Inr (r, c, snd (insert_on_conflict or_order_id (order_row_of now ec) t))
    \<and> (c \<longleftrightarrow> fst (insert_on_conflict or_order_id (order_row_of now ec) t) \<noteq> None)"
proof (cases "find_order (en_order_id (fst ec)) t")
  case (Some x)
  then have "insert_on_conflict or_order_id (order_row_of now ec) t = (None, t\<lparr>tb_seq := tb_seq t + 1\<rparr>)"
    by (simp add: insert_on_conflict_hit find_order_def)
  with Some show ?thesis by (auto simp: put_order_def find_order_def)
next
  case None
  then have "insert_on_conflict or_order_id (order_row_of now ec) t =
      (Some (tb_seq t), insert_row (order_row_of now ec) t)"
    by (simp add: insert_on_conflict_miss find_order_def)
  with None show ?thesis
    by (intro exI [of _ "order_row_of now ec (tb_seq t)"] exI [of _ True])
      (simp add: put_order_def find_order_def lookup_key_insert_row)
qed

text \<open>The statement is a run of puts.\<close>

lemma insert_order_rows_puts:
  "snd (insert_order_rows now ecs t) = run_puts put_order (map (Pair now) ecs) t"
proof (induction ecs arbitrary: t)
  case (Cons ec ecs)
  from put_order_some [of now ec t] obtain r c where
    "put_order (now, ec) t = Inr (r, c, snd (insert_on_conflict or_order_id (order_row_of now ec) t))"
    by blast
  with Cons [of "snd (insert_on_conflict or_order_id (order_row_of now ec) t)"] show ?case
    by (simp add: Let_def case_prod_beta)
qed simp

lemma insert_order_rows_count:
  "length (tb_rows (snd (insert_order_rows now ecs t))) =
   length (tb_rows t) + length (fst (insert_order_rows now ecs t))"
proof (induction ecs arbitrary: t)
  case (Cons ec ecs)
  show ?case
    using Cons [of "snd (insert_on_conflict or_order_id (order_row_of now ec) t)"]
    by (auto simp: case_prod_beta insert_on_conflict_def split: option.splits)
qed simp

lemma insert_order_rows_covers:
  "ec \<in> set ecs \<Longrightarrow> keyed or_order_id or_id t \<Longrightarrow>
   find_order (en_order_id (fst ec)) (snd (insert_order_rows now ecs t)) \<noteq> None"
proof (induction ecs arbitrary: t)
  case (Cons x ecs)
  obtain r c t' where p: "put_order (now, x) t = Inr (r, c, t')"
    using put_order_some [of now x t] by blast
  with Cons.prems have k: "keyed or_order_id or_id t'" "find_order (en_order_id (fst x)) t' = Some r"
    using order_store.put_inv order_store.put_get [of t "(now, x)"] by auto
  have step: "snd (insert_order_rows now (x # ecs) t) = snd (insert_order_rows now ecs t')"
    using p by (simp only: insert_order_rows_puts list.map run_puts.simps) simp
  show ?case
  proof (cases "ec \<in> set ecs")
    case True
    with Cons.IH k step show ?thesis by metis
  next
    case False
    with Cons.prems have "ec = x" by simp
    with k show ?thesis
      using order_store.run_keeps [OF k] step insert_order_rows_puts by (metis option.distinct(1))
  qed
qed simp

section \<open>transaction_repository\<close>

definition get_recent_transactions :: "transaction_row list \<Rightarrow> int \<Rightarrow> transaction_row list res" where
  "get_recent_transactions rows limit =
     (if limit < 0 then raise_exn ''DBAPIError''
      else Inr (take (nat limit) (sort_key (\<lambda>r. - tx_updated_at r) rows)))"

lemma recent_transactions_length:
  "get_recent_transactions rows limit = Inr rs \<Longrightarrow> length rs = min (nat limit) (length rows)"
  by (auto simp: get_recent_transactions_def split: if_splits)

lemma recent_transactions_sorted:
  "get_recent_transactions rows limit = Inr rs \<Longrightarrow> sorted (map (\<lambda>r. - tx_updated_at r) rs)"
  by (auto simp: get_recent_transactions_def take_map [symmetric] intro!: sorted_wrt_take split: if_splits)

section \<open>seed_orders\<close>

definition SAMPLE_ORDERS :: "order_entry list" where
  "SAMPLE_ORDERS =
     (let e = (\<lambda>o' u a c. \<lparr>en_order_id = o', en_user_id = u, en_amount = Fin a, en_currency = c, en_created_at = None\<rparr>)
      in [e ''ord-1001'' ''user-1'' (Dec 455 (- 1)) ''USD'',
          e ''ord-1002'' ''user-1'' (Dec 1200 (- 1)) ''USD'',
          e ''ord-1003'' ''user-1'' (Dec 1999 (- 2)) ''EUR'',
          e ''ord-2001'' ''user-2'' (Dec 8990 (- 1)) ''USD'',
          e ''ord-2002'' ''user-2'' (Dec 350 (- 1)) ''GBP'',
          e ''ord-3001'' ''user-3'' (Dec 25000 (- 1)) ''EUR''])"

definition seed_run :: "time \<Rightarrow> order_row table \<Rightarrow> (int \<times> order_row table) res" where
  "seed_run now t = insert_orders_if_absent now SAMPLE_ORDERS t"

section \<open>Properties\<close>

text \<open>
  Seeding orders: every row on file keeps its place and contents, the returned number is the
  number of rows added, every requested order is on file afterwards, and running the same call
  again at any later time adds nothing.
\<close>

theorem seed_never_overwrites:
  assumes "keyed or_order_id or_id t" and "insert_orders_if_absent now orders t = Inr (n, t')"
  shows "(\<forall>oid r. find_order oid t = Some r \<longrightarrow> find_order oid t' = Some r) \<and>
    int (length (tb_rows t')) = int (length (tb_rows t)) + n \<and>
    (\<forall>e \<in> set orders. find_order (en_order_id e) t' \<noteq> None) \<and>
    (\<forall>later. \<exists>t''. insert_orders_if_absent later orders t' = Inr (0, t'') \<and> tb_rows t'' = tb_rows t')"
proof (cases "orders = []")
  case True
  with assms(2) show ?thesis by (simp add: insert_orders_if_absent_def)
next
  case False
  with assms(2) obtain vals where vals: "mapR order_values orders = Inr vals"
      and t': "t' = snd (insert_order_rows now vals t)" "n = int (length (fst (insert_order_rows now vals t)))"
    by (auto simp: insert_orders_if_absent_def res_simps case_prod_beta)
  have fst_vals: "map fst vals = orders"
    using vals by (induction orders arbitrary: vals) (auto simp: res_simps order_values_def)
  have keep: "find_order oid t' = Some r" if "find_order oid t = Some r" for oid r
    using order_store.run_keeps [OF assms(1) that] by (simp add: t' insert_order_rows_puts)
  have k': "keyed or_order_id or_id t'"
    using order_store.run_inv [OF assms(1)] by (simp add: t' insert_order_rows_puts)
  have cover: "find_order (en_order_id (fst ec)) t' \<noteq> None" if "ec \<in> set vals" for ec
    using insert_order_rows_covers [OF that assms(1)] by (simp add: t')
  have again: "fst (insert_order_rows later ecs u) = [] \<and> tb_rows (snd (insert_order_rows later ecs u)) = tb_rows u"
    if "\<forall>ec \<in> set ecs. find_order (en_order_id (fst ec)) u \<noteq> None" for later ecs u
    using that
  proof (induction ecs arbitrary: u)
    case (Cons ec ecs)
    then obtain r where "find_order (en_order_id (fst ec)) u = Some r" by auto
    then have "insert_on_conflict or_order_id (order_row_of later ec) u = (None, u\<lparr>tb_seq := tb_seq u + 1\<rparr>)"
      by (simp add: insert_on_conflict_hit find_order_def)
    with Cons show ?case by (auto simp: case_prod_beta find_order_def)
  qed simp
  have "\<exists>t''. insert_orders_if_absent later orders t' = Inr (0, t'') \<and> tb_rows t'' = tb_rows t'" for later
    using again [of vals t' later] cover vals False
    by (auto simp: insert_orders_if_absent_def case_prod_beta)
  moreover have "int (length (tb_rows t')) = int (length (tb_rows t)) + n"
    using insert_order_rows_count [of now vals t] by (simp add: t')
  ultimately show ?thesis
    using keep cover fst_vals by (metis in_set_conv_nth length_map nth_map nth_mem)
qed

theorem seed_never_overwrites_witness:
  "\<exists>n t. seed_run 0 \<lparr>tb_rows = [], tb_seq = 1\<rparr> = Inr (n, t) \<and> n = 6 \<and>
     (\<exists>t''. insert_orders_if_absent 9 SAMPLE_ORDERS t = Inr (0, t'') \<and> tb_rows t'' = tb_rows t)"
proof -
  have k: "keyed or_order_id or_id \<lparr>tb_rows = [], tb_seq = 1\<rparr>" by (simp add: keyed_def)
  obtain t where run: "insert_orders_if_absent 0 SAMPLE_ORDERS \<lparr>tb_rows = [], tb_seq = 1\<rparr> = Inr (6, t)"
    by (simp add: insert_orders_if_absent_def SAMPLE_ORDERS_def order_values_def dec_of_float_def
        numeric_12_2_def cents_of_def max_numeric_def string_3_def insert_on_conflict_def
        order_row_of_def insert_row_def)
  from seed_never_overwrites [OF k run] run show ?thesis by (auto simp: seed_run_def)
qed

end
