(* ===== verification/Evidence_Check.thy ===== *)
theory Evidence_Check
  imports Refunds Orders
begin

text \<open>
  The deterministic evidence check (\<open>src/core/services/evidence_check.py\<close>): a refund claim
  against the results of the \<open>get_order\<close> and \<open>get_refund_history\<close> tools. The definitions
  take the tools' results as JSON, with the exceptions a malformed result raises; the lemmas say
  which facts a passed check establishes, and that on well-formed results the check decides an
  integer specification in cents.
\<close>

section \<open>Money\<close>

definition CENT :: decimal where
  "CENT = Dec 1 (- 2)"

definition money_dec :: "decimal \<Rightarrow> decimal res" where
  "money_dec d = quantize_cent d"

definition money :: "json \<Rightarrow> decimal res" where
  "money v = bindR (json_decimal v) money_dec"

definition money_float :: "pyfloat \<Rightarrow> decimal res" where
  "money_float f = bindR (dec_of_float f) money_dec"

definition zero_money :: decimal where
  "zero_money = Dec 0 (- 2)"

section \<open>RefundClaim and EvidenceCheck\<close>

record refund_claim =
  cl_request_id :: string
  cl_user_id :: string
  cl_order_id :: string
  cl_amount :: decimal
  cl_currency :: string

record evidence_check =
  ec_order_id :: string
  ec_failures :: "string list"
  ec_order :: "dict option"
  ec_already_refunded :: "decimal option"
  ec_amount_usd :: "decimal option"

definition passed :: "evidence_check \<Rightarrow> bool" where
  "passed ec = (ec_failures ec = [])"

definition failed_check :: "string \<Rightarrow> string \<Rightarrow> evidence_check" where
  "failed_check order_id failure =
     \<lparr>ec_order_id = order_id, ec_failures = [failure], ec_order = None,
      ec_already_refunded = None, ec_amount_usd = None\<rparr>"

definition str_or_none :: "decimal option \<Rightarrow> json" where
  "str_or_none v = (case v of None \<Rightarrow> JNull | Some d \<Rightarrow> JStr (dec_str d))"

text \<open>\<open>self.order or {}\<close>: an empty mapping counts as no order.\<close>

definition order_of :: "evidence_check \<Rightarrow> dict" where
  "order_of ec = (case ec_order ec of None \<Rightarrow> [] | Some d \<Rightarrow> d)"

definition to_trail :: "evidence_check \<Rightarrow> dict res" where
  "to_trail ec =
     (let rest = (\<lambda>order_amount order_currency.
            [(''status'', JStr (if passed ec then ''passed'' else ''failed'')),
             (''order_id'', JStr (ec_order_id ec)),
             (''order_amount'', order_amount),
             (''order_currency'', order_currency),
             (''already_refunded'', str_or_none (ec_already_refunded ec)),
             (''amount_usd'', str_or_none (ec_amount_usd ec)),
             (''failures'', JList (map JStr (ec_failures ec)))])
      in if order_of ec = [] then Inr (rest JNull JNull)
         else bindR (dindex (order_of ec) ''amount'') (\<lambda>a.
              bindR (money a) (\<lambda>m.
              bindR (dindex (order_of ec) ''currency'') (\<lambda>c. Inr (rest (JStr (dec_str m)) c)))))"

definition summary_for_judges :: "evidence_check \<Rightarrow> dict res" where
  "summary_for_judges ec =
     (let order = order_of ec; currency = py_str (dget_or order ''currency'' (JStr ''''));
          rest = (\<lambda>order_amount.
            [(''order_verified'', JBool (passed ec)),
             (''order_date'', dget order ''created_at''),
             (''order_amount'', order_amount),
             (''already_refunded_on_order'',
                case ec_already_refunded ec of None \<Rightarrow> JNull
                | Some d \<Rightarrow> JStr (dec_str d @ '' '' @ currency))])
      in if order = [] then Inr (rest JNull)
         else bindR (dindex order ''amount'') (\<lambda>a.
              bindR (money a) (\<lambda>m. Inr (rest (JStr (dec_str m @ '' '' @ currency))))))"

section \<open>Previous refunds on the order\<close>

definition incomplete_history :: "nat \<Rightarrow> int \<Rightarrow> string" where
  "incomplete_history listed refund_count =
     ''Refund history is incomplete ('' @ show_nat listed @ '' of '' @ show_int refund_count @
     '' listed); previous refunds can't be totaled.''"

definition mixed_currency :: "refund_claim \<Rightarrow> json \<Rightarrow> string" where
  "mixed_currency claim cur =
     ''Order '' @ cl_order_id claim @ '' has a previous refund in '' @ py_str cur @
     ''; totals can't be compared.''"

text \<open>The loop over the listed refunds, with the running total.\<close>

fun sum_previous ::
  "refund_claim \<Rightarrow> string \<Rightarrow> json list \<Rightarrow> decimal \<Rightarrow> (decimal option \<times> string list) res" where
  "sum_previous claim order_currency [] acc = Inr (Some acc, [])"
| "sum_previous claim order_currency (refund # refunds) acc =
     bindR (as_dict refund) (\<lambda>r.
       if dget r ''order_id'' \<noteq> JStr (cl_order_id claim) \<or>
          dget r ''request_id'' = JStr (cl_request_id claim)
       then sum_previous claim order_currency refunds acc
       else if dget r ''currency'' \<noteq> JStr order_currency
       then Inr (None, [mixed_currency claim (dget r ''currency'')])
       else bindR (dindex r ''amount'') (\<lambda>a.
            bindR (money a) (\<lambda>m. sum_previous claim order_currency refunds (dec_add acc m))))"

definition previous_refunds ::
  "refund_claim \<Rightarrow> string \<Rightarrow> dict \<Rightarrow> (decimal option \<times> string list) res" where
  "previous_refunds claim order_currency history =
     bindR (py_list (dget_or history ''refunds'' (JList []))) (\<lambda>refunds.
     bindR (py_int (dget_or history ''refund_count'' (JInt (int (length refunds))))) (\<lambda>refund_count.
       if int (length refunds) < refund_count
       then Inr (None, [incomplete_history (length refunds) refund_count])
       else sum_previous claim order_currency refunds zero_money))"

section \<open>check_refund_evidence\<close>

definition exceeds_remaining :: "refund_claim \<Rightarrow> decimal \<Rightarrow> decimal \<Rightarrow> string" where
  "exceeds_remaining claim amount remaining =
     ''Refund '' @ dec_str amount @ '' '' @ cl_currency claim @
     '' exceeds what remains refundable on order '' @ cl_order_id claim @ '' ('' @
     dec_str remaining @ '' '' @ cl_currency claim @ '').''"

definition exceeds_threshold :: "decimal \<Rightarrow> decimal \<Rightarrow> string" where
  "exceeds_threshold amount_usd threshold =
     ''Refund of '' @ dec_str amount_usd @ '' USD exceeds the '' @ dec_str threshold @
     '' USD limit for automatic approval.''"

text \<open>The order's owner, then its currency and what remains of it.\<close>

definition owner_failures :: "refund_claim \<Rightarrow> dict \<Rightarrow> string list" where
  "owner_failures claim order =
     (if dget order ''user_id'' \<noteq> JStr (cl_user_id claim)
      then [''Order '' @ cl_order_id claim @ '' does not belong to the claiming user.''] else [])"

definition balance_failures ::
  "refund_claim \<Rightarrow> decimal \<Rightarrow> dict \<Rightarrow> dict \<Rightarrow> (decimal option \<times> string list) res" where
  "balance_failures claim amount order history =
     (if dget order ''currency'' \<noteq> JStr (cl_currency claim)
      then Inr (None, [''Claim currency '' @ cl_currency claim @
             '' does not match the order's currency '' @ py_str (dget order ''currency'') @ ''.''])
      else bindR (previous_refunds claim (py_str (dget order ''currency'')) history) (\<lambda>(already, fs).
           case already of
             None \<Rightarrow> Inr (None, fs)
           | Some already_refunded \<Rightarrow>
               bindR (dindex order ''amount'') (\<lambda>a.
               bindR (money a) (\<lambda>m.
                 let remaining = dec_max (dec_sub m already_refunded) zero_money
                 in Inr (Some already_refunded,
                         fs @ (if dec_less remaining amount
                               then [exceeds_remaining claim amount remaining] else []))))))"

definition threshold_failures ::
  "(string \<times> pyfloat) list \<Rightarrow> pyfloat \<Rightarrow> refund_claim \<Rightarrow> decimal
   \<Rightarrow> (decimal option \<times> string list) res" where
  "threshold_failures fx_rates_to_usd human_review_threshold_usd claim amount =
     (case map_of fx_rates_to_usd (cl_currency claim) of
        None \<Rightarrow> Inr (None, [''No exchange rate to USD configured for '' @ cl_currency claim @ ''.''])
      | Some rate \<Rightarrow>
          bindR (dec_of_float rate) (\<lambda>rd.
          bindR (money_dec (dec_mul amount rd)) (\<lambda>amount_usd.
          bindR (money_float human_review_threshold_usd) (\<lambda>threshold.
            Inr (Some amount_usd,
                 if dec_less threshold amount_usd
                 then [exceeds_threshold amount_usd threshold] else [])))))"

definition check_refund_evidence ::
  "(string \<times> pyfloat) list \<Rightarrow> pyfloat \<Rightarrow> refund_claim \<Rightarrow> dict \<Rightarrow> dict \<Rightarrow> evidence_check res" where
  "check_refund_evidence fx_rates_to_usd human_review_threshold_usd claim order_result refund_history =
     (if dget order_result ''status'' \<noteq> JStr ''found''
      then Inr (failed_check (cl_order_id claim)
                  (''Order '' @ cl_order_id claim @ '' does not exist.''))
      else bindR (dindex order_result ''order'') (\<lambda>o'.
           bindR (money_dec (cl_amount claim)) (\<lambda>amount.
           bindR (as_dict o') (\<lambda>order.
           bindR (balance_failures claim amount order refund_history) (\<lambda>(already, fs2).
           bindR (threshold_failures fx_rates_to_usd human_review_threshold_usd claim amount) (\<lambda>(usd, fs3).
             Inr \<lparr>ec_order_id = cl_order_id claim,
                  ec_failures = owner_failures claim order @ fs2 @ fs3,
                  ec_order = Some order, ec_already_refunded = already, ec_amount_usd = usd\<rparr>))))))"

section \<open>What a passed check establishes\<close>

lemma money_dec_Inr [res_simps]:
  "money_dec d = Inr q \<longleftrightarrow> q = Dec (cents_of d) (- 2) \<and> \<bar>cents_of d\<bar> < max_coef"
  by (auto simp: money_dec_def quantize_cent_def Let_def)

lemma money_Inr [res_simps]:
  "money v = Inr q \<longleftrightarrow> (\<exists>d. json_decimal v = Inr d \<and> q = Dec (cents_of d) (- 2) \<and> \<bar>cents_of d\<bar> < max_coef)"
  by (auto simp: money_def res_simps)

lemma check_passed_cases:
  assumes "check_refund_evidence fx limit claim ores hist = Inr ec" "passed ec"
  obtains order amount already usd where
    "dget ores ''status'' = JStr ''found''" "dget ores ''order'' = JObj order"
    "dget order ''user_id'' = JStr (cl_user_id claim)"
    "dget order ''currency'' = JStr (cl_currency claim)"
    "amount = Dec (cents_of (cl_amount claim)) (- 2)" "\<bar>cents_of (cl_amount claim)\<bar> < max_coef"
    "balance_failures claim amount order hist = Inr (Some already, [])"
    "threshold_failures fx limit claim amount = Inr (Some usd, [])"
    "ec = \<lparr>ec_order_id = cl_order_id claim, ec_failures = [], ec_order = Some order,
           ec_already_refunded = Some already, ec_amount_usd = Some usd\<rparr>"
proof -
  from assms obtain order amount a fs2 u fs3 where *:
      "dget ores ''status'' = JStr ''found''" "dindex ores ''order'' = Inr (JObj order)"
      "money_dec (cl_amount claim) = Inr amount"
      "balance_failures claim amount order hist = Inr (a, fs2)"
      "threshold_failures fx limit claim amount = Inr (u, fs3)"
      "ec = \<lparr>ec_order_id = cl_order_id claim, ec_failures = owner_failures claim order @ fs2 @ fs3,
             ec_order = Some order, ec_already_refunded = a, ec_amount_usd = u\<rparr>"
    by (auto simp: check_refund_evidence_def res_simps failed_check_def passed_def split: if_splits)
  with assms(2) have fs: "owner_failures claim order = []" "fs2 = []" "fs3 = []"
    by (auto simp: passed_def)
  have cur: "dget order ''currency'' = JStr (cl_currency claim)"
    using *(4) fs(2) by (auto simp: balance_failures_def split: if_splits)
  have some: "sum_previous claim c rs t = Inr (None, []) \<Longrightarrow> False" for c rs t
    by (induction rs arbitrary: t) (auto simp: res_simps split: if_splits)
  have "a \<noteq> None"
    using *(4) fs(2) cur some
    by (auto simp: balance_failures_def previous_refunds_def res_simps Let_def split: if_splits option.splits)
  moreover have "u \<noteq> None"
    using *(5) fs(3) by (auto simp: threshold_failures_def res_simps split: option.splits)
  ultimately obtain already usd where "a = Some already" "u = Some usd" by blast
  moreover have "dget order ''user_id'' = JStr (cl_user_id claim)"
    using fs(1) by (auto simp: owner_failures_def split: if_splits)
  moreover have "dget ores ''order'' = JObj order"
    using *(2) by (auto simp: dindex_def dget_def split: option.splits)
  ultimately show thesis
    using * fs cur by (intro that [of order amount already usd]) (auto simp: res_simps)
qed

text \<open>A failed check never reports an order-level pass: \<open>passed\<close> needs a found order.\<close>

lemma passed_needs_order:
  "check_refund_evidence fx limit claim ores hist = Inr ec \<Longrightarrow> passed ec \<Longrightarrow>
   dget ores ''status'' = JStr ''found'' \<and> ec_order ec \<noteq> None"
  by (erule check_passed_cases) auto

section \<open>The check on well-formed results\<close>

text \<open>
  One listed refund as the history tool encodes it, and the cents of other claims on an order.
\<close>

record listed_refund =
  lr_request_id :: string
  lr_order_id :: string
  lr_cents :: int
  lr_currency :: string
  lr_created_at :: string

definition listed_json :: "listed_refund \<Rightarrow> json" where
  "listed_json r = JObj
     [(''request_id'', JStr (lr_request_id r)), (''order_id'', JStr (lr_order_id r)),
      (''amount'', JFloat (float_of_cents (lr_cents r))), (''currency'', JStr (lr_currency r)),
      (''created_at'', JStr (lr_created_at r))]"

definition counts :: "refund_claim \<Rightarrow> listed_refund \<Rightarrow> bool" where
  "counts claim r \<longleftrightarrow> lr_order_id r = cl_order_id claim \<and> lr_request_id r \<noteq> cl_request_id claim"

definition others_cents :: "refund_claim \<Rightarrow> listed_refund list \<Rightarrow> int" where
  "others_cents claim rs = (\<Sum>r \<leftarrow> filter (counts claim) rs. lr_cents r)"

lemma money_cents: "\<bar>c\<bar> < max_coef \<Longrightarrow> money (JFloat (float_of_cents c)) = Inr (Dec c (- 2))"
  using dec_of_float_of_cents [of c] by (auto simp: money_def json_decimal_def res_simps)

lemma listed_json_get:
  "as_dict (listed_json r) = Inr
     [(''request_id'', JStr (lr_request_id r)), (''order_id'', JStr (lr_order_id r)),
      (''amount'', JFloat (float_of_cents (lr_cents r))), (''currency'', JStr (lr_currency r)),
      (''created_at'', JStr (lr_created_at r))]"
  by (simp add: listed_json_def as_dict_def)

lemma others_cents_simps [simp]:
  "others_cents claim [] = 0"
  "others_cents claim (r # rs) = (if counts claim r then lr_cents r else 0) + others_cents claim rs"
  by (simp_all add: others_cents_def)

lemma sum_previous_step:
  "sum_previous claim cur (listed_json r # js) acc =
     (if \<not> counts claim r then sum_previous claim cur js acc
      else if lr_currency r \<noteq> cur then Inr (None, [mixed_currency claim (JStr (lr_currency r))])
      else bindR (money (JFloat (float_of_cents (lr_cents r))))
             (\<lambda>m. sum_previous claim cur js (dec_add acc m)))"
  by (auto simp: listed_json_get counts_def dget_def dindex_def)

text \<open>
  The loop adds up the other claims' refunds on the order, unless one of them has another
  currency. The bound keeps the running total exact.
\<close>

lemma sum_previous_listed:
  assumes "\<And>r. r \<in> set rs \<Longrightarrow> \<bar>lr_cents r\<bar> < max_numeric"
    and "\<bar>t\<bar> + int (length rs) * max_numeric < max_coef"
  shows "sum_previous claim cur (map listed_json rs) (Dec t (- 2)) =
    (case find (\<lambda>r. counts claim r \<and> lr_currency r \<noteq> cur) rs of
       None \<Rightarrow> Inr (Some (Dec (t + others_cents claim rs) (- 2)), [])
     | Some r \<Rightarrow> Inr (None, [mixed_currency claim (JStr (lr_currency r))]))"
  using assms
proof (induction rs arbitrary: t)
  case Nil
  then show ?case by simp
next
  case (Cons r rs)
  have lr: "\<bar>lr_cents r\<bar> < max_numeric" using Cons.prems(1) by simp
  have b: "\<bar>t\<bar> + int (length rs) * max_numeric + max_numeric < max_coef"
    using Cons.prems(2) by (simp add: algebra_simps)
  show ?case
  proof (cases "counts claim r")
    case False
    have "\<bar>t\<bar> + int (length rs) * max_numeric < max_coef"
      using b by (simp add: max_numeric_def)
    with Cons.IH [of t] Cons.prems(1) False show ?thesis
      by (simp add: sum_previous_step del: sum_previous.simps split: option.split)
  next
    case True
    have mc: "\<bar>lr_cents r\<bar> < max_coef" using lr by (simp add: max_numeric_def max_coef_def)
    have "0 \<le> int (length rs) * max_numeric" by (simp add: max_numeric_def)
    with b lr have t': "\<bar>t + lr_cents r\<bar> + int (length rs) * max_numeric < max_coef"
      and ok: "\<bar>t + lr_cents r\<bar> < max_coef" by linarith+
    show ?thesis
      using True Cons.IH [OF _ t'] Cons.prems(1) mc ok
      by (simp add: sum_previous_step money_cents dec_add_cents add.assoc del: sum_previous.simps split: option.split)
  qed
qed

text \<open>The specification in cents: what remains of the order, and the limit in USD cents.\<close>

definition remaining_cents :: "int \<Rightarrow> int \<Rightarrow> int" where
  "remaining_cents order_cents refunded = max (order_cents - refunded) 0"

definition usd_cents :: "int \<Rightarrow> decimal \<Rightarrow> int" where
  "usd_cents cents rate = cents_of (dec_mul (Dec cents (- 2)) rate)"

definition limit_ok :: "(string \<times> pyfloat) list \<Rightarrow> pyfloat \<Rightarrow> string \<Rightarrow> int \<Rightarrow> bool" where
  "limit_ok fx limit cur cents =
     (case map_of fx cur of Some (Fin rate) \<Rightarrow>
        (case limit of Fin l \<Rightarrow> usd_cents cents rate \<le> cents_of l | _ \<Rightarrow> False) | _ \<Rightarrow> False)"

lemma threshold_passes:
  assumes "threshold_failures fx limit claim (Dec cents (- 2)) = Inr (u, fs)"
  shows "fs = [] \<longleftrightarrow> limit_ok fx limit (cl_currency claim) cents"
  using assms
  by (auto simp: threshold_failures_def limit_ok_def usd_cents_def res_simps money_float_def
      dec_of_float_def split: option.splits pyfloat.splits if_splits)

lemma balance_passes:
  assumes order: "order = [(''order_id'', JStr oid), (''user_id'', JStr user),
      (''amount'', JFloat (float_of_cents oc)), (''currency'', JStr ocur), (''created_at'', JStr created)]"
    and hist: "dget_or hist ''refunds'' (JList []) = JList (map listed_json rs)"
      "map_of hist ''refund_count'' = Some (JInt n)"
    and small: "\<And>r. r \<in> set rs \<Longrightarrow> \<bar>lr_cents r\<bar> < max_numeric" "\<bar>oc\<bar> < max_numeric" "length rs \<le> 1000"
    and res: "balance_failures claim (Dec cents (- 2)) order hist = Inr (already, fs)"
  shows "fs = [] \<longleftrightarrow> ocur = cl_currency claim \<and> n \<le> int (length rs) \<and>
      (\<forall>r \<in> set rs. counts claim r \<longrightarrow> lr_currency r = ocur) \<and>
      cents \<le> remaining_cents oc (others_cents claim rs)"
proof -
  have cur: "dget order ''currency'' = JStr ocur" by (simp add: order dget_def)
  show ?thesis
  proof (cases "ocur = cl_currency claim \<and> n \<le> int (length rs)")
    case False
    then show ?thesis
      using res hist by (auto simp: balance_failures_def cur previous_refunds_def py_list_def
          py_int_def dget_or_def res_simps split: if_splits option.splits)
  next
    case True
    have b: "\<bar>0\<bar> + int (length rs) * max_numeric < max_coef"
      using small(3) by (simp add: max_numeric_def max_coef_def)
    have sp: "previous_refunds claim ocur hist =
        (case find (\<lambda>r. counts claim r \<and> lr_currency r \<noteq> ocur) rs of
           None \<Rightarrow> Inr (Some (Dec (others_cents claim rs) (- 2)), [])
         | Some r \<Rightarrow> Inr (None, [mixed_currency claim (JStr (lr_currency r))]))"
      using sum_previous_listed [of rs 0 claim ocur] small(1) b True hist
      by (simp add: previous_refunds_def py_list_def py_int_def dget_or_def zero_money_def cong: option.case_cong)
    have sumb: "\<bar>\<Sum>r \<leftarrow> filter P xs. lr_cents r\<bar> \<le> int (length xs) * max_numeric"
      if "\<And>r. r \<in> set xs \<Longrightarrow> \<bar>lr_cents r\<bar> < max_numeric" for P and xs :: "listed_refund list"
      using that
    proof (induction xs)
      case (Cons x xs)
      then have "\<bar>\<Sum>r \<leftarrow> filter P xs. lr_cents r\<bar> \<le> int (length xs) * max_numeric"
          "\<bar>lr_cents x\<bar> < max_numeric" by auto
      then show ?case by (auto simp: algebra_simps max_numeric_def)
    qed simp
    have "\<bar>others_cents claim rs\<bar> \<le> int (length rs) * max_numeric"
      unfolding others_cents_def by (rule sumb) (rule small(1))
    also have "\<dots> \<le> 1000 * max_numeric" using small(3) by (simp add: max_numeric_def)
    finally have sub: "dec_sub (Dec oc (- 2)) (Dec (others_cents claim rs) (- 2)) =
        Dec (oc - others_cents claim rs) (- 2)"
      using small(2) by (intro dec_sub_cents) (simp add: max_numeric_def max_coef_def)
    have am: "dindex order ''amount'' = Inr (JFloat (float_of_cents oc))"
      by (simp add: order dindex_def)
    have mo: "money (JFloat (float_of_cents oc)) = Inr (Dec oc (- 2))"
      using small(2) by (intro money_cents) (simp add: max_numeric_def max_coef_def)
    show ?thesis
    proof (cases "find (\<lambda>r. counts claim r \<and> lr_currency r \<noteq> ocur) rs")
      case (Some r)
      then have "r \<in> set rs \<and> counts claim r \<and> lr_currency r \<noteq> ocur" by (rule find_SomeD)
      with Some True res sp show ?thesis by (auto simp: balance_failures_def cur)
    next
      case None
      then have all: "\<forall>r \<in> set rs. counts claim r \<longrightarrow> lr_currency r = ocur"
        by (auto simp: find_None_iff)
      from None True res sp am mo sub show ?thesis
        using all by (auto simp: balance_failures_def cur zero_money_def remaining_cents_def
            dec_max_cents split: if_splits)
    qed
  qed
qed

end
