(* ===== verification/Schemas.thy ===== *)
theory Schemas
  imports Settings
begin

text \<open>
  The argument schemas of the tools (\<open>src/mcp_server/tools/schemas.py\<close>), the gateway's
  \<open>ClaimRequest\<close> (\<open>src/api/schemas.py\<close>) and the Front-Desk's \<open>ClaimProposal\<close>
  (\<open>src/agents/proposal.py\<close>). The source declares them as pydantic models; pydantic itself is
  not part of the repository, so its coercions are a record of functions every definition here
  takes as an argument. \<open>pydantic_ok\<close> names what the documentation promises of them and
  \<open>lax_mode\<close> is an instance of it. The limits, the required fields, the forbidden extra
  fields and the cross-field rule are the source's.
\<close>

section \<open>The validation library\<close>

record pydantic =
  coerce_str :: "json \<Rightarrow> string option"
  coerce_float :: "json \<Rightarrow> pyfloat option"
  coerce_int :: "json \<Rightarrow> int option"
  error_text :: "json \<Rightarrow> string" \<comment> \<open>\<open>str(exc)\<close> of the ValidationError\<close>

text \<open>Values already of the field's type pass unchanged, and only strings are strings.\<close>

definition pydantic_ok :: "pydantic \<Rightarrow> bool" where
  "pydantic_ok P \<longleftrightarrow>
     (\<forall>j s. coerce_str P j = Some s \<longleftrightarrow> j = JStr s) \<and>
     (\<forall>f. coerce_float P (JFloat f) = Some f) \<and>
     (\<forall>n. coerce_int P (JInt n) = Some n)"

definition lax_mode :: pydantic where
  "lax_mode =
     \<lparr>coerce_str = (\<lambda>j. case j of JStr s \<Rightarrow> Some s | _ \<Rightarrow> None),
      coerce_float = (\<lambda>j. case j of JFloat f \<Rightarrow> Some f | JInt n \<Rightarrow> Some (Fin (Dec n 0))
        | JBool b \<Rightarrow> Some (Fin (Dec (if b then 1 else 0) 0)) | JStr s \<Rightarrow> py_float s | _ \<Rightarrow> None),
      coerce_int = (\<lambda>j. case j of JInt n \<Rightarrow> Some n | JBool b \<Rightarrow> Some (if b then 1 else 0)
        | JFloat (Fin d) \<Rightarrow> if dec_val (Dec (trunc_dec d) 0) = dec_val d then Some (trunc_dec d) else None
        | _ \<Rightarrow> None),
      error_text = (\<lambda>_. ''validation error'')\<rparr>"

lemma lax_mode_ok: "pydantic_ok lax_mode"
  by (auto simp: pydantic_ok_def lax_mode_def split: json.splits)

lemma pydantic_ok_str: "pydantic_ok P \<Longrightarrow> coerce_str P j = Some s \<longleftrightarrow> j = JStr s"
  by (simp add: pydantic_ok_def)

lemma pydantic_ok_float: "pydantic_ok P \<Longrightarrow> coerce_float P (JFloat f) = Some f"
  by (simp add: pydantic_ok_def)

lemma pydantic_ok_int: "pydantic_ok P \<Longrightarrow> coerce_int P (JInt n) = Some n"
  by (simp add: pydantic_ok_def)

section \<open>Fields\<close>

definition bindO :: "'a option \<Rightarrow> ('a \<Rightarrow> 'b option) \<Rightarrow> 'b option" where
  "bindO m f = (case m of None \<Rightarrow> None | Some x \<Rightarrow> f x)"

lemma bindO_Some [res_simps]: "bindO m f = Some y \<longleftrightarrow> (\<exists>x. m = Some x \<and> f x = Some y)"
  by (auto simp: bindO_def split: option.splits)

lemma bindO_simps [simp]: "bindO None f = None" "bindO (Some x) f = f x"
  by (simp_all add: bindO_def)

text \<open>\<open>extra="forbid"\<close>.\<close>

definition only_fields :: "string list \<Rightarrow> dict \<Rightarrow> bool" where
  "only_fields names d = list_all (\<lambda>kv. fst kv \<in> set names) d"

text \<open>\<open>str = Field(min_length=1)\<close>, \<open>float = Field(gt=0, le=m)\<close>, \<open>int = Field(ge=lo, le=hi)\<close>,
  and the enumeration.\<close>

definition str_min1 :: "pydantic \<Rightarrow> json \<Rightarrow> string option" where
  "str_min1 P v = bindO (coerce_str P v) (\<lambda>s. if s = [] then None else Some s)"

definition float_in :: "pydantic \<Rightarrow> pyfloat \<Rightarrow> json \<Rightarrow> pyfloat option" where
  "float_in P m v =
     bindO (coerce_float P v) (\<lambda>f. if pf_gt f (Fin (Dec 0 0)) \<and> pf_ge m f then Some f else None)"

definition int_in :: "pydantic \<Rightarrow> int \<Rightarrow> int \<Rightarrow> json \<Rightarrow> int option" where
  "int_in P lo hi v = bindO (coerce_int P v) (\<lambda>n. if lo \<le> n \<and> n \<le> hi then Some n else None)"

definition enum_currency :: "json \<Rightarrow> currency option" where
  "enum_currency v = (case v of JStr s \<Rightarrow> currency_of s | _ \<Rightarrow> None)"

definition required :: "dict \<Rightarrow> string \<Rightarrow> (json \<Rightarrow> 'a option) \<Rightarrow> 'a option" where
  "required d k f = bindO (map_of d k) f"

definition defaulted :: "dict \<Rightarrow> string \<Rightarrow> 'a \<Rightarrow> (json \<Rightarrow> 'a option) \<Rightarrow> 'a option" where
  "defaulted d k x f = (case map_of d k of None \<Rightarrow> Some x | Some v \<Rightarrow> f v)"

text \<open>A field of type \<open>T | None\<close> that defaults to \<open>None\<close>.\<close>

definition nullable :: "dict \<Rightarrow> string \<Rightarrow> (json \<Rightarrow> 'a option) \<Rightarrow> 'a option option" where
  "nullable d k f = defaulted d k None (\<lambda>v. if v = JNull then Some None else map_option Some (f v))"

section \<open>Tool arguments\<close>

record execute_refund_args =
  ea_request_id :: string
  ea_transaction_id :: string
  ea_amount :: pyfloat
  ea_currency :: currency

definition ExecuteRefundArgs :: "pydantic \<Rightarrow> pyfloat \<Rightarrow> dict \<Rightarrow> execute_refund_args option" where
  "ExecuteRefundArgs P refund_max d =
     (if only_fields [''request_id'', ''transaction_id'', ''amount'', ''currency''] d
      then bindO (required d ''request_id'' (str_min1 P)) (\<lambda>r.
           bindO (required d ''transaction_id'' (str_min1 P)) (\<lambda>t.
           bindO (required d ''amount'' (float_in P refund_max)) (\<lambda>a.
           bindO (defaulted d ''currency'' USD enum_currency) (\<lambda>c.
             Some \<lparr>ea_request_id = r, ea_transaction_id = t, ea_amount = a, ea_currency = c\<rparr>))))
      else None)"

definition ValidateFraudScoreArgs :: "pydantic \<Rightarrow> dict \<Rightarrow> string option" where
  "ValidateFraudScoreArgs P d =
     (if only_fields [''user_id''] d then required d ''user_id'' (str_min1 P) else None)"

definition GetOrderArgs :: "pydantic \<Rightarrow> dict \<Rightarrow> string option" where
  "GetOrderArgs P d =
     (if only_fields [''order_id''] d then required d ''order_id'' (str_min1 P) else None)"

definition GetRefundHistoryArgs :: "pydantic \<Rightarrow> dict \<Rightarrow> (string \<times> int) option" where
  "GetRefundHistoryArgs P d =
     (if only_fields [''user_id'', ''limit''] d
      then bindO (required d ''user_id'' (str_min1 P)) (\<lambda>u.
           bindO (defaulted d ''limit'' 20 (int_in P 1 100)) (\<lambda>l. Some (u, l)))
      else None)"

text \<open>
  \<open>TOOL_ARG_SCHEMAS.get(tool)\<close> applied to the raw arguments: \<open>None\<close> when the tool has no
  schema, otherwise whether \<open>model_validate\<close> accepts. Arguments that are no mapping are
  rejected by every model.
\<close>

definition TOOL_ARG_SCHEMAS :: "pydantic \<Rightarrow> pyfloat \<Rightarrow> string \<Rightarrow> (json \<Rightarrow> bool) option" where
  "TOOL_ARG_SCHEMAS P refund_max tool =
     (let on_dict = (\<lambda>f j. case j of JObj d \<Rightarrow> f d | _ \<Rightarrow> False)
      in if tool = ''execute_refund'' then Some (on_dict (\<lambda>d. ExecuteRefundArgs P refund_max d \<noteq> None))
         else if tool = ''validate_fraud_score'' then Some (on_dict (\<lambda>d. ValidateFraudScoreArgs P d \<noteq> None))
         else if tool = ''get_order'' then Some (on_dict (\<lambda>d. GetOrderArgs P d \<noteq> None))
         else if tool = ''get_refund_history'' then Some (on_dict (\<lambda>d. GetRefundHistoryArgs P d \<noteq> None))
         else None)"

section \<open>The gateway's claim\<close>

record claim_request =
  cr_user_id :: string
  cr_claim_text :: string
  cr_request_id :: string
  cr_order_id :: "string option"
  cr_amount :: "pyfloat option"
  cr_currency :: "currency option"

text \<open>\<open>uuid\<close> is the value the default factory of \<open>request_id\<close> returns. Extra fields are ignored.\<close>

definition ClaimRequest :: "pydantic \<Rightarrow> settings \<Rightarrow> string \<Rightarrow> dict \<Rightarrow> claim_request option" where
  "ClaimRequest P S uuid d =
     bindO (required d ''user_id'' (coerce_str P)) (\<lambda>u.
     bindO (required d ''claim_text'' (\<lambda>v. bindO (coerce_str P v)
              (\<lambda>s. if int (length s) \<le> CLAIM_TEXT_MAX_LENGTH S then Some s else None))) (\<lambda>t.
     bindO (defaulted d ''request_id'' uuid (coerce_str P)) (\<lambda>r.
     bindO (nullable d ''order_id'' (str_min1 P)) (\<lambda>oid.
     bindO (nullable d ''amount'' (float_in P (REFUND_MAX_AMOUNT S))) (\<lambda>a.
     bindO (nullable d ''currency'' enum_currency) (\<lambda>c.
       Some \<lparr>cr_user_id = u, cr_claim_text = t, cr_request_id = r, cr_order_id = oid,
             cr_amount = a, cr_currency = c\<rparr>))))))"

section \<open>The Front-Desk's proposal\<close>

datatype proposal_intent = Refund | Clarify | OutOfScope

primrec intent_value :: "proposal_intent \<Rightarrow> string" where
  "intent_value Refund = ''refund''"
| "intent_value Clarify = ''clarify''"
| "intent_value OutOfScope = ''out_of_scope''"

definition intent_of :: "json \<Rightarrow> proposal_intent option" where
  "intent_of v =
     (if v = JStr ''refund'' then Some Refund else if v = JStr ''clarify'' then Some Clarify
      else if v = JStr ''out_of_scope'' then Some OutOfScope else None)"

record claim_proposal =
  cp_intent :: proposal_intent
  cp_order_id :: "string option"
  cp_amount :: "pyfloat option"
  cp_currency :: "currency option"
  cp_reason :: string

text \<open>\<open>_check_refund_fields_match_intent\<close>.\<close>

definition refund_fields_match :: "claim_proposal \<Rightarrow> bool" where
  "refund_fields_match p =
     (let refund_fields_present =
            (cp_order_id p \<noteq> None \<or> cp_amount p \<noteq> None \<or> cp_currency p \<noteq> None)
      in if cp_intent p = Refund
         then cp_order_id p \<noteq> None \<and> cp_amount p \<noteq> None \<and> cp_currency p \<noteq> None
         else \<not> refund_fields_present)"

definition ClaimProposal :: "pydantic \<Rightarrow> pyfloat \<Rightarrow> dict \<Rightarrow> claim_proposal option" where
  "ClaimProposal P refund_max d =
     (if only_fields [''intent'', ''order_id'', ''amount'', ''currency'', ''reason''] d
      then bindO (required d ''intent'' intent_of) (\<lambda>i.
           bindO (nullable d ''order_id'' (str_min1 P)) (\<lambda>oid.
           bindO (nullable d ''amount'' (float_in P refund_max)) (\<lambda>a.
           bindO (nullable d ''currency'' enum_currency) (\<lambda>c.
           bindO (required d ''reason'' (str_min1 P)) (\<lambda>r.
             let p = \<lparr>cp_intent = i, cp_order_id = oid, cp_amount = a, cp_currency = c, cp_reason = r\<rparr>
             in if refund_fields_match p then Some p else None)))))
      else None)"

text \<open>\<open>model_dump()\<close> as it is stored in the judge trail.\<close>

definition opt_json :: "('a \<Rightarrow> json) \<Rightarrow> 'a option \<Rightarrow> json" where
  "opt_json f v = (case v of None \<Rightarrow> JNull | Some x \<Rightarrow> f x)"

definition proposal_dump :: "claim_proposal \<Rightarrow> dict" where
  "proposal_dump p =
     [(''intent'', JStr (intent_value (cp_intent p))),
      (''order_id'', opt_json JStr (cp_order_id p)),
      (''amount'', opt_json JFloat (cp_amount p)),
      (''currency'', opt_json (JStr \<circ> currency_value) (cp_currency p)),
      (''reason'', JStr (cp_reason p))]"

section \<open>Lemmas\<close>

lemma str_min1_Some: "str_min1 P v = Some s \<Longrightarrow> s \<noteq> []"
  by (auto simp: str_min1_def res_simps split: if_splits)

lemma float_in_Some:
  "float_in P (Fin m) v = Some f \<Longrightarrow> \<exists>d. f = Fin d \<and> 0 < dec_val d \<and> dec_val d \<le> dec_val m"
  by (cases f) (auto simp: float_in_def res_simps pf_gt_def pf_ge_def dec_le_iff dec_val_def
      split: if_splits pyfloat.splits)

lemma intent_roundtrip [simp]: "intent_of (JStr (intent_value i)) = Some i"
  by (cases i) (simp_all add: intent_of_def)

text \<open>An accepted refund is positive, within the limit, in a known currency, with a key.\<close>

lemma ExecuteRefundArgs_Some:
  assumes "ExecuteRefundArgs P (Fin m) d = Some a"
  shows "ea_request_id a \<noteq> [] \<and> ea_transaction_id a \<noteq> [] \<and>
    (\<exists>x. ea_amount a = Fin x \<and> 0 < dec_val x \<and> dec_val x \<le> dec_val m) \<and>
    fst ` set d \<subseteq> {''request_id'', ''transaction_id'', ''amount'', ''currency''}"
proof -
  from assms have f: "only_fields [''request_id'', ''transaction_id'', ''amount'', ''currency''] d"
    by (auto simp: ExecuteRefundArgs_def split: if_splits)
  from assms f have r: "required d ''request_id'' (str_min1 P) = Some (ea_request_id a)"
      and t: "required d ''transaction_id'' (str_min1 P) = Some (ea_transaction_id a)"
      and m: "required d ''amount'' (float_in P (Fin m)) = Some (ea_amount a)"
    by (auto simp: ExecuteRefundArgs_def res_simps)
  from m obtain x where "ea_amount a = Fin x \<and> 0 < dec_val x \<and> dec_val x \<le> dec_val m"
    by (auto simp: required_def res_simps dest!: float_in_Some)
  with r t f show ?thesis
    by (auto simp: required_def res_simps only_fields_def list_all_iff dest: str_min1_Some)
qed

text \<open>A proposal survives being dumped and validated again.\<close>

lemma ClaimProposal_match: "ClaimProposal P m d = Some p \<Longrightarrow> refund_fields_match p \<and> cp_reason p \<noteq> []"
  by (auto simp: ClaimProposal_def res_simps required_def Let_def split: if_splits dest: str_min1_Some)

lemma ClaimProposal_amount:
  "ClaimProposal P (Fin m) d = Some p \<Longrightarrow> cp_amount p = Some f \<Longrightarrow>
   \<exists>x. f = Fin x \<and> 0 < dec_val x \<and> dec_val x \<le> dec_val m"
  by (auto simp: ClaimProposal_def res_simps nullable_def defaulted_def Let_def
      split: if_splits option.splits dest!: float_in_Some)

lemma ClaimProposal_order: "ClaimProposal P m d = Some p \<Longrightarrow> cp_order_id p = Some s \<Longrightarrow> s \<noteq> []"
  by (auto simp: ClaimProposal_def res_simps nullable_def defaulted_def Let_def
      split: if_splits option.splits dest: str_min1_Some)

lemma proposal_roundtrip:
  assumes P: "pydantic_ok P" and p: "ClaimProposal P m d = Some p"
  shows "ClaimProposal P m (proposal_dump p) = Some p"
proof -
  have f: "only_fields [''intent'', ''order_id'', ''amount'', ''currency'', ''reason''] (proposal_dump p)"
    by (simp add: only_fields_def proposal_dump_def)
  have s: "str_min1 P (JStr x) = Some x" if "x \<noteq> []" for x
    using that P by (simp add: str_min1_def pydantic_ok_str [OF P, THEN iffD2])
  have oid: "nullable (proposal_dump p) ''order_id'' (str_min1 P) = Some (cp_order_id p)"
    using ClaimProposal_order [OF p] s
    by (cases "cp_order_id p") (auto simp: nullable_def defaulted_def proposal_dump_def opt_json_def)
  have fl: "float_in P m (JFloat x) = Some x" if "cp_amount p = Some x" for x
    using p that
    by (auto simp: ClaimProposal_def res_simps nullable_def defaulted_def Let_def float_in_def
        pydantic_ok_float [OF P] split: if_splits option.splits)
  have am: "nullable (proposal_dump p) ''amount'' (float_in P m) = Some (cp_amount p)"
    using fl by (cases "cp_amount p") (auto simp: nullable_def defaulted_def proposal_dump_def opt_json_def)
  have cu: "nullable (proposal_dump p) ''currency'' enum_currency = Some (cp_currency p)"
    by (cases "cp_currency p")
      (auto simp: nullable_def defaulted_def proposal_dump_def opt_json_def enum_currency_def)
  have re: "required (proposal_dump p) ''reason'' (str_min1 P) = Some (cp_reason p)"
    using ClaimProposal_match [OF p] s by (simp add: required_def proposal_dump_def)
  have i: "required (proposal_dump p) ''intent'' intent_of = Some (cp_intent p)"
    by (simp add: required_def proposal_dump_def)
  show ?thesis
    unfolding ClaimProposal_def using f i oid am cu re ClaimProposal_match [OF p] by (cases p) (simp add: Let_def)
qed

end
