(* ===== verification/Mcp_Security.thy ===== *)
theory Mcp_Security
  imports Tables Schemas
begin

text \<open>
  The security boundary of the MCP server (\<open>src/mcp_server/security/\<close>): the client registry, the
  rate limiter over the audit table, the masked audit rows, the host list and the middleware
  that every HTTP request passes. The middleware is a function of the request, of what the
  database did for it (\<open>mw_env\<close>) and of the audit table; it answers, or hands the request to
  the wrapped application, or an exception leaves it. SHA-256 is an argument: every statement
  holds for any hash function.
\<close>

section \<open>client_registry\<close>

record client_record =
  client_id :: string
  token_hash :: string
  allowed_tools :: "string list"

definition client_of_entry :: "json \<Rightarrow> client_record res" where
  "client_of_entry entry =
     bindR (as_dict entry) (\<lambda>d.
     bindR (dindex d ''client_id'') (\<lambda>i.
     bindR (dindex d ''token_hash'') (\<lambda>h.
     bindR (dindex d ''allowed_tools'') (\<lambda>a.
     bindR (py_list a) (\<lambda>tools.
       Inr \<lparr>client_id = py_str i, token_hash = py_str h, allowed_tools = map py_str tools\<rparr>)))))"

definition from_records :: "json \<Rightarrow> client_record list res" where
  "from_records records = bindR (py_list records) (mapR client_of_entry)"

text \<open>\<open>from_file\<close>, after the file was read and parsed.\<close>

definition from_file :: "json \<Rightarrow> client_record list res" where
  "from_file raw = bindR (as_dict raw) (\<lambda>d. bindR (dindex d ''clients'') from_records)"

text \<open>\<open>hmac.compare_digest\<close> accepts ASCII texts only.\<close>

definition is_ascii :: "string \<Rightarrow> bool" where
  "is_ascii s = list_all (\<lambda>c. (of_char c :: nat) < 128) s"

definition compare_digest :: "string \<Rightarrow> string \<Rightarrow> bool res" where
  "compare_digest a b = (if is_ascii a \<and> is_ascii b then Inr (a = b) else raise_exn ''TypeError'')"

text \<open>The loop over the whole registry: the last match stays.\<close>

fun scan_registry :: "string \<Rightarrow> client_record list \<Rightarrow> client_record option \<Rightarrow> client_record option res" where
  "scan_registry presented [] matched = Inr matched"
| "scan_registry presented (c # cs) matched =
     bindR (compare_digest presented (token_hash c)) (\<lambda>eq.
       scan_registry presented cs (if eq then Some c else matched))"

definition authenticate ::
  "(string \<Rightarrow> string) \<Rightarrow> client_record list \<Rightarrow> string \<Rightarrow> client_record option res" where
  "authenticate sha256 clients token = scan_registry (sha256 token) clients None"

text \<open>Looking up an unhashable value raises; a value of another type is simply not a member.\<close>

definition is_allowed :: "client_record \<Rightarrow> json \<Rightarrow> bool res" where
  "is_allowed client tool =
     (case tool of JStr s \<Rightarrow> Inr (s \<in> set (allowed_tools client))
      | JList _ \<Rightarrow> raise_exn ''TypeError''
      | JObj _ \<Rightarrow> raise_exn ''TypeError''
      | _ \<Rightarrow> Inr False)"

section \<open>rate_limiter\<close>

definition WINDOW :: time where
  "WINDOW = seconds 60"

definition call_count :: "audit_row table \<Rightarrow> string \<Rightarrow> string \<Rightarrow> time \<Rightarrow> int" where
  "call_count t cid tool window_start =
     int (length (filter (\<lambda>r. au_client_id r = cid \<and> au_tool r = Some tool \<and> window_start \<le> au_created_at r)
       (tb_rows t)))"

definition is_rate_limited :: "audit_row table \<Rightarrow> string \<Rightarrow> string \<Rightarrow> int \<Rightarrow> time \<Rightarrow> bool" where
  "is_rate_limited t cid tool limit_per_min now = (limit_per_min \<le> call_count t cid tool (now - WINDOW))"

section \<open>audit\<close>

datatype audit_decision =
  Allowed | DeniedUnauthenticated | DeniedUnauthorized | DeniedValidation | DeniedRateLimited

primrec decision_value :: "audit_decision \<Rightarrow> string" where
  "decision_value Allowed = ''ALLOWED''"
| "decision_value DeniedUnauthenticated = ''DENIED_UNAUTHENTICATED''"
| "decision_value DeniedUnauthorized = ''DENIED_UNAUTHORIZED''"
| "decision_value DeniedValidation = ''DENIED_VALIDATION''"
| "decision_value DeniedRateLimited = ''DENIED_RATE_LIMITED''"

definition PII_KEYS :: "string list" where
  "PII_KEYS = [''user_id'', ''email'', ''phone'', ''ssn'', ''account_number'', ''name'', ''address'']"

definition MASK :: string where
  "MASK = ''***MASKED***''"

definition mask_pii :: "dict \<Rightarrow> dict" where
  "mask_pii arguments =
     map (\<lambda>(key, value). (key, if lower key \<in> set PII_KEYS then JStr MASK else value)) arguments"

text \<open>
  \<open>db_up\<close> says whether the insert and its commit succeed. A tool name that is not a string
  does not fit its column, arguments that are no mapping have no \<open>items\<close>.
\<close>

definition write_audit_log ::
  "bool \<Rightarrow> time \<Rightarrow> string \<Rightarrow> json option \<Rightarrow> json \<Rightarrow> audit_decision \<Rightarrow> string option
   \<Rightarrow> audit_row table \<Rightarrow> audit_row table res" where
  "write_audit_log db_up now cid tool arguments decision result t =
     bindR (as_dict arguments) (\<lambda>args.
     bindR (case tool of None \<Rightarrow> Inr None | Some (JStr s) \<Rightarrow> Inr (Some s)
            | Some _ \<Rightarrow> raise_exn ''DBAPIError'') (\<lambda>name.
       if db_up
       then Inr (insert_row (\<lambda>i. \<lparr>au_id = i, au_client_id = cid, au_tool = name,
               au_arguments = mask_pii args, au_decision = decision_value decision,
               au_result = result, au_created_at = now\<rparr>) t)
       else raise_exn ''DBAPIError''))"

section \<open>transport\<close>

definition DEFAULT_ALLOWED_HOSTS :: "string list" where
  "DEFAULT_ALLOWED_HOSTS = [''127.0.0.1:*'', ''localhost:*'', ''[::1]:*'', ''mcp_server:*'']"

definition DEFAULT_ALLOWED_ORIGINS :: "string list" where
  "DEFAULT_ALLOWED_ORIGINS =
     [''http://127.0.0.1:*'', ''http://localhost:*'', ''http://mcp_server:*'']"

text \<open>\<open>raw.split(c)\<close>: always one more part than there are separators.\<close>

fun split_on :: "char \<Rightarrow> string \<Rightarrow> string list" where
  "split_on c [] = [[]]"
| "split_on c (x # xs) =
     (if x = c then [] # split_on c xs
      else case split_on c xs of [] \<Rightarrow> [[x]] | p # ps \<Rightarrow> (x # p) # ps)"

definition parse_hosts :: "string \<Rightarrow> string list" where
  "parse_hosts raw = map strip (filter (\<lambda>h. strip h \<noteq> []) (split_on (CHR '','') raw))"

definition build_transport_security :: "string list \<Rightarrow> string list \<times> string list" where
  "build_transport_security extra_hosts =
     (DEFAULT_ALLOWED_HOSTS @ extra_hosts,
      DEFAULT_ALLOWED_ORIGINS @ map (\<lambda>h. ''https://'' @ h) extra_hosts)"

section \<open>middleware\<close>

definition extract_bearer_token :: "string option \<Rightarrow> string option" where
  "extract_bearer_token header_value =
     (case header_value of None \<Rightarrow> None
      | Some h \<Rightarrow>
          let scheme = takeWhile (\<lambda>c. c \<noteq> CHR '' '') h; token = drop 1 (dropWhile (\<lambda>c. c \<noteq> CHR '' '') h)
          in if h = [] then None
             else if lower scheme \<noteq> ''bearer'' \<or> token = [] then None else Some token)"

text \<open>\<open>json.loads(body)\<close>, \<open>None\<close> for its \<open>ValueError\<close>, is part of the request.\<close>

definition parse_jsonrpc_message :: "json option \<Rightarrow> dict option" where
  "parse_jsonrpc_message body = (case body of Some (JObj d) \<Rightarrow> Some d | _ \<Rightarrow> None)"

record http_request =
  sc_type :: string
  sc_method :: string
  sc_authorization :: "string option"
  sc_body :: "json option"

record mw_config =
  mw_sha256 :: "string \<Rightarrow> string"
  mw_registry :: "client_record list"
  mw_rate_limit_per_min :: int
  mw_pydantic :: pydantic
  mw_refund_max :: pyfloat

record mw_env =
  ev_now :: time
  ev_rate_db :: bool \<comment> \<open>the rate-limit query succeeds\<close>
  ev_audit_db :: bool \<comment> \<open>the audit insert succeeds\<close>

datatype mw_out = Forward | Respond nat string | Raised exn

definition deny ::
  "mw_env \<Rightarrow> nat \<Rightarrow> string \<Rightarrow> json option \<Rightarrow> json \<Rightarrow> audit_decision \<Rightarrow> string
   \<Rightarrow> audit_row table \<Rightarrow> mw_out \<times> audit_row table" where
  "deny env status_code cid tool arguments decision msg t =
     (Respond status_code msg,
      case write_audit_log (ev_audit_db env) (ev_now env) cid tool arguments decision (Some ''not_executed'') t of
        Inl e \<Rightarrow> t | Inr t' \<Rightarrow> t')"

text \<open>The rate limit, the schema and the audit row of an allowed tool.\<close>

definition check_and_audit ::
  "mw_config \<Rightarrow> mw_env \<Rightarrow> client_record \<Rightarrow> string \<Rightarrow> json \<Rightarrow> audit_row table \<Rightarrow> mw_out \<times> audit_row table" where
  "check_and_audit cfg env client tool arguments t =
     (if \<not> ev_rate_db env then (Respond 503 ''rate_limit_unavailable'', t)
      else if is_rate_limited t (client_id client) tool (mw_rate_limit_per_min cfg) (ev_now env)
      then deny env 429 (client_id client) (Some (JStr tool)) arguments DeniedRateLimited ''rate_limit_exceeded'' t
      else if (case TOOL_ARG_SCHEMAS (mw_pydantic cfg) (mw_refund_max cfg) tool of
                 None \<Rightarrow> False | Some accepts \<Rightarrow> \<not> accepts arguments)
      then deny env 422 (client_id client) (Some (JStr tool)) arguments DeniedValidation
             (error_text (mw_pydantic cfg) arguments) t
      else case write_audit_log (ev_audit_db env) (ev_now env) (client_id client) (Some (JStr tool))
                  arguments Allowed (Some ''invoked'') t of
             Inl e \<Rightarrow> (Respond 503 ''audit_unavailable'', t)
           | Inr t' \<Rightarrow> (Forward, t'))"

text \<open>A \<open>tools/call\<close> message: \<open>params\<close> must have a \<open>get\<close>, the tool must be permitted.\<close>

definition tool_call_name :: "dict \<Rightarrow> json" where
  "tool_call_name params = dget_or params ''name'' (JStr '''')"

definition tool_call_arguments :: "dict \<Rightarrow> json" where
  "tool_call_arguments params = py_or (dget params ''arguments'') (JObj [])"

definition handle_tools_call ::
  "mw_config \<Rightarrow> mw_env \<Rightarrow> client_record \<Rightarrow> dict \<Rightarrow> audit_row table \<Rightarrow> mw_out \<times> audit_row table" where
  "handle_tools_call cfg env client msg t =
     (case as_dict (py_or (dget msg ''params'') (JObj [])) of
        Inl e \<Rightarrow> (Raised e, t)
      | Inr params \<Rightarrow>
          let tool_name = tool_call_name params; arguments = tool_call_arguments params
          in case is_allowed client tool_name of
               Inl e \<Rightarrow> (Raised e, t)
             | Inr ok \<Rightarrow>
                 if \<not> ok
                 then deny env 403 (client_id client) (Some tool_name) arguments DeniedUnauthorized
                        ''tool_not_permitted'' t
                 else check_and_audit cfg env client (py_str tool_name) arguments t)"

text \<open>The client a request's bearer token stands for.\<close>

definition request_client :: "mw_config \<Rightarrow> http_request \<Rightarrow> client_record option res" where
  "request_client cfg rq =
     (case extract_bearer_token (sc_authorization rq) of None \<Rightarrow> Inr None
      | Some token \<Rightarrow> authenticate (mw_sha256 cfg) (mw_registry cfg) token)"

text \<open>\<open>MCPSecurityMiddleware.__call__\<close>.\<close>

definition middleware ::
  "mw_config \<Rightarrow> mw_env \<Rightarrow> http_request \<Rightarrow> audit_row table \<Rightarrow> mw_out \<times> audit_row table" where
  "middleware cfg env rq t =
     (if sc_type rq \<noteq> ''http'' then (Forward, t)
      else case request_client cfg rq of
             Inl e \<Rightarrow> (Raised e, t)
           | Inr None \<Rightarrow>
               deny env 401 ''unknown'' None (JObj []) DeniedUnauthenticated ''invalid_or_missing_token'' t
           | Inr (Some client) \<Rightarrow>
               if sc_method rq \<noteq> ''POST'' then (Forward, t)
               else case parse_jsonrpc_message (sc_body rq) of
                      None \<Rightarrow> (Forward, t)
                    | Some msg \<Rightarrow>
                        if dget msg ''method'' \<noteq> JStr ''tools/call'' then (Forward, t)
                        else handle_tools_call cfg env client msg t)"

section \<open>Lemmas\<close>

subsection \<open>Registry\<close>

lemma scan_registry_find:
  "scan_registry h cs m = Inr r \<Longrightarrow>
   r = (case find (\<lambda>c. token_hash c = h) (rev cs) of None \<Rightarrow> m | Some c \<Rightarrow> Some c)"
proof (induction cs arbitrary: m)
  case (Cons c cs)
  then show ?case
    by (auto simp: res_simps find_append compare_digest_def split: option.splits if_splits)
qed simp

lemma scan_registry_total:
  "is_ascii h \<Longrightarrow> \<forall>c \<in> set cs. is_ascii (token_hash c) \<Longrightarrow> \<exists>r. scan_registry h cs m = Inr r"
  by (induction cs arbitrary: m) (auto simp: compare_digest_def)

lemma request_client_registered:
  assumes "request_client cfg rq = Inr (Some c)"
  shows "\<exists>token. extract_bearer_token (sc_authorization rq) = Some token \<and>
    c \<in> set (mw_registry cfg) \<and> token_hash c = mw_sha256 cfg token"
  using assms
  by (auto simp: request_client_def authenticate_def dest!: scan_registry_find find_SomeD split: option.splits)

subsection \<open>Audit rows\<close>

lemma mask_pii_keys [simp]: "map fst (mask_pii d) = map fst d"
  by (simp add: mask_pii_def case_prod_beta comp_def)

lemma mask_pii_lookup:
  "map_of (mask_pii d) k =
     (if lower k \<in> set PII_KEYS then map_option (\<lambda>_. JStr MASK) (map_of d k) else map_of d k)"
  by (induction d) (auto simp: mask_pii_def)

definition audited ::
  "audit_row table \<Rightarrow> time \<Rightarrow> string \<Rightarrow> string option \<Rightarrow> dict \<Rightarrow> audit_decision \<Rightarrow> string \<Rightarrow> audit_row table" where
  "audited t now cid name args decision result =
     insert_row (\<lambda>i. \<lparr>au_id = i, au_client_id = cid, au_tool = name, au_arguments = mask_pii args,
       au_decision = decision_value decision, au_result = Some result, au_created_at = now\<rparr>) t"

lemma write_audit_log_Inr:
  "write_audit_log up now cid tool arguments dec (Some res) t = Inr t' \<longleftrightarrow>
     up \<and> (\<exists>args name. arguments = JObj args \<and> t' = audited t now cid name args dec res \<and>
       (tool = None \<and> name = None \<or> (\<exists>s. tool = Some (JStr s) \<and> name = Some s)))"
  by (auto simp: write_audit_log_def audited_def res_simps split: option.splits json.splits)

lemma audited_rows:
  "tb_rows (audited t now cid name args dec res) = tb_rows t @
     [\<lparr>au_id = tb_seq t, au_client_id = cid, au_tool = name, au_arguments = mask_pii args,
       au_decision = decision_value dec, au_result = Some res, au_created_at = now\<rparr>]"
  by (simp add: audited_def)

lemma deny_cases:
  "deny env s cid tool arguments dec m t =
     (Respond s m, t) \<or>
   (\<exists>args name. arguments = JObj args \<and>
      (tool = None \<and> name = None \<or> (\<exists>s. tool = Some (JStr s) \<and> name = Some s)) \<and> ev_audit_db env \<and>
      deny env s cid tool arguments dec m t = (Respond s m, audited t (ev_now env) cid name args dec ''not_executed''))"
proof (cases "write_audit_log (ev_audit_db env) (ev_now env) cid tool arguments dec (Some ''not_executed'') t")
  case (Inl e)
  then show ?thesis by (simp add: deny_def)
next
  case (Inr t')
  then have "deny env s cid tool arguments dec m t = (Respond s m, t')" by (simp add: deny_def)
  with Inr [unfolded write_audit_log_Inr] show ?thesis by auto
qed

lemma deny_fst [simp]: "fst (deny env s cid tool arguments dec m t) = Respond s m"
  by (simp add: deny_def)

subsection \<open>The decision on a tools/call\<close>

text \<open>The request as the middleware reads it: the caller, the tool's name, the arguments.\<close>

definition reads_tools_call ::
  "mw_config \<Rightarrow> http_request \<Rightarrow> client_record \<Rightarrow> json \<Rightarrow> json \<Rightarrow> bool" where
  "reads_tools_call cfg rq client tool arguments \<longleftrightarrow>
     sc_type rq = ''http'' \<and> sc_method rq = ''POST'' \<and> request_client cfg rq = Inr (Some client) \<and>
     (\<exists>msg params. sc_body rq = Some (JObj msg) \<and> dget msg ''method'' = JStr ''tools/call'' \<and>
        py_or (dget msg ''params'') (JObj []) = JObj params \<and>
        tool = tool_call_name params \<and> arguments = tool_call_arguments params)"

definition schema_accepts :: "mw_config \<Rightarrow> string \<Rightarrow> json \<Rightarrow> bool" where
  "schema_accepts cfg tool arguments =
     (case TOOL_ARG_SCHEMAS (mw_pydantic cfg) (mw_refund_max cfg) tool of
        None \<Rightarrow> True | Some accepts \<Rightarrow> accepts arguments)"

lemma middleware_reads:
  assumes "reads_tools_call cfg rq client tool arguments"
  shows "middleware cfg env rq t =
    (case is_allowed client tool of
       Inl e \<Rightarrow> (Raised e, t)
     | Inr ok \<Rightarrow> if \<not> ok then deny env 403 (client_id client) (Some tool) arguments DeniedUnauthorized
                            ''tool_not_permitted'' t
                else check_and_audit cfg env client (py_str tool) arguments t)"
  using assms
  by (auto simp: reads_tools_call_def middleware_def parse_jsonrpc_message_def
      handle_tools_call_def as_dict_def Let_def)

lemma is_allowed_True [res_simps]:
  "is_allowed client tool = Inr True \<longleftrightarrow> (\<exists>s. tool = JStr s \<and> s \<in> set (allowed_tools client))"
  by (auto simp: is_allowed_def split: json.splits)

lemma check_and_audit_forward:
  "check_and_audit cfg env client tool arguments t = (Forward, t') \<longleftrightarrow>
     ev_rate_db env \<and> ev_audit_db env \<and>
     \<not> is_rate_limited t (client_id client) tool (mw_rate_limit_per_min cfg) (ev_now env) \<and>
     schema_accepts cfg tool arguments \<and>
     (\<exists>args. arguments = JObj args \<and>
        t' = audited t (ev_now env) (client_id client) (Some tool) args Allowed ''invoked'')"
proof -
  have d: "deny env s cid tn a dec m t \<noteq> (Forward, t')" for s cid tn a dec m
    by (simp add: deny_def)
  show ?thesis
    by (auto simp: check_and_audit_def schema_accepts_def d write_audit_log_Inr
        split: option.splits sum.splits)
      (auto simp: write_audit_log_def audited_def as_dict_def split: json.splits if_splits)
qed

lemma check_and_audit_denies:
  assumes "check_and_audit cfg env client name args t = (Respond status text, t')"
  shows "status = 503 \<and> t' = t \<or>
    is_rate_limited t (client_id client) name (mw_rate_limit_per_min cfg) (ev_now env) \<and>
      deny env 429 (client_id client) (Some (JStr name)) args DeniedRateLimited ''rate_limit_exceeded'' t
        = (Respond status text, t') \<or>
    \<not> is_rate_limited t (client_id client) name (mw_rate_limit_per_min cfg) (ev_now env) \<and>
      \<not> schema_accepts cfg name args \<and>
      deny env 422 (client_id client) (Some (JStr name)) args DeniedValidation
        (error_text (mw_pydantic cfg) args) t = (Respond status text, t')"
proof (cases "ev_rate_db env")
  case False
  with assms show ?thesis by (simp add: check_and_audit_def)
next
  case up: True
  show ?thesis
  proof (cases "is_rate_limited t (client_id client) name (mw_rate_limit_per_min cfg) (ev_now env)")
    case True
    with up assms show ?thesis by (simp add: check_and_audit_def)
  next
    case under: False
    show ?thesis
    proof (cases "schema_accepts cfg name args")
      case False
      with up under assms show ?thesis
        by (simp add: check_and_audit_def schema_accepts_def split: option.splits)
    next
      case True
      then have "\<not> (case TOOL_ARG_SCHEMAS (mw_pydantic cfg) (mw_refund_max cfg) name of
          None \<Rightarrow> False | Some accepts \<Rightarrow> \<not> accepts args)"
        by (simp add: schema_accepts_def split: option.splits)
      with up under assms show ?thesis
        by (simp add: check_and_audit_def split: sum.splits)
    qed
  qed
qed

text \<open>What a denial leaves in the table, and the causes of one after the caller was permitted.\<close>

definition denied_row :: "audit_row table \<Rightarrow> audit_row table \<Rightarrow> audit_decision option \<Rightarrow> bool" where
  "denied_row t t' dec \<longleftrightarrow> tb_rows t' = tb_rows t \<or>
     (\<exists>row d. dec = Some d \<and> tb_rows t' = tb_rows t @ [row] \<and> au_result row = Some ''not_executed'' \<and>
        au_decision row = decision_value d)"

definition call_denied ::
  "mw_config \<Rightarrow> mw_env \<Rightarrow> client_record \<Rightarrow> string \<Rightarrow> json \<Rightarrow> audit_row table \<Rightarrow> nat \<Rightarrow> audit_decision option \<Rightarrow> bool" where
  "call_denied cfg env client name args t status dec \<longleftrightarrow>
     status = 503 \<and> dec = None \<or>
     status = 429 \<and> dec = Some DeniedRateLimited \<and>
       mw_rate_limit_per_min cfg \<le> call_count t (client_id client) name (ev_now env - WINDOW) \<or>
     status = 422 \<and> dec = Some DeniedValidation \<and>
       call_count t (client_id client) name (ev_now env - WINDOW) < mw_rate_limit_per_min cfg \<and>
       \<not> schema_accepts cfg name args"

lemma deny_row:
  "deny env s cid tool a dec m t = (Respond status text, t') \<Longrightarrow>
   s = status \<and> denied_row t t' (Some dec)"
  using deny_cases [of env s cid tool a dec m t] by (auto simp: audited_rows denied_row_def)

lemma check_and_audit_denied:
  assumes "check_and_audit cfg env client name args t = (Respond status text, t')"
  shows "\<exists>dec. denied_row t t' dec \<and> call_denied cfg env client name args t status dec"
  using check_and_audit_denies [OF assms]
proof (elim disjE conjE)
  assume "status = 503" "t' = t"
  then show ?thesis by (auto simp: denied_row_def call_denied_def)
next
  assume l: "is_rate_limited t (client_id client) name (mw_rate_limit_per_min cfg) (ev_now env)"
  assume "deny env 429 (client_id client) (Some (JStr name)) args DeniedRateLimited
    ''rate_limit_exceeded'' t = (Respond status text, t')"
  from deny_row [OF this] l show ?thesis by (auto simp: call_denied_def is_rate_limited_def)
next
  assume l: "\<not> is_rate_limited t (client_id client) name (mw_rate_limit_per_min cfg) (ev_now env)"
    "\<not> schema_accepts cfg name args"
  assume "deny env 422 (client_id client) (Some (JStr name)) args DeniedValidation
    (error_text (mw_pydantic cfg) args) t = (Respond status text, t')"
  from deny_row [OF this] l show ?thesis by (auto simp: call_denied_def is_rate_limited_def)
qed

text \<open>
  The whole table of a run of requests, one after the other. Only \<open>ALLOWED\<close> rows count as
  calls let through.
\<close>

fun run_requests ::
  "mw_config \<Rightarrow> (mw_env \<times> http_request) list \<Rightarrow> audit_row table \<Rightarrow> audit_row table" where
  "run_requests cfg [] t = t"
| "run_requests cfg ((env, rq) # rqs) t = run_requests cfg rqs (snd (middleware cfg env rq t))"

definition let_through :: "audit_row table \<Rightarrow> string \<Rightarrow> string \<Rightarrow> time \<Rightarrow> int" where
  "let_through t cid tool x =
     int (length (filter (\<lambda>r. au_client_id r = cid \<and> au_tool r = Some tool \<and>
       au_decision r = ''ALLOWED'' \<and> x \<le> au_created_at r \<and> au_created_at r \<le> x + WINDOW) (tb_rows t)))"

text \<open>
  Every request is one of three: it passes (or raises) with no row, it has no client, or it is a
  readable \<open>tools/call\<close>.
\<close>

lemma middleware_cases:
  obtains (pass) "snd (middleware cfg env rq t) = t"
      "fst (middleware cfg env rq t) = Forward \<or> (\<exists>e. fst (middleware cfg env rq t) = Raised e)"
  | (unknown) "sc_type rq = ''http''" "request_client cfg rq = Inr None"
      "middleware cfg env rq t =
         deny env 401 ''unknown'' None (JObj []) DeniedUnauthenticated ''invalid_or_missing_token'' t"
  | (call) client tool a where "reads_tools_call cfg rq client tool a"
proof (cases "sc_type rq = ''http''")
  case False
  then show thesis by (intro pass) (simp_all add: middleware_def)
next
  case http: True
  consider e where "request_client cfg rq = Inl e" | "request_client cfg rq = Inr None"
    | c where "request_client cfg rq = Inr (Some c)"
    by (metis not_None_eq old.sum.exhaust)
  then show thesis
  proof cases
    case 1
    with http show thesis by (intro pass) (simp_all add: middleware_def)
  next
    case 2
    with http show thesis by (intro unknown) (simp_all add: middleware_def)
  next
    case c: (3 c)
    show thesis
    proof (cases "sc_method rq = ''POST''")
      case False
      with http c show thesis by (intro pass) (simp_all add: middleware_def)
    next
      case post: True
      show thesis
      proof (cases "parse_jsonrpc_message (sc_body rq)")
        case None
        with http c post show thesis by (intro pass) (simp_all add: middleware_def)
      next
        case (Some msg)
        then have b: "sc_body rq = Some (JObj msg)"
          by (auto simp: parse_jsonrpc_message_def split: option.splits json.splits)
        note m = http c post Some
        show thesis
        proof (cases "dget msg ''method'' = JStr ''tools/call''")
          case False
          with m show thesis by (intro pass) (simp_all add: middleware_def)
        next
          case tc: True
          show thesis
          proof (cases "as_dict (py_or (dget msg ''params'') (JObj []))")
            case (Inl e)
            with m tc show thesis by (intro pass) (simp_all add: middleware_def handle_tools_call_def)
          next
            case (Inr params)
            with m b tc have "reads_tools_call cfg rq c (tool_call_name params) (tool_call_arguments params)"
              by (simp add: reads_tools_call_def res_simps)
            then show thesis by (rule call)
          qed
        qed
      qed
    qed
  qed
qed

text \<open>Answers that leave the table alone or add the row of a call that was not executed.\<close>

definition quiet :: "mw_env \<Rightarrow> audit_row table \<Rightarrow> mw_out \<times> audit_row table \<Rightarrow> bool" where
  "quiet env t r \<longleftrightarrow> snd r = t \<or>
     (\<exists>cid name args dec. dec \<noteq> Allowed \<and> snd r = audited t (ev_now env) cid name args dec ''not_executed'')"

lemma quiet_same [simp]: "quiet env t (x, t)"
  by (simp add: quiet_def)

lemma quietE:
  assumes "quiet env t r"
  obtains "snd r = t"
  | cid name args dec where "dec \<noteq> Allowed" "snd r = audited t (ev_now env) cid name args dec ''not_executed''"
  using assms by (auto simp: quiet_def)

lemma quiet_deny: "dec \<noteq> Allowed \<Longrightarrow> quiet env t (deny env s cid tool a dec m t)"
  using deny_cases [of env s cid tool a dec m t] unfolding quiet_def by (metis snd_conv)

lemma check_and_audit_cases:
  obtains (quiet) "quiet env t (check_and_audit cfg env client tool a t)"
  | (forward) args where "a = JObj args"
      "\<not> is_rate_limited t (client_id client) tool (mw_rate_limit_per_min cfg) (ev_now env)"
      "snd (check_and_audit cfg env client tool a t) =
         audited t (ev_now env) (client_id client) (Some tool) args Allowed ''invoked''"
proof (cases "fst (check_and_audit cfg env client tool a t) = Forward")
  case True
  then have *: "check_and_audit cfg env client tool a t = (Forward, snd (check_and_audit cfg env client tool a t))"
    by (metis prod.collapse)
  from * [unfolded check_and_audit_forward] forward show thesis by blast
next
  case False
  then have "quiet env t (check_and_audit cfg env client tool a t)"
    by (auto simp: check_and_audit_def quiet_deny split: sum.splits if_splits)
  with quiet show thesis by blast
qed

lemma middleware_table:
  obtains (same) "snd (middleware cfg env rq t) = t"
  | (denied) cid name args dec where "dec \<noteq> Allowed"
      "snd (middleware cfg env rq t) = audited t (ev_now env) cid name args dec ''not_executed''"
  | (allowed) client tool args where "reads_tools_call cfg rq client (JStr tool) (JObj args)"
      "\<not> is_rate_limited t (client_id client) tool (mw_rate_limit_per_min cfg) (ev_now env)"
      "snd (middleware cfg env rq t) =
         audited t (ev_now env) (client_id client) (Some tool) args Allowed ''invoked''"
proof -
  show thesis
  proof (cases rule: middleware_cases [of cfg env rq t])
    case pass
    with same show thesis by blast
  next
    case unknown
    then have "quiet env t (middleware cfg env rq t)" by (simp add: quiet_deny)
    then show thesis using same denied quietE by metis
  next
    case (call client tool a)
    show thesis
    proof (cases "is_allowed client tool = Inr True")
      case True
      then obtain s where s: "tool = JStr s" by (auto simp: is_allowed_True)
      with True call have "middleware cfg env rq t = check_and_audit cfg env client s a t"
        by (simp add: middleware_reads)
      then show thesis
        using call s same denied allowed quietE [of env t]
          check_and_audit_cases [where cfg = cfg and env = env and client = client and tool = s and a = a and t = t]
        by metis
    next
      case False
      with call have "quiet env t (middleware cfg env rq t)"
        by (cases "is_allowed client tool") (simp_all add: middleware_reads quiet_deny)
      then show thesis using same denied quietE by metis
    qed
  qed
qed

subsection \<open>The window\<close>

definition window_inv :: "int \<Rightarrow> time \<Rightarrow> audit_row table \<Rightarrow> bool" where
  "window_inv limit now t \<longleftrightarrow>
     (\<forall>r \<in> set (tb_rows t). au_created_at r \<le> now) \<and>
     (\<forall>cid tool x. let_through t cid tool x \<le> max 0 limit)"

lemma let_through_le_count:
  assumes "\<not> is_rate_limited t cid tool limit now" "x \<le> now" "now \<le> x + WINDOW"
  shows "let_through t cid tool x < limit"
proof -
  have "length (filter (\<lambda>r. au_client_id r = cid \<and> au_tool r = Some tool \<and>
        au_decision r = ''ALLOWED'' \<and> x \<le> au_created_at r \<and> au_created_at r \<le> x + WINDOW) xs)
      \<le> length (filter (\<lambda>r. au_client_id r = cid \<and> au_tool r = Some tool \<and> now - WINDOW \<le> au_created_at r) xs)"
    for xs
    using assms(3) by (induction xs) auto
  then have "let_through t cid tool x \<le> call_count t cid tool (now - WINDOW)"
    by (simp add: let_through_def call_count_def)
  with assms(1) show ?thesis by (simp add: is_rate_limited_def)
qed

lemma let_through_audited:
  "let_through (audited t now cid name args dec res) c tool x =
     let_through t c tool x +
     (if dec = Allowed \<and> cid = c \<and> name = Some tool \<and> x \<le> now \<and> now \<le> x + WINDOW then 1 else 0)"
  by (cases dec) (auto simp: let_through_def audited_rows)

lemma window_step:
  assumes inv: "window_inv (mw_rate_limit_per_min cfg) before t" and now: "before \<le> ev_now env"
  shows "window_inv (mw_rate_limit_per_min cfg) (ev_now env) (snd (middleware cfg env rq t))"
proof -
  have old: "\<forall>r \<in> set (tb_rows t). au_created_at r \<le> ev_now env"
    using inv now by (auto simp: window_inv_def)
  show ?thesis
  proof (cases rule: middleware_table [of cfg env rq t])
    case same
    with inv old show ?thesis by (simp add: window_inv_def)
  next
    case (denied cid name args dec)
    with inv old show ?thesis by (auto simp: window_inv_def let_through_audited audited_rows)
  next
    case (allowed client tool args)
    with inv old let_through_le_count [OF allowed(2)] show ?thesis
      unfolding window_inv_def by (fastforce simp: let_through_audited audited_rows)
  qed
qed

lemma window_run:
  "sorted (before # map (\<lambda>e. ev_now (fst e)) rqs) \<Longrightarrow> window_inv (mw_rate_limit_per_min cfg) before t \<Longrightarrow>
   \<exists>now. window_inv (mw_rate_limit_per_min cfg) now (run_requests cfg rqs t)"
proof (induction rqs arbitrary: before t)
  case (Cons e rqs)
  obtain env rq where e: "e = (env, rq)" by (cases e)
  have "window_inv (mw_rate_limit_per_min cfg) (ev_now env) (snd (middleware cfg env rq t))"
    using Cons.prems e by (intro window_step [of cfg before]) auto
  with Cons.IH [of "ev_now env"] Cons.prems e show ?case by simp
qed auto

section \<open>Properties\<close>

text \<open>
  C7. A \<open>tools/call\<close> reaches the wrapped application exactly when the caller is permitted the
  tool, both database accesses succeed, the caller is under its rate limit and the arguments are
  a mapping the tool's schema accepts; and then the audit table gained, before the call, exactly
  one row with the caller, the tool and the masked arguments.
\<close>

theorem forward_iff:
  assumes "reads_tools_call cfg rq client tool arguments"
  shows "middleware cfg env rq t = (Forward, t') \<longleftrightarrow>
    (\<exists>name args. tool = JStr name \<and> name \<in> set (allowed_tools client) \<and> arguments = JObj args \<and>
       ev_rate_db env \<and> ev_audit_db env \<and>
       call_count t (client_id client) name (ev_now env - WINDOW) < mw_rate_limit_per_min cfg \<and>
       schema_accepts cfg name arguments \<and>
       tb_seq t' = tb_seq t + 1 \<and>
       tb_rows t' = tb_rows t @
         [\<lparr>au_id = tb_seq t, au_client_id = client_id client, au_tool = Some name,
           au_arguments = mask_pii args, au_decision = ''ALLOWED'', au_result = Some ''invoked'',
           au_created_at = ev_now env\<rparr>])"
proof (cases "is_allowed client tool = Inr True")
  case True
  then obtain name where n: "tool = JStr name" "name \<in> set (allowed_tools client)"
    by (auto simp: is_allowed_True)
  have m: "middleware cfg env rq t = check_and_audit cfg env client name arguments t"
    using middleware_reads [OF assms] True n by simp
  have eq: "t' = audited t now cid (Some name) args Allowed ''invoked'' \<longleftrightarrow>
      tb_seq t' = tb_seq t + 1 \<and> tb_rows t' = tb_rows t @
         [\<lparr>au_id = tb_seq t, au_client_id = cid, au_tool = Some name,
           au_arguments = mask_pii args, au_decision = ''ALLOWED'', au_result = Some ''invoked'',
           au_created_at = now\<rparr>]" for now cid args
    by (cases t; cases t') (auto simp: audited_def insert_row_def)
  show ?thesis unfolding m check_and_audit_forward eq
    using n by (auto simp: is_rate_limited_def)
next
  case False
  then have "fst (middleware cfg env rq t) \<noteq> Forward"
    unfolding middleware_reads [OF assms] by (cases "is_allowed client tool") auto
  with False show ?thesis by (auto simp: is_allowed_True)
qed

definition sample_client :: client_record where
  "sample_client = \<lparr>client_id = ''worker'', token_hash = ''h(secret)'', allowed_tools = [''get_order'']\<rparr>"

definition sample_cfg :: mw_config where
  "sample_cfg = \<lparr>mw_sha256 = (\<lambda>t. ''h('' @ t @ '')''), mw_registry = [sample_client],
     mw_rate_limit_per_min = 1, mw_pydantic = lax_mode, mw_refund_max = Fin (Dec 10000 0)\<rparr>"

definition sample_call :: "json \<Rightarrow> http_request" where
  "sample_call args = \<lparr>sc_type = ''http'', sc_method = ''POST'', sc_authorization = Some ''Bearer secret'',
     sc_body = Some (JObj [(''method'', JStr ''tools/call''),
       (''params'', JObj [(''name'', JStr ''get_order''), (''arguments'', args)])])\<rparr>"

definition sample_env :: "time \<Rightarrow> mw_env" where
  "sample_env now = \<lparr>ev_now = now, ev_rate_db = True, ev_audit_db = True\<rparr>"

definition empty_audit :: "audit_row table" where
  "empty_audit = \<lparr>tb_rows = [], tb_seq = 1\<rparr>"

lemma lower_Bearer: "lower ''Bearer'' = ''bearer''"
  by code_simp

lemma sample_client_found:
  "request_client sample_cfg (sample_call args) = Inr (Some sample_client)"
  by (simp add: request_client_def sample_cfg_def sample_call_def extract_bearer_token_def lower_Bearer
      authenticate_def compare_digest_def is_ascii_def sample_client_def)

lemma sample_reads:
  "d \<noteq> [] \<Longrightarrow> reads_tools_call sample_cfg (sample_call (JObj d)) sample_client (JStr ''get_order'') (JObj d)"
  unfolding reads_tools_call_def sample_client_found
  by (simp add: sample_call_def dget_def py_or_def tool_call_name_def tool_call_arguments_def dget_or_def)

theorem forward_iff_witness:
  "fst (middleware sample_cfg (sample_env 0) (sample_call (JObj [(''order_id'', JStr ''o'')])) empty_audit) = Forward"
proof -
  let ?d = "[(''order_id'', JStr ''o'')]"
  have "middleware sample_cfg (sample_env 0) (sample_call (JObj ?d)) empty_audit =
      (Forward, audited empty_audit 0 ''worker'' (Some ''get_order'') ?d Allowed ''invoked'')"
    unfolding forward_iff [OF sample_reads [of ?d, OF list.distinct(2)]]
    by (simp add: sample_client_def sample_env_def call_count_def empty_audit_def sample_cfg_def
        schema_accepts_def TOOL_ARG_SCHEMAS_def GetOrderArgs_def only_fields_def required_def
        str_min1_def lax_mode_def audited_def insert_row_def)
  then show ?thesis by simp
qed





text \<open>
  Authentication: with ASCII digests it never raises, returns the last registered client
  whose stored hash is the hash of the presented token, and nothing when no stored hash is; a
  header that is missing, has another scheme or an empty token has no client.
\<close>

theorem authenticate_correct:
  assumes "is_ascii (sha token)" and "\<forall>c \<in> set clients. is_ascii (token_hash c)"
  shows "authenticate sha clients token = Inr (find (\<lambda>c. token_hash c = sha token) (rev clients)) \<and>
    (authenticate sha clients token = Inr None \<longleftrightarrow> sha token \<notin> token_hash ` set clients)"
proof -
  obtain r where r: "scan_registry (sha token) clients None = Inr r"
    using scan_registry_total [OF assms] by blast
  then have "r = find (\<lambda>c. token_hash c = sha token) (rev clients)"
    by (auto dest!: scan_registry_find split: option.splits)
  moreover have "find (\<lambda>c. token_hash c = sha token) (rev clients) = None \<longleftrightarrow> sha token \<notin> token_hash ` set clients"
    by (auto simp: find_None_iff image_iff)
  ultimately show ?thesis using r by (simp add: authenticate_def)
qed

theorem authenticate_correct_witness:
  "authenticate (\<lambda>t. ''h('' @ t @ '')'') [sample_client] ''secret'' = Inr (Some sample_client)"
  using authenticate_correct [of "\<lambda>t. ''h('' @ t @ '')''" "''secret''" "[sample_client]"]
  by (simp add: is_ascii_def sample_client_def)

text \<open>
  Masking keeps every key and its place, replaces the value under a personal-data key in any
  letter case, keeps every other value, and masking twice is masking once.
\<close>

theorem mask_pii_hides:
  "map fst (mask_pii d) = map fst d \<and> mask_pii (mask_pii d) = mask_pii d \<and>
   list_all2 (\<lambda>kv kv'. snd kv' = (if lower (fst kv) \<in> set PII_KEYS then JStr MASK else snd kv)) d (mask_pii d)"
  by (auto simp: mask_pii_def list_all2_conv_all_nth case_prod_beta)

lemma split_on_join:
  "list_all (\<lambda>h. c \<notin> set h) hs \<Longrightarrow> hs \<noteq> [] \<Longrightarrow> split_on c (join [c] hs) = hs"
proof (induction "[c]" hs rule: join.induct)
  case (2 x)
  have "c \<notin> set y \<Longrightarrow> split_on c y = [y]" for y by (induction y) auto
  with 2 show ?case by simp
next
  case (3 x y xs)
  have "c \<notin> set u \<Longrightarrow> split_on c (u @ c # v) = u # split_on c v" for u v by (induction u) auto
  with 3 show ?case by simp
qed simp

text \<open>
  The host list: every entry is non-empty and has no outer white space, and joining host
  names without commas or outer white space, with any of them separated by commas, parses to
  exactly these names.
\<close>

theorem parse_hosts_roundtrip:
  "(\<forall>raw. \<forall>h \<in> set (parse_hosts raw). h \<noteq> [] \<and> strip h = h) \<and>
   (\<forall>hs. list_all (\<lambda>h. CHR '','' \<notin> set h \<and> h \<noteq> [] \<and> strip h = h) hs \<longrightarrow> parse_hosts (join '','' hs) = hs)"
proof (intro conjI allI impI)
  fix raw
  show "\<forall>h \<in> set (parse_hosts raw). h \<noteq> [] \<and> strip h = h" by (auto simp: parse_hosts_def)
next
  fix hs :: "string list"
  assume hs: "list_all (\<lambda>h. CHR '','' \<notin> set h \<and> h \<noteq> [] \<and> strip h = h) hs"
  show "parse_hosts (join '','' hs) = hs"
  proof (cases "hs = []")
    case True
    then show ?thesis by (simp add: parse_hosts_def)
  next
    case False
    with hs have "split_on CHR '','' (join '','' hs) = hs"
      by (intro split_on_join) (auto simp: list_all_iff)
    with hs show ?thesis by (simp add: parse_hosts_def list_all_iff filter_True map_idI)
  qed
qed

theorem parse_hosts_roundtrip_witness:
  "parse_hosts (join '','' [''a.example'', ''b'']) = [''a.example'', ''b'']"
proof -
  have "list_all (\<lambda>h. CHR '','' \<notin> set h \<and> h \<noteq> [] \<and> strip h = h) [''a.example'', ''b'']"
    by (simp add: strip_def is_space_def)
  with parse_hosts_roundtrip show ?thesis by blast
qed

end
