(* ===== verification/Mcp_Server.thy ===== *)
theory Mcp_Server
  imports Evidence_Check Mcp_Security
begin

text \<open>
  The tools of the MCP server (\<open>src/mcp_server/mcp_server.py\<close>) over its database, and one HTTP
  request against the application that \<open>create_app\<close> builds: the security middleware in front
  of the tools. A tool gets its parameters from the call's arguments by pydantic, with the
  defaults of its signature; an exception of a tool becomes an error result.
\<close>

record mcp_db =
  md_orders :: "order_row table"
  md_refunds :: "refund_row table"
  md_audit :: "audit_row table"

section \<open>The tools\<close>

definition refund_result :: "refund_row \<Rightarrow> bool \<Rightarrow> dict" where
  "refund_result refund created =
     [(''status'', JStr (if created then ''executed'' else ''already_executed'')),
      (''refund_id'', JInt (rf_id refund)),
      (''request_id'', JStr (rf_request_id refund)),
      (''transaction_id'', JStr (rf_transaction_id refund)),
      (''amount'', JFloat (float_of_cents (rf_amount refund))),
      (''currency'', JStr (rf_currency refund))]"

definition execute_refund ::
  "time \<Rightarrow> string \<Rightarrow> string \<Rightarrow> pyfloat \<Rightarrow> string \<Rightarrow> mcp_db \<Rightarrow> (dict \<times> mcp_db) res" where
  "execute_refund now request_id transaction_id amount currency db =
     bindR (record_refund now request_id transaction_id amount currency (md_refunds db))
       (\<lambda>(refund, created, t). Inr (refund_result refund created, db\<lparr>md_refunds := t\<rparr>))"

definition order_json :: "order_row \<Rightarrow> dict" where
  "order_json order =
     [(''order_id'', JStr (or_order_id order)),
      (''user_id'', JStr (or_user_id order)),
      (''amount'', JFloat (float_of_cents (or_amount order))),
      (''currency'', JStr (or_currency order)),
      (''created_at'', JStr (isoformat (or_created_at order)))]"

definition get_order :: "string \<Rightarrow> mcp_db \<Rightarrow> dict res" where
  "get_order order_id db =
     bindR (get_order_row (md_orders db) order_id) (\<lambda>order.
       case order of
         None \<Rightarrow> Inr [(''status'', JStr ''not_found''), (''order_id'', JStr order_id)]
       | Some o' \<Rightarrow> Inr [(''status'', JStr ''found''), (''order'', JObj (order_json o'))])"

definition listed_of :: "refund_row \<Rightarrow> listed_refund" where
  "listed_of refund =
     \<lparr>lr_request_id = rf_request_id refund, lr_order_id = rf_transaction_id refund,
      lr_cents = rf_amount refund, lr_currency = rf_currency refund,
      lr_created_at = isoformat (rf_created_at refund)\<rparr>"

definition get_refund_history :: "string \<Rightarrow> int \<Rightarrow> mcp_db \<Rightarrow> dict res" where
  "get_refund_history user_id limit db =
     (let (refund_count, totals) = summarize_refunds_for_user (md_orders db) (md_refunds db) user_id
      in bindR (list_refunds_for_user (md_orders db) (md_refunds db) user_id limit) (\<lambda>refunds.
         Inr [(''user_id'', JStr user_id),
              (''refund_count'', JInt refund_count),
              (''totals_by_currency'',
                 JObj (map (\<lambda>ct. (fst ct, JFloat (float_of_cents (snd ct)))) totals)),
              (''refunds'', JList (map (\<lambda>r. listed_json (listed_of r)) refunds))]))"

definition validate_fraud_score :: "string \<Rightarrow> pyfloat" where
  "validate_fraud_score user_id = Fin (Dec 12 (- 2))"

section \<open>Calling a tool by name\<close>

definition bad_arguments :: "'a res" where
  "bad_arguments = raise_exn ''ToolError''"

definition need :: "'a option \<Rightarrow> ('a \<Rightarrow> 'b res) \<Rightarrow> 'b res" where
  "need v f = (case v of None \<Rightarrow> bad_arguments | Some x \<Rightarrow> f x)"

definition run_tool :: "pydantic \<Rightarrow> time \<Rightarrow> string \<Rightarrow> dict \<Rightarrow> mcp_db \<Rightarrow> (dict \<times> mcp_db) res" where
  "run_tool P now tool args db =
     (if tool = ''execute_refund''
      then need (required args ''request_id'' (coerce_str P)) (\<lambda>request_id.
           need (required args ''transaction_id'' (coerce_str P)) (\<lambda>transaction_id.
           need (required args ''amount'' (coerce_float P)) (\<lambda>amount.
           need (defaulted args ''currency'' (currency_value USD) (coerce_str P)) (\<lambda>currency.
             execute_refund now request_id transaction_id amount currency db))))
      else if tool = ''get_order''
      then need (required args ''order_id'' (coerce_str P)) (\<lambda>order_id.
           bindR (get_order order_id db) (\<lambda>d. Inr (d, db)))
      else if tool = ''get_refund_history''
      then need (required args ''user_id'' (coerce_str P)) (\<lambda>user_id.
           need (defaulted args ''limit'' 20 (coerce_int P)) (\<lambda>limit.
           bindR (get_refund_history user_id limit db) (\<lambda>d. Inr (d, db))))
      else if tool = ''validate_fraud_score''
      then need (required args ''user_id'' (coerce_str P)) (\<lambda>user_id.
           Inr ([(''result'', JFloat (validate_fraud_score user_id))], db))
      else bad_arguments)"

lemma need_Inr [res_simps]: "need v f = Inr y \<longleftrightarrow> (\<exists>x. v = Some x \<and> f x = Inr y)"
  by (auto simp: need_def bad_arguments_def split: option.splits)

lemma need_Some [simp]: "need (Some x) f = f x"
  by (simp add: need_def)

section \<open>One request against the application\<close>

text \<open>
  What the application answers to an HTTP request: a status of the boundary, the exception that
  left it, the result of a tool, or plain acceptance of a request that calls no tool.
\<close>

datatype answer = Status nat | ServerError | Accepted | ToolResult "dict res"

definition called_tool :: "http_request \<Rightarrow> (string \<times> dict) option" where
  "called_tool rq =
     (case parse_jsonrpc_message (sc_body rq) of
        None \<Rightarrow> None
      | Some msg \<Rightarrow>
          if sc_method rq = ''POST'' \<and> dget msg ''method'' = JStr ''tools/call''
          then (case py_or (dget msg ''params'') (JObj []) of
                  JObj params \<Rightarrow>
                    (case tool_call_arguments params of
                       JObj args \<Rightarrow> Some (py_str (tool_call_name params), args)
                     | _ \<Rightarrow> None)
                | _ \<Rightarrow> None)
          else None)"

definition app ::
  "mw_config \<Rightarrow> mw_env \<Rightarrow> http_request \<Rightarrow> mcp_db \<Rightarrow> answer \<times> mcp_db" where
  "app cfg env rq db =
     (let (out, audit') = middleware cfg env rq (md_audit db); db' = db\<lparr>md_audit := audit'\<rparr>
      in case out of
           Respond s _ \<Rightarrow> (Status s, db')
         | Raised _ \<Rightarrow> (ServerError, db')
         | Forward \<Rightarrow>
             (case called_tool rq of
                None \<Rightarrow> (Accepted, db')
              | Some (tool, args) \<Rightarrow>
                  (case run_tool (mw_pydantic cfg) (ev_now env) tool args db' of
                     Inl e \<Rightarrow> (ToolResult (Inl e), db')
                   | Inr (d, db'') \<Rightarrow> (ToolResult (Inr d), db''))))"

section \<open>Lemmas\<close>

definition db_inv :: "mcp_db \<Rightarrow> bool" where
  "db_inv db \<longleftrightarrow> orders_inv (md_orders db) \<and> ledger_inv (md_refunds db)"

text \<open>
  A refund recorded at most once: the ledger's rows stay, or one row is added for a request that
  had none.
\<close>

definition at_most_once ::
  "string \<Rightarrow> string \<Rightarrow> int \<Rightarrow> string \<Rightarrow> refund_row table \<Rightarrow> refund_row table \<Rightarrow> bool" where
  "at_most_once rid oid cents cur t t' \<longleftrightarrow>
     tb_rows t' = tb_rows t \<or>
     find_refund rid t = None \<and>
       (\<exists>r. tb_rows t' = tb_rows t @ [r] \<and> rf_request_id r = rid \<and> rf_transaction_id r = oid \<and>
            rf_amount r = cents \<and> rf_currency r = cur)"

lemma at_most_once_refl [simp]: "at_most_once rid oid cents cur t t"
  by (simp add: at_most_once_def)

lemma find_refund_rows: "tb_rows t' = tb_rows t \<Longrightarrow> find_refund rid t' = find_refund rid t"
  by (simp add: find_refund_def lookup_key_def)

lemma at_most_once_trans:
  assumes "at_most_once rid oid cents cur t t'" "at_most_once rid oid cents cur t' t''"
  shows "at_most_once rid oid cents cur t t''"
proof (cases "tb_rows t' = tb_rows t")
  case True
  with assms(2) find_refund_rows [OF True] show ?thesis by (simp add: at_most_once_def)
next
  case False
  with assms(1) obtain r where r: "tb_rows t' = tb_rows t @ [r]" "rf_request_id r = rid"
    by (auto simp: at_most_once_def)
  then have "find_refund rid t' \<noteq> None" by (auto simp: find_refund_append split: option.splits)
  then have "tb_rows t'' = tb_rows t'" using assms(2) by (auto simp: at_most_once_def)
  with assms(1) show ?thesis by (simp add: at_most_once_def)
qed

lemma at_most_once_refunded:
  assumes "at_most_once rid oid cents cur t t'"
  shows "refunded_on k t' = refunded_on k t + (if k = oid \<and> tb_rows t' \<noteq> tb_rows t then cents else 0)"
  using assms by (auto simp: at_most_once_def refunded_on_def)

lemma execute_refund_Inr [res_simps]:
  "execute_refund now rid oid amt cur db = Inr y \<longleftrightarrow>
     (\<exists>r c t. record_refund now rid oid amt cur (md_refunds db) = Inr (r, c, t) \<and>
        y = (refund_result r c, db\<lparr>md_refunds := t\<rparr>))"
  by (auto simp: execute_refund_def res_simps)

lemma record_refund_at_most_once:
  assumes "ledger_inv t" "dec_of_float amt = Inr d" "record_refund now rid oid amt cur t = Inr (r, c, t')"
  shows "at_most_once rid oid (cents_of d) cur t t'"
  using assms(1,3) by (cases rule: record_refund_cases) (use assms(2) in \<open>auto simp: at_most_once_def\<close>)

lemma record_refund_found:
  assumes "ledger_inv t" "record_refund now rid oid amt cur t = Inr (r, c, t')"
  shows "find_refund rid t' = Some r"
  using refund_store.put_get [of t "(now, \<lparr>ra_request_id = rid, ra_transaction_id = oid, ra_amount = amt, ra_currency = cur\<rparr>)" r c t'] assms
  by (simp add: put_refund_def)

lemma run_tool_cases:
  assumes "run_tool P now tool args db = Inr (res, db')"
  obtains (refund) rid oid amt cur r c t where "tool = ''execute_refund''"
      "required args ''request_id'' (coerce_str P) = Some rid"
      "required args ''transaction_id'' (coerce_str P) = Some oid"
      "required args ''amount'' (coerce_float P) = Some amt"
      "defaulted args ''currency'' (currency_value USD) (coerce_str P) = Some cur"
      "record_refund now rid oid amt cur (md_refunds db) = Inr (r, c, t)"
      "res = refund_result r c" "db' = db\<lparr>md_refunds := t\<rparr>"
  | (read) "tool \<noteq> ''execute_refund''" "db' = db"
proof (cases "tool = ''execute_refund''")
  case True
  with assms refund show thesis by (auto simp: run_tool_def res_simps)
next
  case False
  with assms have "db' = db" by (auto simp: run_tool_def res_simps bad_arguments_def split: if_splits)
  with False read show thesis by blast
qed

lemma run_tool_inv [step_inv]:
  assumes "db_inv db" "run_tool P now tool args db = Inr (res, db')"
  shows "db_inv db'"
  using assms(2) by (cases rule: run_tool_cases) (use assms(1) in \<open>auto simp: db_inv_def intro: record_refund_inv\<close>)

lemma app_cases:
  obtains (quiet) au where "snd (app cfg env rq db) = db\<lparr>md_audit := au\<rparr>"
      "\<nexists>d. fst (app cfg env rq db) = ToolResult (Inr d)"
  | (ran) au tool args d db' where "called_tool rq = Some (tool, args)"
      "middleware cfg env rq (md_audit db) = (Forward, au)"
      "run_tool (mw_pydantic cfg) (ev_now env) tool args (db\<lparr>md_audit := au\<rparr>) = Inr (d, db')"
      "app cfg env rq db = (ToolResult (Inr d), db')"
proof -
  obtain out au where m: "middleware cfg env rq (md_audit db) = (out, au)"
    by (cases "middleware cfg env rq (md_audit db)")
  show thesis
  proof (cases out)
    case Forward
    show thesis
    proof (cases "called_tool rq")
      case None
      with m Forward show thesis by (intro quiet [of au]) (simp_all add: app_def)
    next
      case (Some ta)
      obtain tool args where ta: "ta = (tool, args)" by (cases ta)
      show thesis
      proof (cases "run_tool (mw_pydantic cfg) (ev_now env) tool args (db\<lparr>md_audit := au\<rparr>)")
        case (Inl e)
        with m Forward Some ta show thesis by (intro quiet [of au]) (simp_all add: app_def)
      next
        case (Inr y)
        obtain d db' where "y = (d, db')" by (cases y)
        with m Forward Some ta Inr show thesis by (intro ran [of tool args au d db']) (simp_all add: app_def)
      qed
    qed
  qed (use m in \<open>auto intro!: quiet [of au] simp: app_def\<close>)
qed

lemma app_inv [step_inv]: "db_inv db \<Longrightarrow> db_inv (snd (app cfg env rq db))"
proof (cases rule: app_cases [of cfg env rq db])
  case (quiet au)
  then show "db_inv db \<Longrightarrow> ?thesis" by (simp add: db_inv_def)
next
  case (ran au tool args d db')
  assume "db_inv db"
  then have "db_inv (db\<lparr>md_audit := au\<rparr>)" by (simp add: db_inv_def)
  from run_tool_inv [OF this ran(3)] ran(4) show ?thesis by simp
qed

end
