(* ===== verification/Mcp_Client.thy ===== *)
theory Mcp_Client
  imports Mcp_Server
begin

text \<open>
  The worker's side of a tool call (\<open>src/worker/mcp_client.py\<close>,
  \<open>src/worker/refund_executor.py\<close>): errors and how they are told apart, one attempt, the
  retry loop, the refund executor. What one attempt does to the outside world is an argument of
  the loop; the locale \<open>tool_endpoint\<close> states what the caller relies on and proves the
  client's lemmas once, and the interpretation at the end discharges it for the boundary and the
  tools of \<open>Mcp_Server\<close> under any schedule of lost messages.
\<close>

section \<open>Errors\<close>

text \<open>
  An exception as the client sees it: a group of exceptions, an HTTP status error, or any other
  exception with its class and text.
\<close>

datatype error = ErrorGroup "error list" | HttpStatusError nat string | OtherError string string

fun describe_error :: "error \<Rightarrow> string" where
  "describe_error (ErrorGroup es) = join ''; '' (map describe_error es)"
| "describe_error (HttpStatusError status text) = ''HTTPStatusError: '' @ text"
| "describe_error (OtherError cls text) = cls @ '': '' @ text"

definition RETRYABLE_CLIENT_ERRORS :: "nat list" where
  "RETRYABLE_CLIENT_ERRORS = [408, 429]"

fun is_permanent_rejection :: "error \<Rightarrow> bool" where
  "is_permanent_rejection (ErrorGroup es) = list_ex is_permanent_rejection es"
| "is_permanent_rejection (HttpStatusError status text) =
     (400 \<le> status \<and> status < 500 \<and> status \<notin> set RETRYABLE_CLIENT_ERRORS)"
| "is_permanent_rejection (OtherError cls text) = False"

text \<open>The leaves of an error.\<close>

fun error_leaves :: "error \<Rightarrow> error list" where
  "error_leaves (ErrorGroup es) = concat (map error_leaves es)"
| "error_leaves e = [e]"

section \<open>One attempt\<close>

text \<open>What the session's \<open>call_tool\<close> returned.\<close>

datatype sdk_result =
    NotAToolResult string
  | CallToolResult (is_error: bool) (texts: "string list") (structured_content: "json option")

text \<open>The rest of \<open>_call_tool_once\<close> once the session has ended.\<close>

definition read_result :: "string \<Rightarrow> sdk_result \<Rightarrow> error + dict" where
  "read_result tool result =
     (case result of
        NotAToolResult type_name \<Rightarrow>
          Inl (OtherError ''McpToolError'' (tool @ '' returned '' @ type_name @ '', not a tool result''))
      | CallToolResult err ts structured \<Rightarrow>
          if err then Inl (OtherError ''McpToolError'' (tool @ '' returned an error: '' @ join '' '' ts))
          else case structured of
                 Some (JObj d) \<Rightarrow> Inr d
               | _ \<Rightarrow> Inl (OtherError ''McpToolError'' (tool @ '' returned no structured result'')))"

text \<open>A session: the outcome of the network call, and the world after it.\<close>

type_synonym 's session = "string \<Rightarrow> dict \<Rightarrow> 's \<Rightarrow> (error + sdk_result) \<times> 's"

definition call_tool_once :: "'s session \<Rightarrow> string \<Rightarrow> dict \<Rightarrow> 's \<Rightarrow> (error + dict) \<times> 's" where
  "call_tool_once call tool arguments s =
     (let (r, s') = call tool arguments s
      in (case r of Inl e \<Rightarrow> Inl e | Inr result \<Rightarrow> read_result tool result, s'))"

section \<open>The retry loop\<close>

record mcp_call_policy =
  po_max_retries :: int
  po_backoff_base_seconds :: rat

definition policy_from_settings :: "settings \<Rightarrow> mcp_call_policy" where
  "policy_from_settings S =
     \<lparr>po_max_retries = MCP_TOOL_MAX_RETRIES S,
      po_backoff_base_seconds = MCP_TOOL_BACKOFF_BASE_SECONDS S\<rparr>"

text \<open>
  The loop from attempt number \<open>attempt\<close> with \<open>left\<close> attempts to go; \<open>last\<close> is the last
  error. It returns the outcome, the delays slept and the world.
\<close>

fun retry_loop ::
  "'s session \<Rightarrow> string \<Rightarrow> dict \<Rightarrow> rat \<Rightarrow> nat \<Rightarrow> nat \<Rightarrow> error option \<Rightarrow> 's
   \<Rightarrow> (error option + dict) \<times> rat list \<times> 's" where
  "retry_loop call tool arguments base attempt 0 last_error s = (Inl last_error, [], s)"
| "retry_loop call tool arguments base attempt (Suc left) last_error s =
     (let delay = (if 0 < attempt then [base * 2 ^ (attempt - 1)] else [])
      in case call_tool_once call tool arguments s of
           (Inr d, s') \<Rightarrow> (Inr d, delay, s')
         | (Inl e, s') \<Rightarrow>
             if is_permanent_rejection e then (Inl (Some e), delay, s')
             else let (r, delays, s'') = retry_loop call tool arguments base (Suc attempt) left (Some e) s'
                  in (r, delay @ delays, s''))"

text \<open>\<open>call_tool_with_retry\<close>; the left value is the text of the \<open>McpCallError\<close>.\<close>

definition call_tool_with_retry ::
  "'s session \<Rightarrow> mcp_call_policy \<Rightarrow> string \<Rightarrow> dict \<Rightarrow> 's \<Rightarrow> (string + dict) \<times> rat list \<times> 's" where
  "call_tool_with_retry call policy tool arguments s =
     (let (r, delays, s') = retry_loop call tool arguments (po_backoff_base_seconds policy) 0
            (nat (po_max_retries policy)) None s
      in (case r of Inr d \<Rightarrow> Inr d
          | Inl None \<Rightarrow> Inl ''no attempts made''
          | Inl (Some e) \<Rightarrow> Inl (describe_error e), delays, s'))"

section \<open>The refund executor\<close>

definition refund_arguments :: "string \<Rightarrow> json \<Rightarrow> json \<Rightarrow> json \<Rightarrow> dict" where
  "refund_arguments request_id transaction_id amount currency =
     [(''request_id'', JStr request_id), (''transaction_id'', transaction_id),
      (''amount'', amount), (''currency'', currency)]"

definition execute_refund_via_mcp ::
  "'s session \<Rightarrow> mcp_call_policy \<Rightarrow> string \<Rightarrow> json \<Rightarrow> json \<Rightarrow> json \<Rightarrow> 's
   \<Rightarrow> (string + dict) \<times> rat list \<times> 's" where
  "execute_refund_via_mcp call policy request_id transaction_id amount currency s =
     call_tool_with_retry call policy ''execute_refund''
       (refund_arguments request_id transaction_id amount currency) s"

section \<open>The loop\<close>

lemma is_permanent_rejection_leaves:
  "is_permanent_rejection e \<longleftrightarrow>
     (\<exists>leaf \<in> set (error_leaves e). \<exists>status text. leaf = HttpStatusError status text \<and>
        400 \<le> status \<and> status < 500 \<and> status \<noteq> 408 \<and> status \<noteq> 429)"
  by (induction e rule: is_permanent_rejection.induct)
    (auto simp: list_ex_iff RETRYABLE_CLIENT_ERRORS_def)

text \<open>Every relation that one attempt establishes and that is transitive holds of the loop.\<close>

lemma retry_loop_rel:
  assumes refl: "\<And>s. R s s" and trans: "\<And>s s' s''. R s s' \<Longrightarrow> R s' s'' \<Longrightarrow> R s s''"
    and step: "\<And>s. R s (snd (call tool arguments s))"
  shows "R s (snd (snd (retry_loop call tool arguments base attempt left last_error s)))"
proof (induction left arbitrary: attempt last_error s)
  case 0
  then show ?case by (simp add: refl)
next
  case (Suc left)
  have "R s (snd (call_tool_once call tool arguments s))"
    using step by (simp add: call_tool_once_def case_prod_beta)
  then show ?case
    using Suc.IH by (auto simp: case_prod_beta split: sum.splits prod.splits intro: trans)
qed

lemma retry_rel:
  assumes "\<And>s. R s s" "\<And>s s' s''. R s s' \<Longrightarrow> R s' s'' \<Longrightarrow> R s s''"
    and "\<And>s. R s (snd (call tool arguments s))"
    and "call_tool_with_retry call policy tool arguments s = (r, ds, s')"
  shows "R s s'"
proof -
  have "s' = snd (snd (retry_loop call tool arguments (po_backoff_base_seconds policy) 0
      (nat (po_max_retries policy)) None s))"
    using assms(4) by (auto simp: call_tool_with_retry_def case_prod_beta)
  with retry_loop_rel [of R call tool arguments, OF assms(1-3)] show ?thesis by simp
qed

text \<open>When the loop returns a result, the last attempt returned it.\<close>

lemma retry_loop_result:
  assumes "retry_loop call tool arguments base attempt left last_error s = (Inr d, delays, s')"
  shows "\<exists>u. snd (call tool arguments u) = s' \<and>
    (\<exists>ts. fst (call tool arguments u) = Inr (CallToolResult False ts (Some (JObj d)))) \<and>
    (\<forall>R. (\<forall>v. R v v) \<longrightarrow> (\<forall>a b c. R a b \<longrightarrow> R b c \<longrightarrow> R a c) \<longrightarrow>
       (\<forall>v. R v (snd (call tool arguments v))) \<longrightarrow> R s u)"
  using assms
proof (induction left arbitrary: attempt last_error s delays)
  case (Suc left)
  obtain r v where c: "call tool arguments s = (r, v)" by (cases "call tool arguments s")
  show ?case
  proof (cases "call_tool_once call tool arguments s")
    case (Pair o' w)
    then have w: "w = v" using c by (simp add: call_tool_once_def)
    show ?thesis
    proof (cases o')
      case (Inr d')
      with Pair Suc.prems w have "d' = d" "s' = v" by auto
      with Pair Inr c have "\<exists>ts. r = Inr (CallToolResult False ts (Some (JObj d)))"
        by (auto simp: call_tool_once_def read_result_def
            split: sum.splits sdk_result.splits if_splits option.splits json.splits)
      with c \<open>s' = v\<close> show ?thesis by (intro exI [of _ s]) simp
    next
      case (Inl e)
      with Pair Suc.prems w obtain ds where
        "retry_loop call tool arguments base (Suc attempt) left (Some e) v = (Inr d, ds, s')"
        by (auto simp: Let_def case_prod_beta prod_eq_iff split: if_splits)
      from Suc.IH [OF this] c show ?thesis by (metis snd_conv)
    qed
  qed
qed simp

text \<open>
  The reference: the outcomes of \<open>n\<close> attempts one after the other, each with the world after
  it. The loop stops at the first decisive one, a result or a permanent rejection.
\<close>

fun attempts :: "'s session \<Rightarrow> string \<Rightarrow> dict \<Rightarrow> nat \<Rightarrow> 's \<Rightarrow> ((error + dict) \<times> 's) list" where
  "attempts call tool arguments 0 s = []"
| "attempts call tool arguments (Suc n) s =
     call_tool_once call tool arguments s
       # attempts call tool arguments n (snd (call_tool_once call tool arguments s))"

definition decisive :: "(error + dict) \<times> 's \<Rightarrow> bool" where
  "decisive o' = (case fst o' of Inr d \<Rightarrow> True | Inl e \<Rightarrow> is_permanent_rejection e)"

definition last_attempt :: "((error + dict) \<times> 's) list \<Rightarrow> nat" where
  "last_attempt outs = min (length (takeWhile (\<lambda>o'. \<not> decisive o') outs)) (length outs - 1)"

definition loop_outcome :: "error + dict \<Rightarrow> error option + dict" where
  "loop_outcome r = (case r of Inr d \<Rightarrow> Inr d | Inl e \<Rightarrow> Inl (Some e))"

lemma attempts_length [simp]: "length (attempts call tool arguments n s) = n"
  by (induction n arbitrary: s) auto

text \<open>The delays slept from attempt \<open>a\<close> on, over \<open>i\<close> further attempts.\<close>

definition backoff :: "rat \<Rightarrow> nat \<Rightarrow> nat \<Rightarrow> rat list" where
  "backoff base a i = map (\<lambda>j. base * 2 ^ (j - 1)) (filter (\<lambda>j. 0 < j) [a ..< a + i + 1])"

lemma backoff_0: "backoff base a 0 = (if 0 < a then [base * 2 ^ (a - 1)] else [])"
  by (simp add: backoff_def)

lemma backoff_Suc: "backoff base a (Suc i) = (if 0 < a then [base * 2 ^ (a - 1)] else []) @ backoff base (Suc a) i"
  by (simp add: backoff_def upt_conv_Cons)

lemma backoff_start: "backoff base 0 i = map (\<lambda>j. base * 2 ^ j) [0 ..< i]"
proof -
  have "filter (\<lambda>j. 0 < j) [0 ..< 0 + i + 1] = map Suc [0 ..< i]"
    by (simp add: upt_conv_Cons map_Suc_upt del: upt_Suc)
  then show ?thesis by (simp add: backoff_def del: upt_Suc)
qed

lemma last_attempt_Cons:
  "outs \<noteq> [] \<Longrightarrow> last_attempt (x # outs) = (if decisive x then 0 else Suc (last_attempt outs))"
  by (cases outs) (auto simp: last_attempt_def)

lemma retry_loop_reference:
  "retry_loop call tool arguments base a (Suc n) le s =
     (let outs = attempts call tool arguments (Suc n) s; i = last_attempt outs
      in (loop_outcome (fst (outs ! i)), backoff base a i, snd (outs ! i)))"
proof (induction n arbitrary: a le s)
  case 0
  obtain o' w where c: "call_tool_once call tool arguments s = (o', w)"
    by (cases "call_tool_once call tool arguments s")
  then show ?case
    by (cases o') (auto simp: last_attempt_def loop_outcome_def Let_def backoff_0)
next
  case (Suc n)
  obtain o' w where c: "call_tool_once call tool arguments s = (o', w)"
    by (cases "call_tool_once call tool arguments s")
  define rest where "rest = attempts call tool arguments (Suc n) w"
  have ne: "rest \<noteq> []" by (simp add: rest_def)
  have outs: "attempts call tool arguments (Suc (Suc n)) s = (o', w) # rest"
    by (simp add: c rest_def)
  show ?case
  proof (cases o')
    case (Inr d)
    then have i: "last_attempt ((o', w) # rest) = 0"
      by (simp add: last_attempt_Cons [OF ne] decisive_def)
    from Inr c show ?thesis unfolding outs Let_def i by (simp add: backoff_0 loop_outcome_def)
  next
    case (Inl e)
    show ?thesis
    proof (cases "is_permanent_rejection e")
      case True
      with Inl have i: "last_attempt ((o', w) # rest) = 0"
        by (simp add: last_attempt_Cons [OF ne] decisive_def)
      from Inl True c show ?thesis unfolding outs Let_def i by (simp add: backoff_0 loop_outcome_def)
    next
      case False
      with Inl have i: "last_attempt ((o', w) # rest) = Suc (last_attempt rest)"
        by (simp add: last_attempt_Cons [OF ne] decisive_def)
      have "retry_loop call tool arguments base (Suc a) (Suc n) (Some e) w =
          (loop_outcome (fst (rest ! last_attempt rest)), backoff base (Suc a) (last_attempt rest),
           snd (rest ! last_attempt rest))"
        using Suc.IH [of "Suc a" "Some e" w] by (simp only: Let_def rest_def)
      then show ?thesis unfolding outs Let_def i retry_loop.simps(2) [of call tool arguments base a "Suc n"]
        using c Inl False by (simp add: backoff_Suc del: retry_loop.simps)
    qed
  qed
qed

lemma last_attempt_less: "outs \<noteq> [] \<Longrightarrow> last_attempt outs < length outs"
  by (cases outs) (auto simp: last_attempt_def)

section \<open>What the client relies on\<close>

text \<open>Some row for the request may have been added, whatever it says.\<close>

definition refund_for :: "string \<Rightarrow> refund_row table \<Rightarrow> refund_row table \<Rightarrow> bool" where
  "refund_for rid t t' \<longleftrightarrow> (\<exists>oid cents cur. at_most_once rid oid cents cur t t')"

lemma refund_for_refl [simp]: "refund_for rid t t"
  by (simp add: refund_for_def)

lemma refund_for_trans:
  assumes "refund_for rid t t'" "refund_for rid t' t''"
  shows "refund_for rid t t''"
proof (cases "tb_rows t' = tb_rows t")
  case True
  with assms(2) find_refund_rows [OF True] show ?thesis by (simp add: refund_for_def at_most_once_def)
next
  case False
  with assms(1) obtain r where r: "tb_rows t' = tb_rows t @ [r]" "rf_request_id r = rid"
    by (auto simp: refund_for_def at_most_once_def)
  then have "find_refund rid t' \<noteq> None" by (auto simp: find_refund_append split: option.splits)
  then have "tb_rows t'' = tb_rows t'" using assms(2) by (auto simp: refund_for_def at_most_once_def)
  with assms(1) show ?thesis by (simp add: refund_for_def at_most_once_def)
qed

lemma refund_for_keeps:
  assumes "refund_for rid t t'" "find_refund k t = Some r"
  shows "find_refund k t' = Some r"
  using assms by (auto simp: refund_for_def at_most_once_def find_refund_append dest: find_refund_rows [of t' t k])

text \<open>
  An endpoint through which tools are called: a session per attempt, the ledger behind it, and
  the invariant of that ledger. The laws say what an attempt may do, whether or not its answer
  arrives: only \<open>execute_refund\<close> touches the ledger, and only with a row for its
  \<open>request_id\<close>, with the amount, order and currency of the call; an answer that does arrive
  describes the row on file.
\<close>

locale tool_endpoint =
  fixes call :: "string \<Rightarrow> dict \<Rightarrow> 's \<Rightarrow> (error + sdk_result) \<times> 's"
    and ledger :: "'s \<Rightarrow> refund_row table"
    and inv :: "'s \<Rightarrow> bool"
  assumes call_inv: "inv s \<Longrightarrow> inv (snd (call tool args s))"
    and read_only: "inv s \<Longrightarrow> tool \<noteq> ''execute_refund'' \<Longrightarrow> ledger (snd (call tool args s)) = ledger s"
    and refund_key: "inv s \<Longrightarrow> dget args ''request_id'' = JStr rid \<Longrightarrow>
      refund_for rid (ledger s) (ledger (snd (call ''execute_refund'' args s)))"
    and refund_effect: "inv s \<Longrightarrow>
      at_most_once rid oid (cents_of d) cur (ledger s)
        (ledger (snd (call ''execute_refund'' (refund_arguments rid (JStr oid) (JFloat (Fin d)) (JStr cur)) s)))"
    and refund_answer: "inv s \<Longrightarrow> dget args ''request_id'' = JStr rid \<Longrightarrow>
      call ''execute_refund'' args s = (Inr (CallToolResult False ts (Some (JObj res))), s') \<Longrightarrow>
      \<exists>r c. find_refund rid (ledger s') = Some r \<and> res = refund_result r c"
begin

lemma retry_inv:
  assumes "inv s" "call_tool_with_retry call policy tool args s = (r, ds, s')"
  shows "inv s'"
  using retry_rel [where R = "\<lambda>a b. inv a \<longrightarrow> inv b", OF _ _ _ assms(2)] call_inv assms(1) by blast

lemma retry_read_only:
  assumes "inv s" "tool \<noteq> ''execute_refund''" "call_tool_with_retry call policy tool args s = (r, ds, s')"
  shows "ledger s' = ledger s"
proof -
  have "inv s \<longrightarrow> inv s' \<and> ledger s' = ledger s"
    by (rule retry_rel [OF _ _ _ assms(3)]) (use assms(2) call_inv read_only in auto)
  with assms(1) show ?thesis by blast
qed

lemma retry_refund_key:
  assumes "inv s" "dget args ''request_id'' = JStr rid"
    and "call_tool_with_retry call policy ''execute_refund'' args s = (r, ds, s')"
  shows "refund_for rid (ledger s) (ledger s')"
proof -
  have "inv s \<longrightarrow> inv s' \<and> refund_for rid (ledger s) (ledger s')"
    by (rule retry_rel [OF _ _ _ assms(3)]) (use assms(2) call_inv refund_key in \<open>auto intro: refund_for_trans\<close>)
  with assms(1) show ?thesis by blast
qed

lemma retry_refund_effect:
  assumes "inv s"
    and "execute_refund_via_mcp call policy rid (JStr oid) (JFloat (Fin d)) (JStr cur) s = (r, ds, s')"
  shows "at_most_once rid oid (cents_of d) cur (ledger s) (ledger s')"
proof -
  have "inv s \<longrightarrow> inv s' \<and> at_most_once rid oid (cents_of d) cur (ledger s) (ledger s')"
    by (rule retry_rel [OF _ _ _ assms(2) [unfolded execute_refund_via_mcp_def]])
      (use call_inv refund_effect in \<open>auto intro: at_most_once_trans\<close>)
  with assms(1) show ?thesis by blast
qed

lemma retry_refund_answer:
  assumes inv: "inv s" and key: "dget args ''request_id'' = JStr rid"
    and run: "call_tool_with_retry call policy ''execute_refund'' args s = (Inr res, ds, s')"
  shows "\<exists>r c. find_refund rid (ledger s') = Some r \<and> res = refund_result r c"
proof -
  from run obtain delays where "retry_loop call ''execute_refund'' args (po_backoff_base_seconds policy) 0
      (nat (po_max_retries policy)) None s = (Inr res, delays, s')"
    by (auto simp: call_tool_with_retry_def case_prod_beta prod_eq_iff split: sum.splits option.splits)
  from retry_loop_result [OF this] obtain u ts where
    u: "snd (call ''execute_refund'' args u) = s'"
       "fst (call ''execute_refund'' args u) = Inr (CallToolResult False ts (Some (JObj res)))"
    and rel: "\<And>R. (\<forall>v. R v v) \<Longrightarrow> (\<forall>a b c. R a b \<longrightarrow> R b c \<longrightarrow> R a c) \<Longrightarrow>
       (\<forall>v. R v (snd (call ''execute_refund'' args v))) \<Longrightarrow> R s u"
    by blast
  have "inv u" using rel [of "\<lambda>a b. inv a \<longrightarrow> inv b"] inv call_inv by blast
  from refund_answer [OF this key, of ts res s'] u show ?thesis by (simp add: prod_eq_iff)
qed

end

section \<open>The boundary as an endpoint\<close>

text \<open>
  An attempt opens a session (a GET and an \<open>initialize\<close> POST) and posts the \<open>tools/call\<close>.
  The schedule says what the network does to each attempt: the request is lost, or it arrives
  and its answer arrives or is lost. A status of the boundary reaches the client as a group
  around the HTTP error, a lost message as the read timeout.
\<close>

datatype delivery = Lost | Delivered mw_env | AnswerLost mw_env

record endpoint =
  ep_db :: mcp_db
  ep_schedule :: "delivery list"

definition session_request :: "string \<Rightarrow> string \<Rightarrow> string \<Rightarrow> json \<Rightarrow> http_request" where
  "session_request token verb rpc params =
     \<lparr>sc_type = ''http'', sc_method = verb, sc_authorization = Some (''Bearer '' @ token),
      sc_body = (if verb = ''GET'' then None
                 else Some (JObj [(''jsonrpc'', JStr ''2.0''), (''id'', JInt 1),
                                  (''method'', JStr rpc), (''params'', params)]))\<rparr>"

definition tool_request :: "string \<Rightarrow> string \<Rightarrow> dict \<Rightarrow> http_request" where
  "tool_request token tool args =
     session_request token ''POST'' ''tools/call''
       (JObj [(''name'', JStr tool), (''arguments'', JObj args)])"

definition session_requests :: "string \<Rightarrow> string \<Rightarrow> dict \<Rightarrow> http_request list" where
  "session_requests token tool args =
     [session_request token ''GET'' '''' JNull,
      session_request token ''POST'' ''initialize'' (JObj []),
      tool_request token tool args]"

definition timeout_error :: error where
  "timeout_error = OtherError ''McpError'' ''Timed out''"

definition status_error :: "nat \<Rightarrow> error" where
  "status_error s = ErrorGroup [HttpStatusError s (show_nat s)]"

text \<open>The requests of one session, until one of them is refused or answers with a tool's result.\<close>

fun run_session :: "mw_config \<Rightarrow> mw_env \<Rightarrow> http_request list \<Rightarrow> mcp_db \<Rightarrow> (error + sdk_result) \<times> mcp_db" where
  "run_session cfg env [] db = (Inl timeout_error, db)"
| "run_session cfg env (rq # rqs) db =
     (case app cfg env rq db of
        (Status s, db') \<Rightarrow> (Inl (status_error s), db')
      | (ServerError, db') \<Rightarrow> (Inl (status_error 500), db')
      | (ToolResult (Inr d), db') \<Rightarrow> (Inr (CallToolResult False [] (Some (JObj d))), db')
      | (ToolResult (Inl e), db') \<Rightarrow> (Inr (CallToolResult True [exn_msg e] None), db')
      | (Accepted, db') \<Rightarrow> run_session cfg env rqs db')"

definition boundary_call :: "mw_config \<Rightarrow> string \<Rightarrow> endpoint session" where
  "boundary_call cfg token tool args ep =
     (case ep_schedule ep of
        [] \<Rightarrow> (Inl timeout_error, ep)
      | Lost # r \<Rightarrow> (Inl timeout_error, ep\<lparr>ep_schedule := r\<rparr>)
      | Delivered env # r \<Rightarrow>
          (let (o', db') = run_session cfg env (session_requests token tool args) (ep_db ep)
           in (o', ep\<lparr>ep_db := db', ep_schedule := r\<rparr>))
      | AnswerLost env # r \<Rightarrow>
          (let (o', db') = run_session cfg env (session_requests token tool args) (ep_db ep)
           in (Inl timeout_error, ep\<lparr>ep_db := db', ep_schedule := r\<rparr>)))"

definition ep_ledger :: "endpoint \<Rightarrow> refund_row table" where
  "ep_ledger ep = md_refunds (ep_db ep)"

definition ep_inv :: "endpoint \<Rightarrow> bool" where
  "ep_inv ep = db_inv (ep_db ep)"

lemma called_tool_request [simp]:
  "called_tool (tool_request token tool args) = Some (tool, args)"
  by (simp add: called_tool_def tool_request_def session_request_def parse_jsonrpc_message_def dget_def
      py_or_def tool_call_arguments_def tool_call_name_def dget_or_def)

lemma called_tool_other [simp]:
  "called_tool (session_request token ''GET'' m p) = None"
  "called_tool (session_request token v ''initialize'' p) = None"
  by (auto simp: called_tool_def session_request_def parse_jsonrpc_message_def dget_def)

text \<open>Every relation on databases that holds across one request holds across a session.\<close>

lemma run_session_rel:
  assumes refl: "\<And>d. R d d" and trans: "\<And>a b c. R a b \<Longrightarrow> R b c \<Longrightarrow> R a c"
    and step: "\<And>rq d. rq \<in> set rqs \<Longrightarrow> R d (snd (app cfg env rq d))"
  shows "R db (snd (run_session cfg env rqs db))"
  using step
proof (induction rqs arbitrary: db)
  case Nil
  then show ?case by (simp add: refl)
next
  case (Cons rq rqs)
  obtain a db' where a: "app cfg env rq db = (a, db')" by (cases "app cfg env rq db")
  have 1: "R db db'" using Cons.prems(1) [of rq db] a by simp
  have "R db' (snd (run_session cfg env rqs db'))" using Cons by simp
  with 1 a show ?case by (auto intro: trans split: answer.splits sum.splits)
qed

text \<open>A result comes from the tool call, in a database the earlier requests led to.\<close>

lemma run_session_result:
  assumes "run_session cfg env (session_requests token tool args) db =
      (Inr (CallToolResult False ts (Some (JObj d))), db')"
  shows "\<exists>u. app cfg env (tool_request token tool args) u = (ToolResult (Inr d), db') \<and>
    md_refunds u = md_refunds db \<and> md_orders u = md_orders db"
proof -
  have early: "\<exists>au. db2 = db1\<lparr>md_audit := au\<rparr> \<and> (\<nexists>x. a = ToolResult (Inr x))"
    if "called_tool rq = None" "app cfg env rq db1 = (a, db2)" for rq db1 a db2
    using that by (cases rule: app_cases [of cfg env rq db1]) auto
  obtain a1 d1 where 1: "app cfg env (session_request token ''GET'' '''' JNull) db = (a1, d1)"
    by (cases "app cfg env (session_request token ''GET'' '''' JNull) db")
  obtain a2 d2 where 2: "app cfg env (session_request token ''POST'' ''initialize'' (JObj [])) d1 = (a2, d2)"
    by (cases "app cfg env (session_request token ''POST'' ''initialize'' (JObj [])) d1")
  obtain a3 d3 where 3: "app cfg env (tool_request token tool args) d2 = (a3, d3)"
    by (cases "app cfg env (tool_request token tool args) d2")
  have e1: "\<exists>au. d1 = db\<lparr>md_audit := au\<rparr>" and e2: "\<exists>au. d2 = d1\<lparr>md_audit := au\<rparr>"
    and n1: "\<nexists>x. a1 = ToolResult (Inr x)" and n2: "\<nexists>x. a2 = ToolResult (Inr x)"
    using early [OF _ 1] early [OF _ 2] by auto
  have "a1 = Accepted"
    using assms 1 n1 by (cases a1) (auto simp: session_requests_def split: sum.splits)
  moreover have "a2 = Accepted"
    using assms 1 2 n2 \<open>a1 = Accepted\<close> by (cases a2) (auto simp: session_requests_def split: sum.splits)
  ultimately have "a3 = ToolResult (Inr d) \<and> d3 = db'"
    using assms 1 2 3 by (cases a3) (auto simp: session_requests_def timeout_error_def split: sum.splits)
  with 3 e1 e2 show ?thesis by auto
qed

lemma boundary_call_cases:
  obtains (none) "ep_db (snd (boundary_call cfg token tool args ep)) = ep_db ep"
      "fst (boundary_call cfg token tool args ep) = Inl timeout_error"
  | (session) env where
      "ep_db (snd (boundary_call cfg token tool args ep)) =
         snd (run_session cfg env (session_requests token tool args) (ep_db ep))"
      "fst (boundary_call cfg token tool args ep) = Inl timeout_error \<or>
       fst (boundary_call cfg token tool args ep) =
         fst (run_session cfg env (session_requests token tool args) (ep_db ep))"
proof (cases "ep_schedule ep")
  case Nil
  then show thesis by (intro none) (simp_all add: boundary_call_def)
next
  case (Cons d r)
  show thesis
  proof (cases d)
    case Lost
    with Cons show thesis by (intro none) (simp_all add: boundary_call_def)
  next
    case (Delivered env)
    with Cons show thesis by (intro session [of env]) (simp_all add: boundary_call_def case_prod_beta)
  next
    case (AnswerLost env)
    with Cons show thesis by (intro session [of env]) (simp_all add: boundary_call_def case_prod_beta)
  qed
qed

lemma boundary_call_rel:
  assumes "\<And>d. R d d" "\<And>a b c. R a b \<Longrightarrow> R b c \<Longrightarrow> R a c"
    and "\<And>rq env d. rq \<in> set (session_requests token tool args) \<Longrightarrow> R d (snd (app cfg env rq d))"
  shows "R (ep_db ep) (ep_db (snd (boundary_call cfg token tool args ep)))"
proof (cases rule: boundary_call_cases [of cfg token tool args ep])
  case none
  with assms(1) show ?thesis by simp
next
  case (session env)
  show ?thesis unfolding session(1) by (rule run_session_rel) (use assms in auto)
qed

text \<open>What one request does to the ledger.\<close>

lemma app_refunds_other:
  assumes "\<And>args. called_tool rq \<noteq> Some (''execute_refund'', args)"
  shows "md_refunds (snd (app cfg env rq db)) = md_refunds db"
proof (cases rule: app_cases [of cfg env rq db])
  case quiet
  then show ?thesis by simp
next
  case (ran au tool args d db')
  with assms have "tool \<noteq> ''execute_refund''" by auto
  with ran(3) have "db' = db\<lparr>md_audit := au\<rparr>" by (cases rule: run_tool_cases) auto
  with ran(4) show ?thesis by simp
qed

lemma required_str:
  "pydantic_ok P \<Longrightarrow> required args k (coerce_str P) = Some x \<Longrightarrow> dget args k = JStr x"
  by (auto simp: required_def res_simps dget_def pydantic_ok_str)

lemma app_refund_key:
  assumes P: "pydantic_ok (mw_pydantic cfg)" and inv: "db_inv db"
    and tool: "called_tool rq = Some (''execute_refund'', args)" and key: "dget args ''request_id'' = JStr rid"
  shows "refund_for rid (md_refunds db) (md_refunds (snd (app cfg env rq db)))"
proof (cases rule: app_cases [of cfg env rq db])
  case quiet
  then show ?thesis by simp
next
  case (ran au tool' args' d db')
  with tool have t: "tool' = ''execute_refund''" "args' = args" by auto
  from ran(3) show ?thesis
  proof (cases rule: run_tool_cases)
    case (refund rid' oid amt cur r c t)
    with t key P have "rid' = rid" by (auto dest: required_str)
    from refund(6) obtain x where "dec_of_float amt = Inr x" by (auto simp: record_refund_def res_simps)
    with refund(6) inv \<open>rid' = rid\<close> have "refund_for rid (md_refunds db) t"
      unfolding refund_for_def by (auto simp: db_inv_def intro: record_refund_at_most_once)
    with refund ran(4) show ?thesis by simp
  next
    case read
    with t show ?thesis by simp
  qed
qed

lemma app_refund_effect:
  assumes P: "pydantic_ok (mw_pydantic cfg)" and inv: "db_inv db"
    and tool: "called_tool rq = Some (''execute_refund'',
      refund_arguments rid (JStr oid) (JFloat (Fin x)) (JStr cur))"
  shows "at_most_once rid oid (cents_of x) cur (md_refunds db) (md_refunds (snd (app cfg env rq db)))"
proof (cases rule: app_cases [of cfg env rq db])
  case quiet
  then show ?thesis by simp
next
  case (ran au tool' args' d db')
  with tool have t: "tool' = ''execute_refund''"
      "args' = refund_arguments rid (JStr oid) (JFloat (Fin x)) (JStr cur)" by auto
  have c: "coerce_str (mw_pydantic cfg) (JStr s) = Some s" for s
    using P by (simp add: pydantic_ok_str)
  have f: "coerce_float (mw_pydantic cfg) (JFloat (Fin x)) = Some (Fin x)"
    using P by (rule pydantic_ok_float)
  from ran(3) show ?thesis
  proof (cases rule: run_tool_cases)
    case (refund rid' oid' amt cur' r c t)
    from refund(2-5) t c f have "rid' = rid" "oid' = oid" "amt = Fin x" "cur' = cur"
      by (auto simp: refund_arguments_def required_def defaulted_def)
    with refund(6-8) inv ran(4) show ?thesis
      by (auto simp: db_inv_def dec_of_float_def intro!: record_refund_at_most_once)
  next
    case read
    with t show ?thesis by simp
  qed
qed

lemma called_in_session:
  assumes "rq \<in> set (session_requests token tool args)"
  shows "called_tool rq = None \<or> called_tool rq = Some (tool, args)"
  using assms by (auto simp: session_requests_def)

text \<open>The laws hold for every configuration whose pydantic behaves as documented.\<close>

lemma boundary_inv: "ep_inv ep \<Longrightarrow> ep_inv (snd (boundary_call cfg token tool args ep))"
  using boundary_call_rel [of "\<lambda>a b. db_inv a \<longrightarrow> db_inv b" token tool args cfg ep] app_inv
  unfolding ep_inv_def by blast

lemma boundary_read_only:
  "tool \<noteq> ''execute_refund'' \<Longrightarrow> ep_ledger (snd (boundary_call cfg token tool args ep)) = ep_ledger ep"
  using boundary_call_rel [of "\<lambda>a b. md_refunds b = md_refunds a" token tool args cfg ep]
    app_refunds_other called_in_session [of _ token tool args]
  unfolding ep_ledger_def by fastforce

lemma boundary_refund_key:
  assumes "pydantic_ok (mw_pydantic cfg)" "ep_inv ep" "dget args ''request_id'' = JStr rid"
  shows "refund_for rid (ep_ledger ep) (ep_ledger (snd (boundary_call cfg token ''execute_refund'' args ep)))"
proof -
  let ?R = "\<lambda>a b. db_inv a \<longrightarrow> db_inv b \<and> refund_for rid (md_refunds a) (md_refunds b)"
  have "?R (ep_db ep) (ep_db (snd (boundary_call cfg token ''execute_refund'' args ep)))"
  proof (rule boundary_call_rel)
    fix rq env d
    assume "rq \<in> set (session_requests token ''execute_refund'' args)"
    then have "called_tool rq = None \<or> called_tool rq = Some (''execute_refund'', args)"
      by (rule called_in_session)
    then show "?R d (snd (app cfg env rq d))"
      using app_refund_key [OF assms(1) _ _ assms(3)] app_inv app_refunds_other [of rq cfg env d] by auto
  qed (auto intro: refund_for_trans)
  with assms(2) show ?thesis by (simp add: ep_inv_def ep_ledger_def)
qed

lemma boundary_refund_effect:
  assumes "pydantic_ok (mw_pydantic cfg)" "ep_inv ep"
  shows "at_most_once rid oid (cents_of x) cur (ep_ledger ep)
    (ep_ledger (snd (boundary_call cfg token ''execute_refund''
      (refund_arguments rid (JStr oid) (JFloat (Fin x)) (JStr cur)) ep)))"
proof -
  let ?args = "refund_arguments rid (JStr oid) (JFloat (Fin x)) (JStr cur)"
  let ?R = "\<lambda>a b. db_inv a \<longrightarrow> db_inv b \<and> at_most_once rid oid (cents_of x) cur (md_refunds a) (md_refunds b)"
  have "?R (ep_db ep) (ep_db (snd (boundary_call cfg token ''execute_refund'' ?args ep)))"
  proof (rule boundary_call_rel)
    fix rq env d
    assume "rq \<in> set (session_requests token ''execute_refund'' ?args)"
    then have "called_tool rq = None \<or> called_tool rq = Some (''execute_refund'', ?args)"
      by (rule called_in_session)
    then show "?R d (snd (app cfg env rq d))"
      using app_refund_effect [OF assms(1)] app_inv app_refunds_other [of rq cfg env d] by auto
  qed (auto intro: at_most_once_trans)
  with assms(2) show ?thesis by (simp add: ep_inv_def ep_ledger_def)
qed

lemma boundary_result:
  assumes "boundary_call cfg token tool args ep = (Inr (CallToolResult False ts (Some (JObj res))), ep')"
  shows "\<exists>now au db. md_refunds db = ep_ledger ep \<and> md_orders db = md_orders (ep_db ep) \<and>
    run_tool (mw_pydantic cfg) now tool args (db\<lparr>md_audit := au\<rparr>) = Inr (res, ep_db ep')"
proof (cases rule: boundary_call_cases [of cfg token tool args ep])
  case none
  with assms show ?thesis by simp
next
  case (session env)
  with assms have "run_session cfg env (session_requests token tool args) (ep_db ep) =
      (Inr (CallToolResult False ts (Some (JObj res))), ep_db ep')"
    by (auto simp: prod_eq_iff)
  from run_session_result [OF this] obtain u where u:
      "app cfg env (tool_request token tool args) u = (ToolResult (Inr res), ep_db ep')"
      "md_refunds u = ep_ledger ep" "md_orders u = md_orders (ep_db ep)"
    by (auto simp: ep_ledger_def)
  from u(1) have "\<exists>au. run_tool (mw_pydantic cfg) (ev_now env) tool args (u\<lparr>md_audit := au\<rparr>) = Inr (res, ep_db ep')"
    by (cases rule: app_cases [of cfg env "tool_request token tool args" u]) auto
  with u show ?thesis by blast
qed

lemma boundary_refund_answer:
  assumes P: "pydantic_ok (mw_pydantic cfg)" and inv: "ep_inv ep" and key: "dget args ''request_id'' = JStr rid"
    and call: "boundary_call cfg token ''execute_refund'' args ep =
      (Inr (CallToolResult False ts (Some (JObj res))), ep')"
  shows "\<exists>r c. find_refund rid (ep_ledger ep') = Some r \<and> res = refund_result r c"
proof -
  from boundary_result [OF call] obtain now au db where
    db: "md_refunds db = ep_ledger ep"
    and run: "run_tool (mw_pydantic cfg) now ''execute_refund'' args (db\<lparr>md_audit := au\<rparr>) = Inr (res, ep_db ep')"
    by blast
  from run show ?thesis
  proof (cases rule: run_tool_cases)
    case (refund rid' oid amt cur r c t)
    with P key have "rid' = rid" by (auto dest: required_str)
    with refund db inv show ?thesis
      by (auto simp: ep_inv_def ep_ledger_def db_inv_def dest: record_refund_found)
  next
    case read
    then show ?thesis by simp
  qed
qed

interpretation boundary: tool_endpoint "boundary_call (cfg\<lparr>mw_pydantic := lax_mode\<rparr>) token" ep_ledger ep_inv
proof (unfold_locales, goal_cases)
  case (5 s args rid ts res s')
  show ?case by (rule boundary_refund_answer [OF _ 5]) (simp add: lax_mode_ok)
qed (auto simp: lax_mode_ok intro!: boundary_inv boundary_read_only boundary_refund_key boundary_refund_effect)

section \<open>Properties\<close>

text \<open>
  C17. The retry loop is the reference: of the configured number of attempts, made one after the
  other, the outcome is that of the first decisive one (a result, or a rejection a retry cannot
  fix) or of the last; before the attempt with number \<open>j + 1\<close> it slept \<open>base * 2 ^ j\<close>, and
  no attempt after the decisive one touched the world. Without attempts the call fails.
\<close>

theorem call_tool_with_retry_reference:
  "call_tool_with_retry call policy tool arguments s =
     (if po_max_retries policy \<le> 0 then (Inl ''no attempts made'', [], s)
      else let outs = attempts call tool arguments (nat (po_max_retries policy)) s; i = last_attempt outs
           in (case fst (outs ! i) of Inr d \<Rightarrow> Inr d | Inl e \<Rightarrow> Inl (describe_error e),
               map (\<lambda>j. po_backoff_base_seconds policy * 2 ^ j) [0 ..< i], snd (outs ! i)))"
proof (cases "po_max_retries policy \<le> 0")
  case True
  then show ?thesis by (simp add: call_tool_with_retry_def)
next
  case False
  then obtain n where n: "nat (po_max_retries policy) = Suc n" by (metis gr0_implies_Suc not_le zero_less_nat_eq)
  show ?thesis
    using False unfolding call_tool_with_retry_def n retry_loop_reference backoff_start
    by (auto simp: Let_def loop_outcome_def split: sum.splits)
qed

text \<open>
  A rejection is permanent exactly when some leaf of the error is an HTTP status from 400 to
  499 other than 408 and 429; so of the boundary's own denials, being over the rate limit and an
  unavailable database are retried and the others are not.
\<close>

theorem permanent_rejections:
  "(is_permanent_rejection e \<longleftrightarrow>
     list_ex (\<lambda>leaf. case leaf of HttpStatusError status _ \<Rightarrow> status \<in> {400 ..< 500} - {408, 429} | _ \<Rightarrow> False)
       (error_leaves e)) \<and>
   filter (\<lambda>s. is_permanent_rejection (status_error s)) [401, 403, 422, 429, 503] = [401, 403, 422]"
proof
  show "is_permanent_rejection e \<longleftrightarrow>
     list_ex (\<lambda>leaf. case leaf of HttpStatusError status _ \<Rightarrow> status \<in> {400 ..< 500} - {408, 429} | _ \<Rightarrow> False)
       (error_leaves e)"
    unfolding is_permanent_rejection_leaves list_ex_iff by (fastforce split: error.splits)
  show "filter (\<lambda>s. is_permanent_rejection (status_error s)) [401, 403, 422, 429, 503] = [401, 403, 422]"
    by (simp add: status_error_def RETRYABLE_CLIENT_ERRORS_def)
qed

text \<open>
  C5. However the network loses requests and answers, and however often the client retries, an
  \<open>execute_refund_via_mcp\<close> call records at most one refund, only when its \<open>request_id\<close> had
  none, on the order, with the cents and in the currency it was called with; and when it returns
  a result, the refund is on file and the result describes that row.
\<close>

theorem refund_via_mcp_at_most_once:
  assumes "ep_inv ep"
    and "execute_refund_via_mcp (boundary_call (cfg\<lparr>mw_pydantic := lax_mode\<rparr>) token) policy rid (JStr oid)
           (JFloat (Fin d)) (JStr cur) ep = (r, delays, ep')"
  shows "at_most_once rid oid (cents_of d) cur (ep_ledger ep) (ep_ledger ep') \<and>
    (\<forall>res. r = Inr res \<longrightarrow>
       (\<exists>row c. find_refund rid (ep_ledger ep') = Some row \<and> res = refund_result row c))"
proof (intro conjI allI impI)
  show "at_most_once rid oid (cents_of d) cur (ep_ledger ep) (ep_ledger ep')"
    by (rule boundary.retry_refund_effect [OF assms])
  fix res
  assume "r = Inr res"
  with assms(2) show "\<exists>row c. find_refund rid (ep_ledger ep') = Some row \<and> res = refund_result row c"
    unfolding execute_refund_via_mcp_def
    by (intro boundary.retry_refund_answer [OF assms(1)]) (auto simp: refund_arguments_def dget_def)
qed

definition demo_cfg :: mw_config where
  "demo_cfg = \<lparr>mw_sha256 = (\<lambda>t. ''h('' @ t @ '')''),
     mw_registry = [\<lparr>client_id = ''worker'', token_hash = ''h(secret)'', allowed_tools = [''execute_refund'']\<rparr>],
     mw_rate_limit_per_min = 30, mw_pydantic = lax_mode, mw_refund_max = Fin (Dec 100000 (- 1))\<rparr>"

definition demo_policy :: mcp_call_policy where
  "demo_policy = \<lparr>po_max_retries = 3, po_backoff_base_seconds = 1\<rparr>"

definition demo_db :: mcp_db where
  "demo_db = \<lparr>md_orders = sample_orders, md_refunds = sample_ledger, md_audit = empty_audit\<rparr>"

text \<open>The first request is lost, the answer of the second; the third finds the refund on file.\<close>

definition demo_endpoint :: endpoint where
  "demo_endpoint = \<lparr>ep_db = demo_db,
     ep_schedule = [Lost, AnswerLost (sample_env 1), Delivered (sample_env 4)]\<rparr>"

lemma demo_run:
  "(case execute_refund_via_mcp (boundary_call (demo_cfg\<lparr>mw_pydantic := lax_mode\<rparr>) ''secret'') demo_policy ''a''
      (JStr ''ord-1'') (JFloat (Fin (Dec 455 (- 1)))) (JStr ''USD'') demo_endpoint of
     (r, delays, ep) \<Rightarrow> ((case r of Inr res \<Rightarrow> dget res ''status'' | Inl e \<Rightarrow> JNull), delays,
        map rf_amount (tb_rows (ep_ledger ep)))) = (JStr ''already_executed'', [1, 2], [4550])"
  by code_simp

theorem refund_via_mcp_at_most_once_witness:
  "\<exists>r delays ep. execute_refund_via_mcp (boundary_call (demo_cfg\<lparr>mw_pydantic := lax_mode\<rparr>) ''secret'') demo_policy
       ''a'' (JStr ''ord-1'') (JFloat (Fin (Dec 455 (- 1)))) (JStr ''USD'') demo_endpoint = (r, delays, ep) \<and>
     delays = [1, 2] \<and> map rf_amount (tb_rows (ep_ledger ep)) = [4550] \<and>
     at_most_once ''a'' ''ord-1'' (cents_of (Dec 455 (- 1))) ''USD'' (ep_ledger demo_endpoint) (ep_ledger ep)"
proof -
  obtain r delays ep where run: "execute_refund_via_mcp (boundary_call (demo_cfg\<lparr>mw_pydantic := lax_mode\<rparr>) ''secret'')
      demo_policy ''a'' (JStr ''ord-1'') (JFloat (Fin (Dec 455 (- 1)))) (JStr ''USD'') demo_endpoint = (r, delays, ep)"
    by (metis prod_cases3)
  have inv: "ep_inv demo_endpoint"
    by (simp add: ep_inv_def demo_endpoint_def demo_db_def db_inv_def orders_inv_def keyed_def sample_orders_def
        ledger_inv_def sample_ledger_def max_numeric_def)
  from refund_via_mcp_at_most_once [OF inv run] run demo_run show ?thesis by auto
qed

end
