(* ===== verification/Claim_Evidence.thy ===== *)
theory Claim_Evidence
  imports Mcp_Client
begin

text \<open>
  Fetching a claim's evidence (\<open>src/worker/evidence.py\<close>): the two read tools, called with
  retries, feed the pure check. \<open>evidence_ok\<close> is the specification over the tables, in cents;
  the check on the tools' results decides it. The locale \<open>evidence_endpoint\<close> extends the
  endpoint's contract by what the answers of the read tools say, and gives the worker one
  lemma: a passed check means the specification held on the tables.
\<close>

definition REFUND_HISTORY_LIMIT :: int where
  "REFUND_HISTORY_LIMIT = 100"

section \<open>verify_claim_evidence\<close>

definition claim_of_body :: "dict \<Rightarrow> string \<Rightarrow> string \<Rightarrow> refund_claim res" where
  "claim_of_body body order_id user_id =
     bindR (dindex body ''request_id'') (\<lambda>r.
     bindR (dindex body ''amount'') (\<lambda>a.
     bindR (json_decimal a) (\<lambda>amount.
       Inr \<lparr>cl_request_id = py_str r, cl_user_id = user_id, cl_order_id = order_id, cl_amount = amount,
            cl_currency = py_str (py_or (dget body ''currency'') (JStr (currency_value USD)))\<rparr>)))"

text \<open>
  The outer sum is an exception that is not caught here, the inner one the
  \<open>EvidenceUnavailableError\<close> with its text.
\<close>

definition fetch_and_check ::
  "'s session \<Rightarrow> mcp_call_policy \<Rightarrow> settings \<Rightarrow> refund_claim \<Rightarrow> 's \<Rightarrow> (string + evidence_check) res \<times> 's" where
  "fetch_and_check call policy S claim s =
     (case call_tool_with_retry call policy ''get_order'' [(''order_id'', JStr (cl_order_id claim))] s of
        (Inl e, _, s1) \<Rightarrow> (Inr (Inl e), s1)
      | (Inr order, _, s1) \<Rightarrow>
          (case call_tool_with_retry call policy ''get_refund_history''
                  [(''user_id'', JStr (cl_user_id claim)), (''limit'', JInt REFUND_HISTORY_LIMIT)] s1 of
             (Inl e, _, s2) \<Rightarrow> (Inr (Inl e), s2)
           | (Inr history, _, s2) \<Rightarrow>
               (bindR (check_refund_evidence (FX_RATES_TO_USD S) (REFUND_HUMAN_REVIEW_THRESHOLD_USD S)
                         claim order history) (\<lambda>ec. Inr (Inr ec)), s2)))"

definition verify_claim_evidence ::
  "'s session \<Rightarrow> mcp_call_policy \<Rightarrow> settings \<Rightarrow> dict \<Rightarrow> 's \<Rightarrow> (string + evidence_check) res \<times> 's" where
  "verify_claim_evidence call policy S body s =
     (case dindex body ''order_id'' of
        Inl e \<Rightarrow> (Inl e, s)
      | Inr oid \<Rightarrow>
          let order_id = py_str oid; user_id = py_str (py_or (dget body ''user_id'') (JStr ''''))
          in if user_id = []
             then (Inr (Inr (failed_check order_id ''Claim has no user_id to verify the order against.'')), s)
             else case claim_of_body body order_id user_id of
                    Inl e \<Rightarrow> (Inl e, s)
                  | Inr claim \<Rightarrow> fetch_and_check call policy S claim s)"

section \<open>The specification\<close>

definition refunded_by_others :: "string \<Rightarrow> string \<Rightarrow> refund_row table \<Rightarrow> int" where
  "refunded_by_others rid oid t =
     (\<Sum>r \<leftarrow> filter (\<lambda>r. rf_request_id r \<noteq> rid) (filter (\<lambda>r. rf_transaction_id r = oid) (tb_rows t)). rf_amount r)"

definition evidence_ok :: "settings \<Rightarrow> refund_claim \<Rightarrow> order_row table \<Rightarrow> refund_row table \<Rightarrow> bool" where
  "evidence_ok S claim ords refs =
     (case find_order (cl_order_id claim) ords of
        None \<Rightarrow> False
      | Some ord \<Rightarrow>
          or_user_id ord = cl_user_id claim \<and> or_currency ord = cl_currency claim \<and>
          int (length (user_refunds ords refs (cl_user_id claim))) \<le> REFUND_HISTORY_LIMIT \<and>
          list_all (\<lambda>r. rf_transaction_id r = cl_order_id claim \<and> rf_request_id r \<noteq> cl_request_id claim \<longrightarrow>
                     rf_currency r = cl_currency claim) (tb_rows refs) \<and>
          cents_of (cl_amount claim) \<le>
            remaining_cents (or_amount ord) (refunded_by_others (cl_request_id claim) (cl_order_id claim) refs) \<and>
          limit_ok (FX_RATES_TO_USD S) (REFUND_HUMAN_REVIEW_THRESHOLD_USD S) (cl_currency claim)
            (cents_of (cl_amount claim)))"

lemma refunded_by_others_fresh:
  "find_refund rid t = None \<Longrightarrow> refunded_by_others rid oid t = refunded_on oid t"
proof -
  assume "find_refund rid t = None"
  then have "filter (\<lambda>r. rf_request_id r \<noteq> rid) (filter (\<lambda>r. rf_transaction_id r = oid) (tb_rows t)) =
      filter (\<lambda>r. rf_transaction_id r = oid) (tb_rows t)"
    unfolding filter_filter by (intro filter_cong) (auto simp: find_refund_def lookup_key_None)
  then show ?thesis by (simp add: refunded_by_others_def refunded_on_def)
qed

text \<open>A refund the specification admits never takes its order over the order's amount.\<close>

lemma evidence_ok_within:
  assumes ok: "evidence_ok S claim ords refs" and ord: "find_order oid ords = Some ord"
    and once: "at_most_once (cl_request_id claim) (cl_order_id claim) (cents_of (cl_amount claim)) cur refs refs'"
    and pos: "0 \<le> cents_of (cl_amount claim)"
    and before: "refunded_on oid refs \<le> or_amount ord"
  shows "refunded_on oid refs' \<le> or_amount ord"
proof (cases "oid = cl_order_id claim \<and> tb_rows refs' \<noteq> tb_rows refs")
  case False
  with before show ?thesis by (auto simp: at_most_once_refunded [OF once])
next
  case True
  with once have "find_refund (cl_request_id claim) refs = None" by (auto simp: at_most_once_def)
  with ok ord True pos before have "cents_of (cl_amount claim) \<le> or_amount ord - refunded_on oid refs"
    by (auto simp: evidence_ok_def remaining_cents_def refunded_by_others_fresh)
  with True show ?thesis by (simp add: at_most_once_refunded [OF once])
qed

section \<open>The check decides the specification\<close>

lemma history_lookup:
  assumes "get_refund_history user limit db = Inr hist"
  obtains rs totals where
    "list_refunds_for_user (md_orders db) (md_refunds db) user limit = Inr rs"
    "summarize_refunds_for_user (md_orders db) (md_refunds db) user =
       (int (length (user_refunds (md_orders db) (md_refunds db) user)), totals)"
    "dget_or hist ''refunds'' (JList []) = JList (map listed_json (map listed_of rs))"
    "map_of hist ''refund_count'' = Some (JInt (int (length (user_refunds (md_orders db) (md_refunds db) user))))"
proof -
  obtain n totals where n: "summarize_refunds_for_user (md_orders db) (md_refunds db) user = (n, totals)"
    by (cases "summarize_refunds_for_user (md_orders db) (md_refunds db) user")
  then have "n = int (length (user_refunds (md_orders db) (md_refunds db) user))"
    by (metis fst_conv summary_count)
  with assms n that show thesis
    by (auto simp: get_refund_history_def res_simps dget_or_def comp_def)
qed

lemma listed_others:
  assumes "mset (filter (\<lambda>r. rf_transaction_id r = cl_order_id claim) rs) =
    mset (filter (\<lambda>r. rf_transaction_id r = cl_order_id claim) (tb_rows t))"
  shows "others_cents claim (map listed_of rs) = refunded_by_others (cl_request_id claim) (cl_order_id claim) t"
    and "(\<forall>r \<in> set (map listed_of rs). counts claim r \<longrightarrow> lr_currency r = cur) \<longleftrightarrow>
      list_all (\<lambda>r. rf_transaction_id r = cl_order_id claim \<and> rf_request_id r \<noteq> cl_request_id claim \<longrightarrow>
        rf_currency r = cur) (tb_rows t)"
proof -
  let ?own = "\<lambda>r. rf_request_id r \<noteq> cl_request_id claim" and ?on = "\<lambda>r. rf_transaction_id r = cl_order_id claim"
  have "others_cents claim (map listed_of rs) = (\<Sum>r \<leftarrow> filter ?own (filter ?on rs). rf_amount r)"
    by (induction rs) (auto simp: counts_def listed_of_def)
  also from assms have "mset (map rf_amount (filter ?own (filter ?on rs))) =
      mset (map rf_amount (filter ?own (filter ?on (tb_rows t))))"
    by (simp only: mset_map mset_filter)
  then have "(\<Sum>r \<leftarrow> filter ?own (filter ?on rs). rf_amount r) =
      refunded_by_others (cl_request_id claim) (cl_order_id claim) t"
    unfolding refunded_by_others_def by (metis sum_mset_sum_list)
  finally show "others_cents claim (map listed_of rs) =
      refunded_by_others (cl_request_id claim) (cl_order_id claim) t" .
  from assms have "set (filter ?on rs) = set (filter ?on (tb_rows t))" by (metis set_mset_mset)
  then show "(\<forall>r \<in> set (map listed_of rs). counts claim r \<longrightarrow> lr_currency r = cur) \<longleftrightarrow>
      list_all (\<lambda>r. ?on r \<and> ?own r \<longrightarrow> rf_currency r = cur) (tb_rows t)"
    by (auto simp: counts_def listed_of_def list_all_iff set_eq_iff)
qed

lemma list_refunds_small:
  assumes "ledger_inv refs" "list_refunds_for_user ords refs u l = Inr rs" "r \<in> set (map listed_of rs)"
  shows "\<bar>lr_cents r\<bar> < max_numeric"
  using assms list_refunds_set [OF assms(2)]
  by (auto simp: ledger_inv_def listed_of_def user_refunds_def)

lemma owner_no_failure: "owner_failures claim (order_json ord) = [] \<longleftrightarrow> or_user_id ord = cl_user_id claim"
  by (simp add: owner_failures_def order_json_def dget_def)

text \<open>What the check says about an order that is on file.\<close>

lemma check_found:
  assumes "check_refund_evidence fx limit claim [(''status'', JStr ''found''), (''order'', JObj order)] hist = Inr ec"
  obtains already fs2 usd fs3 where
    "balance_failures claim (Dec (cents_of (cl_amount claim)) (- 2)) order hist = Inr (already, fs2)"
    "threshold_failures fx limit claim (Dec (cents_of (cl_amount claim)) (- 2)) = Inr (usd, fs3)"
    "passed ec \<longleftrightarrow> owner_failures claim order = [] \<and> fs2 = [] \<and> fs3 = []"
  using assms
  by (auto simp: check_refund_evidence_def dget_def dindex_def res_simps passed_def)

lemma get_order_found:
  assumes "db_inv db" "get_order oid db = Inr ores"
  shows "ores = (case find_order oid (md_orders db) of
      None \<Rightarrow> [(''status'', JStr ''not_found''), (''order_id'', JStr oid)]
    | Some ord \<Rightarrow> [(''status'', JStr ''found''), (''order'', JObj (order_json ord))])"
  using assms by (auto simp: get_order_def db_inv_def get_order_row_find split: option.splits)

lemma find_order_SomeD:
  "find_order oid t = Some ord \<Longrightarrow> ord \<in> set (tb_rows t) \<and> or_order_id ord = oid"
  unfolding find_order_def by (rule lookup_key_SomeD)

lemma check_decides:
  assumes inv: "db_inv db"
    and ores: "get_order (cl_order_id claim) db = Inr ores"
    and hist: "get_refund_history (cl_user_id claim) REFUND_HISTORY_LIMIT db = Inr hist"
    and check: "check_refund_evidence (FX_RATES_TO_USD S) (REFUND_HUMAN_REVIEW_THRESHOLD_USD S) claim ores hist = Inr ec"
  shows "passed ec \<longleftrightarrow> evidence_ok S claim (md_orders db) (md_refunds db)"
proof (cases "find_order (cl_order_id claim) (md_orders db)")
  case None
  with check get_order_found [OF inv ores] show ?thesis
    by (auto simp: check_refund_evidence_def dget_def failed_check_def passed_def evidence_ok_def)
next
  case (Some ord)
  then have ord: "ord \<in> set (tb_rows (md_orders db))" "or_order_id ord = cl_order_id claim"
    by (auto dest: find_order_SomeD)
  have "ores = [(''status'', JStr ''found''), (''order'', JObj (order_json ord))]"
    using get_order_found [OF inv ores] Some by simp
  from check [unfolded this] obtain already fs2 usd fs3 where c:
      "balance_failures claim (Dec (cents_of (cl_amount claim)) (- 2)) (order_json ord) hist = Inr (already, fs2)"
      "threshold_failures (FX_RATES_TO_USD S) (REFUND_HUMAN_REVIEW_THRESHOLD_USD S) claim
         (Dec (cents_of (cl_amount claim)) (- 2)) = Inr (usd, fs3)"
      "passed ec \<longleftrightarrow> owner_failures claim (order_json ord) = [] \<and> fs2 = [] \<and> fs3 = []"
    by (rule check_found)
  obtain rs totals where h:
      "list_refunds_for_user (md_orders db) (md_refunds db) (cl_user_id claim) REFUND_HISTORY_LIMIT = Inr rs"
      "summarize_refunds_for_user (md_orders db) (md_refunds db) (cl_user_id claim) =
         (int (length (user_refunds (md_orders db) (md_refunds db) (cl_user_id claim))), totals)"
      "dget_or hist ''refunds'' (JList []) = JList (map listed_json (map listed_of rs))"
      "map_of hist ''refund_count'' =
         Some (JInt (int (length (user_refunds (md_orders db) (md_refunds db) (cl_user_id claim)))))"
    by (rule history_lookup [OF hist])
  let ?n = "int (length (user_refunds (md_orders db) (md_refunds db) (cl_user_id claim)))"
  have len: "length rs = min 100 (length (user_refunds (md_orders db) (md_refunds db) (cl_user_id claim)))"
    using list_refunds_length [OF h(1)] by (simp add: REFUND_HISTORY_LIMIT_def)
  have amt: "\<bar>or_amount ord\<bar> < max_numeric" using inv ord by (auto simp: db_inv_def orders_inv_def)
  have lrs: "length (map listed_of rs) \<le> 1000" using len by simp
  have led: "ledger_inv (md_refunds db)" using inv by (simp add: db_inv_def)
  have bal: "fs2 = [] \<longleftrightarrow> or_currency ord = cl_currency claim \<and> ?n \<le> int (length (map listed_of rs)) \<and>
      (\<forall>r \<in> set (map listed_of rs). counts claim r \<longrightarrow> lr_currency r = or_currency ord) \<and>
      cents_of (cl_amount claim) \<le> remaining_cents (or_amount ord) (others_cents claim (map listed_of rs))"
    by (rule balance_passes [OF order_json_def h(3,4) _ amt lrs c(1)]) (rule list_refunds_small [OF led h(1)])
  have thr: "fs3 = [] \<longleftrightarrow> limit_ok (FX_RATES_TO_USD S) (REFUND_HUMAN_REVIEW_THRESHOLD_USD S)
      (cl_currency claim) (cents_of (cl_amount claim))"
    by (rule threshold_passes [OF c(2)])
  have n: "?n \<le> int (length (map listed_of rs)) \<longleftrightarrow> ?n \<le> REFUND_HISTORY_LIMIT"
    using len by (simp add: REFUND_HISTORY_LIMIT_def)
  show ?thesis
  proof (cases "or_user_id ord = cl_user_id claim \<and> ?n \<le> REFUND_HISTORY_LIMIT")
    case False
    with c(3) bal n Some show ?thesis by (auto simp: owner_no_failure evidence_ok_def)
  next
    case True
    have "keyed or_order_id or_id (md_orders db)" using inv by (auto simp: db_inv_def)
    then have "mset (filter (\<lambda>r. rf_transaction_id r = cl_order_id claim) rs) =
        mset (filter (\<lambda>r. rf_transaction_id r = cl_order_id claim) (tb_rows (md_refunds db)))"
      using True Some h n
      by (intro list_refunds_order [where ords = "md_orders db" and ord = ord]) (auto simp: find_order_def)
    note l = listed_others [OF this]
    show ?thesis
      using True Some c(3) bal [unfolded l] thr n by (auto simp: owner_no_failure evidence_ok_def)
  qed
qed

section \<open>The endpoint the worker reads its evidence from\<close>

definition db_view :: "order_row table \<Rightarrow> refund_row table \<Rightarrow> mcp_db" where
  "db_view ords refs = \<lparr>md_orders = ords, md_refunds = refs, md_audit = \<lparr>tb_rows = [], tb_seq = 0\<rparr>\<rparr>"

lemma db_view_simps [simp]:
  "md_orders (db_view ords refs) = ords" "md_refunds (db_view ords refs) = refs"
  by (simp_all add: db_view_def)

text \<open>From a state with the invariant on, the invariant, the ledger and the orders are kept.\<close>

definition same_tables :: "('s \<Rightarrow> bool) \<Rightarrow> ('s \<Rightarrow> 'a) \<Rightarrow> ('s \<Rightarrow> 'b) \<Rightarrow> 's \<Rightarrow> 's \<Rightarrow> bool" where
  "same_tables ok refs ords s s' \<longleftrightarrow> (ok s \<longrightarrow> ok s' \<and> refs s' = refs s \<and> ords s' = ords s)"

lemma same_tables_refl [simp]: "same_tables ok refs ords s s"
  by (simp add: same_tables_def)

lemma failed_check_not_passed [simp]: "\<not> passed (failed_check a b)"
  by (simp add: failed_check_def passed_def)

text \<open>
  The endpoint's contract, and in addition: no call changes the orders, and an answer of a read
  tool is the tool's result on the tables as they were.
\<close>

locale evidence_endpoint = tool_endpoint call ledger inv
  for call :: "string \<Rightarrow> dict \<Rightarrow> 's \<Rightarrow> (error + sdk_result) \<times> 's"
    and ledger :: "'s \<Rightarrow> refund_row table" and inv :: "'s \<Rightarrow> bool" +
  fixes orders :: "'s \<Rightarrow> order_row table"
  assumes tables_inv: "inv s \<Longrightarrow> orders_inv (orders s) \<and> ledger_inv (ledger s)"
    and orders_fixed: "orders (snd (call tool args s)) = orders s"
    and order_answer: "inv s \<Longrightarrow>
      call ''get_order'' [(''order_id'', JStr oid)] s = (Inr (CallToolResult False ts (Some (JObj res))), s') \<Longrightarrow>
      get_order oid (db_view (orders s) (ledger s)) = Inr res"
    and history_answer: "inv s \<Longrightarrow>
      call ''get_refund_history'' [(''user_id'', JStr user), (''limit'', JInt limit)] s =
        (Inr (CallToolResult False ts (Some (JObj res))), s') \<Longrightarrow>
      get_refund_history user limit (db_view (orders s) (ledger s)) = Inr res"
begin

lemma same_tables_retry:
  assumes "tool \<noteq> ''execute_refund''" "call_tool_with_retry call policy tool args s = (r, ds, s')"
  shows "same_tables inv ledger orders s s'"
  by (rule retry_rel [OF _ _ _ assms(2)])
    (use assms(1) call_inv read_only orders_fixed in \<open>auto simp: same_tables_def\<close>)

lemma retry_orders:
  "call_tool_with_retry call policy tool args s = (r, ds, s') \<Longrightarrow> orders s' = orders s"
  by (rule retry_rel [where R = "\<lambda>a b. orders b = orders a"]) (auto simp: orders_fixed)

lemma retry_source:
  assumes "tool \<noteq> ''execute_refund''" "inv s" "call_tool_with_retry call policy tool args s = (Inr res, ds, s')"
  shows "\<exists>u ts. same_tables inv ledger orders s u \<and> call tool args u = (Inr (CallToolResult False ts (Some (JObj res))), s')"
proof -
  from assms(3) obtain delays where "retry_loop call tool args (po_backoff_base_seconds policy) 0
      (nat (po_max_retries policy)) None s = (Inr res, delays, s')"
    by (auto simp: call_tool_with_retry_def case_prod_beta prod_eq_iff split: sum.splits option.splits)
  from retry_loop_result [OF this] obtain u ts where
    u: "snd (call tool args u) = s'" "fst (call tool args u) = Inr (CallToolResult False ts (Some (JObj res)))"
    and rel: "\<And>R. (\<forall>v. R v v) \<Longrightarrow> (\<forall>a b c. R a b \<longrightarrow> R b c \<longrightarrow> R a c) \<Longrightarrow>
       (\<forall>v. R v (snd (call tool args v))) \<Longrightarrow> R s u"
    by blast
  have "same_tables inv ledger orders s u"
    by (rule rel) (use assms(1) call_inv read_only orders_fixed in \<open>auto simp: same_tables_def\<close>)
  with u show ?thesis by (metis prod.collapse)
qed

lemma fetch_and_check_frame:
  "fetch_and_check call policy S claim s = (r, s') \<Longrightarrow> same_tables inv ledger orders s s'"
  using same_tables_retry [of "''get_order''" policy "[(''order_id'', JStr (cl_order_id claim))]" s]
    same_tables_retry [of "''get_refund_history''" policy
      "[(''user_id'', JStr (cl_user_id claim)), (''limit'', JInt REFUND_HISTORY_LIMIT)]"]
  by (fastforce simp: fetch_and_check_def same_tables_def split: prod.splits sum.splits)

lemma verify_frame: "verify_claim_evidence call policy S body s = (r, s') \<Longrightarrow> same_tables inv ledger orders s s'"
  by (auto simp: verify_claim_evidence_def Let_def split: sum.splits if_splits
      dest: fetch_and_check_frame)

lemma fetch_and_check_passed:
  assumes inv: "inv s" and run: "fetch_and_check call policy S claim s = (Inr (Inr ec), s')" and ok: "passed ec"
  shows "evidence_ok S claim (orders s) (ledger s)"
proof -
  let ?db = "db_view (orders s) (ledger s)"
  from run obtain order ds1 s1 history ds2 where
      o: "call_tool_with_retry call policy ''get_order'' [(''order_id'', JStr (cl_order_id claim))] s = (Inr order, ds1, s1)"
    and h: "call_tool_with_retry call policy ''get_refund_history''
        [(''user_id'', JStr (cl_user_id claim)), (''limit'', JInt REFUND_HISTORY_LIMIT)] s1 = (Inr history, ds2, s')"
    and c: "check_refund_evidence (FX_RATES_TO_USD S) (REFUND_HUMAN_REVIEW_THRESHOLD_USD S) claim order history = Inr ec"
    by (auto simp: fetch_and_check_def res_simps split: prod.splits sum.splits)
  have s1: "inv s1" "orders s1 = orders s" "ledger s1 = ledger s"
    using same_tables_retry [OF _ o] inv by (auto simp: same_tables_def)
  from retry_source [OF _ inv o] obtain u ts where u: "same_tables inv ledger orders s u"
      "call ''get_order'' [(''order_id'', JStr (cl_order_id claim))] u = (Inr (CallToolResult False ts (Some (JObj order))), s1)"
    by auto
  from order_answer [OF _ u(2)] u(1) inv have go: "get_order (cl_order_id claim) ?db = Inr order"
    by (auto simp: same_tables_def)
  from retry_source [OF _ s1(1) h] obtain v ts' where v: "same_tables inv ledger orders s1 v"
      "call ''get_refund_history'' [(''user_id'', JStr (cl_user_id claim)), (''limit'', JInt REFUND_HISTORY_LIMIT)] v =
         (Inr (CallToolResult False ts' (Some (JObj history))), s')"
    by auto
  from history_answer [OF _ v(2)] v(1) s1 have gh: "get_refund_history (cl_user_id claim) REFUND_HISTORY_LIMIT ?db = Inr history"
    by (auto simp: same_tables_def)
  have "db_inv ?db" using tables_inv [OF inv] by (simp add: db_inv_def)
  from check_decides [OF this go gh c] ok show ?thesis by simp
qed

lemma verify_passed:
  assumes "inv s" "verify_claim_evidence call policy S body s = (Inr (Inr ec), s')" "passed ec"
  obtains oid user claim where "dindex body ''order_id'' = Inr oid"
    "claim_of_body body (py_str oid) user = Inr claim" "evidence_ok S claim (orders s) (ledger s)"
  using assms
  by (auto simp: verify_claim_evidence_def Let_def
      split: sum.splits if_splits dest: fetch_and_check_passed)

end

definition ep_orders :: "endpoint \<Rightarrow> order_row table" where
  "ep_orders ep = md_orders (ep_db ep)"

lemma app_orders: "md_orders (snd (app cfg env rq db)) = md_orders db"
proof (cases rule: app_cases [of cfg env rq db])
  case quiet
  then show ?thesis by simp
next
  case (ran au tool args d db')
  from ran(3) have "md_orders db' = md_orders db" by (cases rule: run_tool_cases) auto
  with ran(4) show ?thesis by simp
qed

lemma boundary_orders: "ep_orders (snd (boundary_call cfg token tool args ep)) = ep_orders ep"
  using boundary_call_rel [of "\<lambda>a b. md_orders b = md_orders a" token tool args cfg ep] app_orders
  unfolding ep_orders_def by metis

lemma get_order_view:
  "md_orders db = ords \<Longrightarrow> get_order oid db = get_order oid (db_view ords refs)"
  by (simp add: get_order_def)

lemma get_refund_history_view:
  "md_orders db = ords \<Longrightarrow> md_refunds db = refs \<Longrightarrow>
   get_refund_history user limit db = get_refund_history user limit (db_view ords refs)"
  by (simp add: get_refund_history_def)

lemma boundary_order_answer:
  assumes P: "pydantic_ok (mw_pydantic cfg)"
    and call: "boundary_call cfg token ''get_order'' [(''order_id'', JStr oid)] ep =
      (Inr (CallToolResult False ts (Some (JObj res))), ep')"
  shows "get_order oid (db_view (ep_orders ep) (ep_ledger ep)) = Inr res"
proof -
  from boundary_result [OF call] obtain now au db where db:
      "md_refunds db = ep_ledger ep" "md_orders db = ep_orders ep"
      "run_tool (mw_pydantic cfg) now ''get_order'' [(''order_id'', JStr oid)] (db\<lparr>md_audit := au\<rparr>) = Inr (res, ep_db ep')"
    by (auto simp: ep_orders_def)
  have "coerce_str (mw_pydantic cfg) (JStr oid) = Some oid" using P by (simp add: pydantic_ok_str)
  with db(3) have "get_order oid (db\<lparr>md_audit := au\<rparr>) = Inr res"
    by (auto simp: run_tool_def required_def res_simps)
  moreover have "get_order oid (db\<lparr>md_audit := au\<rparr>) = get_order oid (db_view (ep_orders ep) (ep_ledger ep))"
    by (rule get_order_view) (simp add: db)
  ultimately show ?thesis by simp
qed

lemma boundary_history_answer:
  assumes P: "pydantic_ok (mw_pydantic cfg)"
    and call: "boundary_call cfg token ''get_refund_history'' [(''user_id'', JStr user), (''limit'', JInt limit)] ep =
      (Inr (CallToolResult False ts (Some (JObj res))), ep')"
  shows "get_refund_history user limit (db_view (ep_orders ep) (ep_ledger ep)) = Inr res"
proof -
  from boundary_result [OF call] obtain now au db where db:
      "md_refunds db = ep_ledger ep" "md_orders db = ep_orders ep"
      "run_tool (mw_pydantic cfg) now ''get_refund_history'' [(''user_id'', JStr user), (''limit'', JInt limit)]
         (db\<lparr>md_audit := au\<rparr>) = Inr (res, ep_db ep')"
    by (auto simp: ep_orders_def)
  have "coerce_str (mw_pydantic cfg) (JStr user) = Some user" using P by (simp add: pydantic_ok_str)
  moreover have "coerce_int (mw_pydantic cfg) (JInt limit) = Some limit" using P by (rule pydantic_ok_int)
  ultimately have "get_refund_history user limit (db\<lparr>md_audit := au\<rparr>) = Inr res"
    using db(3) by (auto simp: run_tool_def required_def defaulted_def res_simps)
  moreover have "get_refund_history user limit (db\<lparr>md_audit := au\<rparr>) =
      get_refund_history user limit (db_view (ep_orders ep) (ep_ledger ep))"
    by (rule get_refund_history_view) (simp_all add: db)
  ultimately show ?thesis by simp
qed

interpretation evidence: evidence_endpoint "boundary_call (cfg\<lparr>mw_pydantic := lax_mode\<rparr>) token" ep_ledger ep_inv ep_orders
proof (unfold_locales, goal_cases)
  case (1 s)
  then show ?case by (simp add: ep_inv_def db_inv_def ep_orders_def ep_ledger_def)
next
  case (2 tool args s)
  show ?case by (rule boundary_orders)
next
  case (3 s oid ts res s')
  show ?case by (rule boundary_order_answer [OF _ 3(2)]) (simp add: lax_mode_ok)
next
  case (4 s user limit ts res s')
  show ?case by (rule boundary_history_answer [OF _ 4(2)]) (simp add: lax_mode_ok)
qed

section \<open>Properties\<close>

text \<open>
  C4. The evidence check on the results of the two read tools decides the specification over the
  tables: it passes exactly when the order is on file and belongs to the claiming user, the
  claim is in the order's currency, the user's refunds fit in the listing, the other refunds on
  the order are in the same currency, the claim's cents fit in what the other requests have left
  of the order, and its value in USD cents is within the limit.
\<close>

theorem evidence_exact:
  fixes S :: settings
  assumes "db_inv db"
    and "get_order (cl_order_id claim) db = Inr ores"
    and "get_refund_history (cl_user_id claim) REFUND_HISTORY_LIMIT db = Inr hist"
    and "check_refund_evidence (FX_RATES_TO_USD S) (REFUND_HUMAN_REVIEW_THRESHOLD_USD S) claim ores hist = Inr ec"
  shows "passed ec \<longleftrightarrow>
    (\<exists>ord. find_order (cl_order_id claim) (md_orders db) = Some ord \<and>
       or_user_id ord = cl_user_id claim \<and> or_currency ord = cl_currency claim \<and>
       int (length (user_refunds (md_orders db) (md_refunds db) (cl_user_id claim))) \<le> REFUND_HISTORY_LIMIT \<and>
       list_all (\<lambda>r. rf_transaction_id r = cl_order_id claim \<and> rf_request_id r \<noteq> cl_request_id claim \<longrightarrow>
         rf_currency r = cl_currency claim) (tb_rows (md_refunds db)) \<and>
       cents_of (cl_amount claim) \<le>
         max (or_amount ord - refunded_by_others (cl_request_id claim) (cl_order_id claim) (md_refunds db)) 0 \<and>
       limit_ok (FX_RATES_TO_USD S) (REFUND_HUMAN_REVIEW_THRESHOLD_USD S) (cl_currency claim)
         (cents_of (cl_amount claim)))"
  unfolding check_decides [OF assms]
  by (auto simp: evidence_ok_def remaining_cents_def split: option.splits)

definition sample_claim :: "int \<Rightarrow> refund_claim" where
  "sample_claim cents = \<lparr>cl_request_id = ''c'', cl_user_id = ''user-1'', cl_order_id = ''ord-1'',
     cl_amount = Dec cents (- 2), cl_currency = ''USD''\<rparr>"

definition history_db :: mcp_db where
  "history_db = \<lparr>md_orders = sample_orders, md_refunds = sample_history, md_audit = empty_audit\<rparr>"

definition sample_check :: "int \<Rightarrow> evidence_check res" where
  "sample_check cents =
     bindR (get_order ''ord-1'' history_db) (\<lambda>ores.
     bindR (get_refund_history ''user-1'' REFUND_HISTORY_LIMIT history_db) (\<lambda>hist.
       check_refund_evidence (FX_RATES_TO_USD default_settings)
         (REFUND_HUMAN_REVIEW_THRESHOLD_USD default_settings) (sample_claim cents) ores hist))"

lemma sample_check_runs:
  "case sample_check 5450 of Inr ec \<Rightarrow> passed ec | Inl e \<Rightarrow> False"
  by code_simp

text \<open>An order of 100.00 with 45.50 refunded: 54.50, all that remains, passes.\<close>

theorem evidence_exact_witness:
  "\<exists>ec. sample_check 5450 = Inr ec \<and> passed ec \<and>
     (\<exists>ord. find_order ''ord-1'' (md_orders history_db) = Some ord \<and>
       or_user_id ord = ''user-1'' \<and> or_currency ord = ''USD'' \<and>
       int (length (user_refunds (md_orders history_db) (md_refunds history_db) ''user-1'')) \<le> REFUND_HISTORY_LIMIT \<and>
       list_all (\<lambda>r. rf_transaction_id r = ''ord-1'' \<and> rf_request_id r \<noteq> ''c'' \<longrightarrow>
         rf_currency r = ''USD'') (tb_rows (md_refunds history_db)) \<and>
       5450 \<le> max (or_amount ord - refunded_by_others ''c'' ''ord-1'' (md_refunds history_db)) 0 \<and>
       limit_ok (FX_RATES_TO_USD default_settings) (REFUND_HUMAN_REVIEW_THRESHOLD_USD default_settings) ''USD'' 5450)"
proof -
  have c: "cl_order_id (sample_claim 5450) = ''ord-1''" "cl_user_id (sample_claim 5450) = ''user-1''"
      "cl_request_id (sample_claim 5450) = ''c''" "cl_currency (sample_claim 5450) = ''USD''"
      "cents_of (cl_amount (sample_claim 5450)) = 5450"
    by (simp_all add: sample_claim_def)
  have inv: "db_inv history_db"
    by (simp add: db_inv_def history_db_def orders_inv_def keyed_def sample_orders_def ledger_inv_def
        sample_history_def max_numeric_def)
  from sample_check_runs obtain ec where ec: "sample_check 5450 = Inr ec" "passed ec"
    by (auto split: sum.splits)
  from ec(1) obtain ores hist where r: "get_order (cl_order_id (sample_claim 5450)) history_db = Inr ores"
      "get_refund_history (cl_user_id (sample_claim 5450)) REFUND_HISTORY_LIMIT history_db = Inr hist"
      "check_refund_evidence (FX_RATES_TO_USD default_settings) (REFUND_HUMAN_REVIEW_THRESHOLD_USD default_settings)
         (sample_claim 5450) ores hist = Inr ec"
    unfolding sample_check_def res_simps c by blast
  from evidence_exact [OF inv r] ec show ?thesis unfolding c by blast
qed

end
