(* ===== verification/Json_Loads.thy ===== *)
theory Json_Loads
  imports PyJson
begin

text \<open>
  \<open>json.loads\<close>, the default decoder: what the program applies to queue messages, HTTP bodies
  and model replies. It accepts what Python's decoder accepts (also \<open>NaN\<close> and the infinities);
  a repeated key keeps its first place and its last value. Escapes of characters from 256 on are
  outside the character type and are not accepted; a number literal is taken at its decimal
  value. The recursion is bounded by the length of the text.
\<close>

section \<open>Strings\<close>

definition hex_value :: "char \<Rightarrow> nat option" where
  "hex_value c =
     (let n = (of_char c :: nat)
      in if 48 \<le> n \<and> n \<le> 57 then Some (n - 48)
         else if 97 \<le> n \<and> n \<le> 102 then Some (n - 87)
         else if 65 \<le> n \<and> n \<le> 70 then Some (n - 55) else None)"

definition simple_escape :: "char \<Rightarrow> char option" where
  "simple_escape c =
     (if c = CHR 0x22 \<or> c = CHR 0x5C \<or> c = CHR ''/'' then Some c
      else if c = CHR ''b'' then Some (CHR 0x08) else if c = CHR ''f'' then Some (CHR 0x0C)
      else if c = CHR ''n'' then Some (CHR 0x0A) else if c = CHR ''r'' then Some (CHR 0x0D)
      else if c = CHR ''t'' then Some (CHR 0x09) else None)"

text \<open>Four hexadecimal digits of a character below 256.\<close>

definition unicode_escape :: "string \<Rightarrow> (char \<times> string) option" where
  "unicode_escape s =
     (case s of
        a # b # c # d # r \<Rightarrow>
          (case (hex_value a, hex_value b, hex_value c, hex_value d) of
             (Some x, Some y, Some z, Some w) \<Rightarrow>
               if x = 0 \<and> y = 0 then Some (char_of (16 * z + w), r) else None
           | _ \<Rightarrow> None)
      | _ \<Rightarrow> None)"

lemma unicode_escape_shorter: "unicode_escape s = Some (c, r) \<Longrightarrow> length r < length s"
  by (auto simp: unicode_escape_def split: list.splits option.splits if_splits)

text \<open>The text after the opening quote.\<close>

function read_string :: "string \<Rightarrow> (string \<times> string) option" where
  "read_string [] = None"
| "read_string (c # cs) =
     (if c = CHR 0x22 then Some ([], cs)
      else if c = CHR 0x5C
      then (case cs of [] \<Rightarrow> None
            | e # es \<Rightarrow>
                if e = CHR ''u''
                then (case unicode_escape es of None \<Rightarrow> None
                      | Some (x, r) \<Rightarrow> map_option (\<lambda>(t, u). (x # t, u)) (read_string r))
                else (case simple_escape e of None \<Rightarrow> None
                      | Some x \<Rightarrow> map_option (\<lambda>(t, u). (x # t, u)) (read_string es)))
      else if (of_char c :: nat) < 32 then None
      else map_option (\<lambda>(t, u). (c # t, u)) (read_string cs))"
  by pat_completeness auto
termination
  by (relation "measure length") (auto dest: unicode_escape_shorter)

section \<open>Numbers\<close>

definition read_int_part :: "string \<Rightarrow> (string \<times> string) option" where
  "read_int_part s =
     (case s of [] \<Rightarrow> None
      | c # r \<Rightarrow> if c = CHR ''0'' then Some ([c], r)
                 else if is_digit c then Some (takeWhile is_digit s, dropWhile is_digit s) else None)"

definition read_frac_part :: "string \<Rightarrow> string \<times> string" where
  "read_frac_part s =
     (case s of c # d # r \<Rightarrow> if c = CHR ''.'' \<and> is_digit d
                             then (takeWhile is_digit (d # r), dropWhile is_digit (d # r)) else ([], s)
      | _ \<Rightarrow> ([], s))"

text \<open>The exponent, with a flag for its presence.\<close>

definition read_exp_part :: "string \<Rightarrow> (bool \<times> int) \<times> string" where
  "read_exp_part s =
     (case s of [] \<Rightarrow> ((False, 0), s)
      | c # r \<Rightarrow>
          if c = CHR ''e'' \<or> c = CHR ''E''
          then (let (neg, ds) = split_sign r; digits = takeWhile is_digit ds
                in if digits = [] then ((False, 0), s)
                   else ((True, (if neg then - 1 else 1) * nat_of_digits digits), dropWhile is_digit ds))
          else ((False, 0), s))"

definition read_number :: "string \<Rightarrow> (json \<times> string) option" where
  "read_number s =
     (let neg = (case s of [] \<Rightarrow> False | c # _ \<Rightarrow> c = CHR ''-''); sg = (if neg then - 1 else 1 :: int)
      in case read_int_part (if neg then tl s else s) of
           None \<Rightarrow> None
         | Some (ip, r1) \<Rightarrow>
             let (fp, r2) = read_frac_part r1; ((has_exp, ex), r3) = read_exp_part r2
             in if fp = [] \<and> \<not> has_exp then Some (JInt (sg * nat_of_digits ip), r3)
                else Some (JFloat (Fin (Dec (sg * nat_of_digits (ip @ fp)) (ex - int (length fp)))), r3))"

section \<open>Values\<close>

definition is_json_space :: "char \<Rightarrow> bool" where
  "is_json_space c = (c = CHR '' '' \<or> c = CHR 0x09 \<or> c = CHR 0x0A \<or> c = CHR 0x0D)"

abbreviation skip :: "string \<Rightarrow> string" where
  "skip s \<equiv> dropWhile is_json_space s"

definition starts :: "string \<Rightarrow> string \<Rightarrow> bool" where
  "starts p s = (take (length p) s = p)"

definition read_literal :: "string \<Rightarrow> (json \<times> string) option" where
  "read_literal s =
     (if starts ''null'' s then Some (JNull, drop 4 s)
      else if starts ''true'' s then Some (JBool True, drop 4 s)
      else if starts ''false'' s then Some (JBool False, drop 5 s)
      else if starts ''NaN'' s then Some (JFloat NaN, drop 3 s)
      else if starts ''Infinity'' s then Some (JFloat PInf, drop 8 s)
      else if starts ''-Infinity'' s then Some (JFloat NInf, drop 9 s)
      else read_number s)"

text \<open>A value, the elements of a list and the members of an object, each after its white space.\<close>

fun read_value :: "nat \<Rightarrow> string \<Rightarrow> (json \<times> string) option"
  and read_elements :: "nat \<Rightarrow> string \<Rightarrow> (json list \<times> string) option"
  and read_members :: "nat \<Rightarrow> dict \<Rightarrow> string \<Rightarrow> (dict \<times> string) option" where
  "read_value 0 s = None"
| "read_value (Suc n) [] = None"
| "read_value (Suc n) (c # cs) =
     (if c = CHR 0x22 then map_option (\<lambda>(t, r). (JStr t, r)) (read_string cs)
      else if c = CHR ''['' then
        (let s = skip cs
         in if s \<noteq> [] \<and> hd s = CHR '']'' then Some (JList [], tl s)
            else map_option (\<lambda>(xs, r). (JList xs, r)) (read_elements n s))
      else if c = CHR ''{'' then
        (let s = skip cs
         in if s \<noteq> [] \<and> hd s = CHR ''}'' then Some (JObj [], tl s)
            else map_option (\<lambda>(d, r). (JObj d, r)) (read_members n [] s))
      else read_literal (c # cs))"
| "read_elements 0 s = None"
| "read_elements (Suc n) s =
     (case read_value n s of None \<Rightarrow> None
      | Some (v, r) \<Rightarrow>
          (case skip r of [] \<Rightarrow> None
           | c # r' \<Rightarrow> if c = CHR '']'' then Some ([v], r')
                       else if c = CHR '','' then map_option (\<lambda>(vs, u). (v # vs, u)) (read_elements n (skip r'))
                       else None))"
| "read_members 0 d s = None"
| "read_members (Suc n) d s =
     (case s of [] \<Rightarrow> None
      | q # cs \<Rightarrow>
          if q \<noteq> CHR 0x22 then None
          else (case read_string cs of None \<Rightarrow> None
                | Some (k, r) \<Rightarrow>
                    (case skip r of [] \<Rightarrow> None
                     | c # r1 \<Rightarrow>
                         if c \<noteq> CHR '':'' then None
                         else (case read_value n (skip r1) of None \<Rightarrow> None
                               | Some (v, r2) \<Rightarrow>
                                   (case skip r2 of [] \<Rightarrow> None
                                    | e # r3 \<Rightarrow>
                                        if e = CHR ''}'' then Some (dset k v d, r3)
                                        else if e = CHR '','' then read_members n (dset k v d) (skip r3)
                                        else None)))))"

text \<open>\<open>json.loads(s)\<close>; \<open>None\<close> is the \<open>JSONDecodeError\<close>.\<close>

definition json_loads :: "string \<Rightarrow> json option" where
  "json_loads s =
     (case read_value (2 * length s + 1) (skip s) of
        None \<Rightarrow> None
      | Some (v, r) \<Rightarrow> if skip r = [] then Some v else None)"

lemma json_loads_example:
  "json_loads ''{\"verdict\": \"APPROVE\", \"n\": [1, -2.5e1, null]} '' =
     Some (JObj [(''verdict'', JStr ''APPROVE''), (''n'', JList [JInt 1, JFloat (Fin (Dec (- 25) 0)), JNull])])"
  by code_simp

end
