(* ===== verification/Llm.thy ===== *)
theory Llm
  imports Schemas Json_Loads
begin

text \<open>
  Choosing and asking a model (\<open>src/agents/provider_roles.py\<close>, \<open>llm_factory.py\<close>,
  \<open>token_usage.py\<close>). What a remote model answers is an argument: a function from the request
  to its reply or to the exception the call raises. The mock provider's answers are the
  source's. The texts of replies are JSON values, as LangChain hands them over: a string, or a
  list of content blocks.
\<close>

section \<open>provider_roles\<close>

datatype llm_role = Judge1 | Judge2 | SupremeCourt | PromptGuard | FrontDesk

primrec DEFAULT_ROLE_PROVIDERS :: "llm_role \<Rightarrow> string" where
  "DEFAULT_ROLE_PROVIDERS Judge1 = ''gemini''"
| "DEFAULT_ROLE_PROVIDERS Judge2 = ''groq''"
| "DEFAULT_ROLE_PROVIDERS SupremeCourt = ''gemini''"
| "DEFAULT_ROLE_PROVIDERS PromptGuard = ''groq''"
| "DEFAULT_ROLE_PROVIDERS FrontDesk = ''gemini''"

definition normalize_provider :: "string \<Rightarrow> string" where
  "normalize_provider p = strip (lower p)"

definition provider_for_role :: "settings \<Rightarrow> llm_role \<Rightarrow> string" where
  "provider_for_role S role =
     (let configured = normalize_provider (LLM_PROVIDER S); provider = DEFAULT_ROLE_PROVIDERS role
      in if configured = ''mock'' then ''mock''
         else if configured = ''vertex'' \<and> provider = ''gemini'' then ''vertex''
         else provider)"

definition model_for_role :: "settings \<Rightarrow> llm_role \<Rightarrow> string option" where
  "model_for_role S role =
     (if provider_for_role S role \<noteq> ''gemini'' \<and> provider_for_role S role \<noteq> ''vertex'' then None
      else if role = SupremeCourt then Some (SUPREME_COURT_MODEL S)
      else if role = FrontDesk then Some (FRONT_DESK_MODEL S)
      else None)"

section \<open>llm_factory\<close>

definition PROMPT_GUARD_MODEL :: string where
  "PROMPT_GUARD_MODEL = ''meta-llama/llama-prompt-guard-2-22m''"

definition FRONT_DESK_MOCK_MODEL :: string where
  "FRONT_DESK_MOCK_MODEL = ''mock-front-desk-proposal''"

text \<open>Which optional client packages are importable.\<close>

record packages =
  pk_genai :: bool
  pk_openai :: bool
  pk_aws :: bool
  pk_groq :: bool

text \<open>A client: fixed replies, or a remote model.\<close>

datatype chat_model = FakeListChatModel string | RemoteModel string string

definition resolve_provider :: "settings \<Rightarrow> string option \<Rightarrow> string" where
  "resolve_provider S provider =
     normalize_provider (case provider of None \<Rightarrow> LLM_PROVIDER S | Some p \<Rightarrow> p)"

definition mock_proposal :: string where
  "mock_proposal = ''{\"intent\": \"refund\", \"order_id\": \"ord-1\", \"amount\": 10.0, '' @
     ''\"currency\": \"USD\", \"reason\": \"Mocked for local dev\"}''"

definition mock_verdict :: string where
  "mock_verdict = ''{\"verdict\": \"APPROVE\", \"reason\": \"Mocked for local dev\"}''"

definition or_default :: "string option \<Rightarrow> string \<Rightarrow> string" where
  "or_default name d = (case name of None \<Rightarrow> d | Some m \<Rightarrow> if m = [] then d else m)"

definition get_llm :: "settings \<Rightarrow> packages \<Rightarrow> string option \<Rightarrow> string option \<Rightarrow> chat_model res" where
  "get_llm S pk provider0 model_name =
     (let provider = resolve_provider S provider0
      in if provider = ''mock'' then
           (if model_name = Some PROMPT_GUARD_MODEL then Inr (FakeListChatModel ''0.0'')
            else if model_name = Some FRONT_DESK_MOCK_MODEL then Inr (FakeListChatModel mock_proposal)
            else Inr (FakeListChatModel mock_verdict))
         else if provider = ''openai'' then
           (if pk_openai pk then Inr (RemoteModel provider ''gpt-4o'')
            else Inl (Exn ''ImportError'' ''langchain-openai is not installed''))
         else if provider = ''vertex'' then
           (if pk_genai pk then Inr (RemoteModel provider (or_default model_name (VERTEX_MODEL S)))
            else Inl (Exn ''ImportError'' ''langchain-google-genai is not installed''))
         else if provider = ''gemini'' then
           (if pk_genai pk then Inr (RemoteModel provider (or_default model_name ''gemini-3.5-flash-lite''))
            else Inl (Exn ''ImportError'' ''langchain-google-genai is not installed''))
         else if provider = ''bedrock'' then
           (if pk_aws pk then Inr (RemoteModel provider ''anthropic.claude-3-5-sonnet-20240620-v1:0'')
            else Inl (Exn ''ImportError'' ''langchain-aws is not installed''))
         else if provider = ''groq'' then
           (if pk_groq pk then Inr (RemoteModel provider (or_default model_name ''openai/gpt-oss-20b''))
            else Inl (Exn ''ImportError'' ''langchain-groq is not installed''))
         else Inl (Exn ''ValueError'' (''Unsupported LLM_PROVIDER: '' @ provider)))"

text \<open>
  The embeddings factory: the deterministic mock or a remote client, with the model it names.
\<close>

datatype embeddings_client = HashEmbeddings nat | RemoteEmbeddings string string

definition get_embeddings :: "settings \<Rightarrow> packages \<Rightarrow> string option \<Rightarrow> embeddings_client res" where
  "get_embeddings S pk provider0 =
     (let provider = resolve_provider S provider0
      in if provider = ''mock'' then Inr (HashEmbeddings 768)
         else if provider = ''vertex'' then
           (if pk_genai pk then Inr (RemoteEmbeddings provider (VERTEX_EMBEDDING_MODEL S))
            else Inl (Exn ''ImportError'' ''langchain-google-genai is not installed''))
         else if provider = ''gemini'' then
           (if pk_genai pk then Inr (RemoteEmbeddings provider ''models/gemini-embedding-001'')
            else Inl (Exn ''ImportError'' ''langchain-google-genai is not installed''))
         else Inl (Exn ''ValueError''
           (''No embeddings provider configured for LLM_PROVIDER='' @ repr_str provider @
            ''. Phase 1.D currently supports 'gemini'/'vertex' and 'mock'.'')))"

text \<open>\<open>_DeterministicHashEmbeddings._vector\<close>: the bytes of the digest over and over, as
  numerators over 255. The digest is an argument.\<close>

definition hash_vector :: "(string \<Rightarrow> nat list) \<Rightarrow> nat \<Rightarrow> string \<Rightarrow> rat list" where
  "hash_vector digest dimension text =
     map (\<lambda>i. of_nat (digest text ! (i mod length (digest text))) / 255) [0 ..< dimension]"

section \<open>token_usage\<close>

definition extract_usage :: "dict option \<Rightarrow> dict option" where
  "extract_usage usage_metadata =
     (case usage_metadata of None \<Rightarrow> None
      | Some usage \<Rightarrow>
          if usage = [] then None
          else Some [(''input_tokens'', dget_or usage ''input_tokens'' (JInt 0)),
                     (''output_tokens'', dget_or usage ''output_tokens'' (JInt 0)),
                     (''total_tokens'', dget_or usage ''total_tokens'' (JInt 0))])"

section \<open>Asking\<close>

record llm_request =
  lq_provider :: string
  lq_model :: string
  lq_system :: string
  lq_user :: string

text \<open>The outside world of the agents: the installed packages and the remote models.\<close>

record llm_world =
  lw_packages :: packages
  lw_reply :: "llm_request \<Rightarrow> json res"

definition ainvoke :: "llm_world \<Rightarrow> chat_model \<Rightarrow> string \<Rightarrow> string \<Rightarrow> json res" where
  "ainvoke w model system user =
     (case model of
        FakeListChatModel r \<Rightarrow> Inr (JStr r)
      | RemoteModel p m \<Rightarrow>
          lw_reply w \<lparr>lq_provider = p, lq_model = m, lq_system = system, lq_user = user\<rparr>)"

section \<open>Reading a reply\<close>

text \<open>The text of the content: the \<open>text\<close> of the blocks, other entries as \<open>str\<close>.\<close>

definition block_text :: "json \<Rightarrow> string res" where
  "block_text block =
     (case block of
        JObj d \<Rightarrow> (case dget_or d ''text'' (JStr '''') of JStr s \<Rightarrow> Inr s | _ \<Rightarrow> raise_exn ''TypeError'')
      | _ \<Rightarrow> Inr (py_str block))"

definition content_text :: "json \<Rightarrow> string res" where
  "content_text content_raw =
     (case content_raw of
        JList blocks \<Rightarrow> bindR (mapR block_text blocks) (\<lambda>ts. Inr (concat ts))
      | _ \<Rightarrow> Inr (py_str content_raw))"

text \<open>\<open>re.search(r"{.*}", s, re.DOTALL)\<close>: from the first brace to the last closing one.\<close>

definition braced :: "string \<Rightarrow> string option" where
  "braced s =
     (let t = dropWhile (\<lambda>c. c \<noteq> CHR ''{'') s; u = rev (dropWhile (\<lambda>c. c \<noteq> CHR ''}'') (rev t))
      in if t = [] \<or> u = [] then None else Some u)"

text \<open>The JSON object of a reply, markdown around it or not.\<close>

definition reply_json :: "json \<Rightarrow> json res" where
  "reply_json content_raw =
     bindR (content_text content_raw) (\<lambda>content.
       let body = (case braced (strip content) of None \<Rightarrow> strip content | Some b \<Rightarrow> b)
       in case json_loads body of None \<Rightarrow> raise_exn ''JSONDecodeError'' | Some v \<Rightarrow> Inr v)"

section \<open>Lemmas\<close>

lemma provider_for_role_cases:
  "provider_for_role S role \<in> {''mock'', ''vertex'', ''gemini'', ''groq''}"
  by (cases role) (simp_all add: provider_for_role_def Let_def)

lemma normalize_examples:
  "normalize_provider ''mock'' = ''mock''" "normalize_provider ''vertex'' = ''vertex''"
  "normalize_provider ''gemini'' = ''gemini''" "normalize_provider ''groq'' = ''groq''"
  by code_simp+

lemma get_llm_total:
  "pk_genai pk \<Longrightarrow> pk_groq pk \<Longrightarrow> \<exists>m. get_llm S pk (Some (provider_for_role S role)) name = Inr m"
  using provider_for_role_cases [of S role]
  by (auto simp: get_llm_def resolve_provider_def normalize_examples Let_def)

section \<open>Properties\<close>

text \<open>
  The roles: under the mock provider every role is the mock, and asking it makes no remote
  call; otherwise the two judges are never on the same provider, the guard stays on Groq, only
  the Gemini roles move to Vertex, and a model of its own is named for exactly the Supreme Court
  and the Front-Desk.
\<close>

theorem role_providers:
  "(if normalize_provider (LLM_PROVIDER S) = ''mock''
    then provider_for_role S role = ''mock'' \<and> model_for_role S role = None \<and>
      (\<exists>r. get_llm S pk (Some (provider_for_role S role)) name = Inr (FakeListChatModel r))
    else provider_for_role S Judge1 \<noteq> provider_for_role S Judge2 \<and>
      provider_for_role S PromptGuard = ''groq'' \<and>
      (provider_for_role S role = ''vertex'') =
        (normalize_provider (LLM_PROVIDER S) = ''vertex'' \<and> DEFAULT_ROLE_PROVIDERS role = ''gemini'') \<and>
      (model_for_role S role \<noteq> None) = (role \<in> {SupremeCourt, FrontDesk}))"
proof (cases "normalize_provider (LLM_PROVIDER S) = ''mock''")
  case True
  then show ?thesis
    by (simp add: provider_for_role_def model_for_role_def get_llm_def resolve_provider_def
        normalize_examples Let_def)
next
  case False
  then show ?thesis
    by (cases role) (auto simp: provider_for_role_def model_for_role_def Let_def)
qed

section \<open>Text around the object\<close>

lemma dropWhile_weaker: "(\<And>x. Q x \<Longrightarrow> P x) \<Longrightarrow> dropWhile P (dropWhile Q xs) = dropWhile P xs"
  by (induction xs) auto

lemma dropWhile_append_all: "list_all P xs \<Longrightarrow> dropWhile P (xs @ ys) = dropWhile P ys"
  by (induction xs) auto

lemma braced_around:
  assumes "CHR ''{'' \<notin> set pre" "CHR ''}'' \<notin> set post"
    and "body \<noteq> []" "hd body = CHR ''{''" "last body = CHR ''}''"
  shows "braced (pre @ body @ post) = Some body"
proof -
  obtain b where b: "body = CHR ''{'' # b" using assms(3,4) by (cases body) auto
  have "dropWhile (\<lambda>c. c \<noteq> CHR ''{'') (pre @ body @ post) = body @ post"
    using assms(1) b by (subst dropWhile_append_all) (auto simp: list_all_iff)
  moreover obtain e where e: "rev body = CHR ''}'' # e"
    using assms(3,5) by (metis hd_rev list.collapse rev_is_Nil_conv)
  have "dropWhile (\<lambda>c. c \<noteq> CHR ''}'') (rev (body @ post)) = rev body"
    using assms(2) e by (simp, subst dropWhile_append_all) (auto simp: list_all_iff)
  moreover have "CHR ''}'' \<in> set body" using assms(3,5) last_in_set by metis
  ultimately show ?thesis using assms(3) by (simp add: braced_def Let_def)
qed

lemma brace_no_space: "is_space c \<Longrightarrow> c \<noteq> CHR ''{'' \<and> c \<noteq> CHR ''}''"
  by (auto simp: is_space_def)

text \<open>Stripping white space leaves such a text in the same shape.\<close>

lemma strip_around:
  assumes "body \<noteq> []" "hd body = CHR ''{''" "last body = CHR ''}''"
  shows "\<exists>pre' post'. strip (pre @ body @ post) = pre' @ body @ post' \<and> set pre' \<subseteq> set pre \<and> set post' \<subseteq> set post"
proof -
  obtain b where b: "body = CHR ''{'' # b" using assms(1,2) by (cases body) auto
  obtain e where e: "rev body = CHR ''}'' # e" using assms(1,3) by (metis hd_rev list.collapse rev_is_Nil_conv)
  have ns: "\<not> is_space (CHR ''{'')" "\<not> is_space (CHR ''}'')" by (auto simp: is_space_def)
  have dw: "dropWhile is_space (xs @ c # ys) = dropWhile is_space xs @ c # ys" if "\<not> is_space c" for xs ys c
    using that by (induction xs) auto
  have 1: "dropWhile is_space (pre @ body @ post) = dropWhile is_space pre @ body @ post"
    using dw [OF ns(1), of pre "b @ post"] b by simp
  have "rev (dropWhile is_space pre @ body @ post) = rev post @ CHR ''}'' # (e @ rev (dropWhile is_space pre))"
    using e by simp
  then have "dropWhile is_space (rev (dropWhile is_space pre @ body @ post)) =
      dropWhile is_space (rev post) @ rev body @ rev (dropWhile is_space pre)"
    using dw [OF ns(2), of "rev post"] e by simp
  then have "strip (pre @ body @ post) =
      dropWhile is_space pre @ body @ rev (dropWhile is_space (rev post))"
    unfolding strip_def 1 by simp
  moreover have "set (dropWhile is_space pre) \<subseteq> set pre" "set (rev (dropWhile is_space (rev post))) \<subseteq> set post"
    by (auto dest: set_dropWhileD)
  ultimately show ?thesis by blast
qed

lemma reply_json_around:
  assumes "CHR ''{'' \<notin> set pre" "CHR ''}'' \<notin> set post"
    and "body \<noteq> []" "hd body = CHR ''{''" "last body = CHR ''}''"
  shows "reply_json (JStr (pre @ body @ post)) =
    (case json_loads body of None \<Rightarrow> raise_exn ''JSONDecodeError'' | Some v \<Rightarrow> Inr v)"
proof -
  from strip_around [OF assms(3-5), of pre post] obtain pre' post' where
    s: "strip (pre @ body @ post) = pre' @ body @ post'" "set pre' \<subseteq> set pre" "set post' \<subseteq> set post" by blast
  then have "braced (strip (pre @ body @ post)) = Some body"
    using assms by (metis braced_around in_mono)
  then show ?thesis by (simp add: reply_json_def content_text_def)
qed

text \<open>A block without text, a model's thinking, adds nothing.\<close>

lemma reply_json_blocks:
  assumes "map_of d ''text'' = Some (JStr t)" "map_of thinking ''text'' = None"
  shows "reply_json (JList [JObj thinking, JObj d]) = reply_json (JStr t)"
  using assms by (simp add: reply_json_def content_text_def block_text_def dget_or_def)

end
