(* ===== verification/Json_Wire.thy ===== *)
theory Json_Wire
  imports Json_Loads
begin

text \<open>
  What is written reads back: \<open>json.loads\<close> applied to the text of \<open>json.dumps\<close>, which is how a
  claim travels from the gateway to the queue, from the sweeper back to it and into the
  worker. The proof is made once for every way to escape the characters of a string; the
  encoder's own escapes and the fence of the judges' prompt are two instances.
\<close>

section \<open>Digits\<close>

lemma is_digit_char: "n < 10 \<Longrightarrow> is_digit (digit_char n)"
  by (simp add: is_digit_def digit_value_digit_char)

lemma show_nat_digits [simp]: "list_all is_digit (show_nat n)"
proof (induction n rule: show_nat.induct)
  case (1 n)
  then show ?case by (subst show_nat.simps) (simp add: is_digit_char)
qed

lemma show_nat_0: "show_nat 0 = ''0''"
  by (simp add: show_nat.simps digit_char_def)

lemma show_nat_head: "0 < n \<Longrightarrow> hd (show_nat n) \<noteq> CHR ''0''"
proof (induction n rule: show_nat.induct)
  case (1 n)
  show ?case
  proof (cases "n < 10")
    case True
    with 1(2) have "n \<in> {1, 2, 3, 4, 5, 6, 7, 8, 9}" by auto
    then show ?thesis by (subst show_nat.simps) (auto simp: digit_char_def)
  next
    case False
    with 1 show ?thesis by (subst show_nat.simps) (simp add: show_nat_nonempty)
  qed
qed

lemma digits_value_from:
  "list_all is_digit s \<Longrightarrow> \<exists>m. \<forall>acc. digits_value acc s = Some (acc * 10 ^ length s + m)"
proof (induction s)
  case (Cons c s)
  then obtain v m where "digit_value c = Some v" "\<forall>acc. digits_value acc s = Some (acc * 10 ^ length s + m)"
    by (auto simp: is_digit_def)
  then have "\<forall>acc. digits_value acc (c # s) = Some (acc * 10 ^ length (c # s) + (v * 10 ^ length s + m))"
    by (simp add: algebra_simps)
  then show ?case by blast
qed simp

lemma digits_value_acc:
  assumes "list_all is_digit s"
  shows "digits_value acc s = Some (acc * 10 ^ length s + nat (nat_of_digits s))"
proof -
  obtain m where m: "\<forall>acc. digits_value acc s = Some (acc * 10 ^ length s + m)"
    using digits_value_from [OF assms] by blast
  then have "nat_of_digits s = int m" by (simp add: nat_of_digits_def)
  with m show ?thesis by simp
qed

lemma nat_of_digits_append:
  assumes "list_all is_digit a" "list_all is_digit b"
  shows "nat_of_digits (a @ b) = nat_of_digits a * 10 ^ length b + nat_of_digits b"
proof -
  have nn: "0 \<le> nat_of_digits x" for x by (simp add: nat_of_digits_def split: option.split)
  have "digits_value 0 (a @ b) = Some (nat (nat_of_digits a) * 10 ^ length b + nat (nat_of_digits b))"
    using assms by (simp add: digits_value_append digits_value_acc)
  then show ?thesis using nn [of a] nn [of b] by (simp add: nat_of_digits_def [of "a @ b"])
qed

lemma nat_of_digits_show [simp]: "nat_of_digits (show_nat n) = int n"
  by (simp add: nat_of_digits_def digits_value_show_nat)

lemma zeros_digits [simp]: "list_all is_digit (replicate k (CHR ''0''))"
  by (simp add: list_all_iff is_digit_def digit_value_def)

lemma nat_of_zeros [simp]: "nat_of_digits (replicate k (CHR ''0'')) = 0"
proof (induction k)
  case 0
  show ?case by (simp add: nat_of_digits_def)
next
  case (Suc k)
  have "nat_of_digits (''0'' @ replicate k (CHR ''0'')) = 0"
    using Suc by (subst nat_of_digits_append) (simp_all add: is_digit_def digit_value_def nat_of_digits_def)
  then show ?case by simp
qed

section \<open>Numbers\<close>

definition no_digit_next :: "string \<Rightarrow> bool" where
  "no_digit_next r = (case r of [] \<Rightarrow> True | c # _ \<Rightarrow> \<not> is_digit c)"

text \<open>What may follow a value: nothing, a comma or a closing bracket.\<close>

definition ends :: "string \<Rightarrow> bool" where
  "ends r = (case r of [] \<Rightarrow> True | c # _ \<Rightarrow> c = CHR '','' \<or> c = CHR '']'' \<or> c = CHR ''}'')"

lemma ends_simps [simp]: "ends []" "ends (CHR '','' # r)" "ends (CHR '']'' # r)" "ends (CHR ''}'' # r)"
  by (simp_all add: ends_def)

lemma ends_no_digit [simp]: "ends r \<Longrightarrow> no_digit_next r"
  by (cases r) (auto simp: ends_def no_digit_next_def is_digit_def digit_value_def)

lemma take_digits:
  "list_all is_digit ds \<Longrightarrow> no_digit_next r \<Longrightarrow> takeWhile is_digit (ds @ r) = ds \<and> dropWhile is_digit (ds @ r) = r"
  by (induction ds) (auto simp: no_digit_next_def split: list.splits)

lemma read_int_part_digits:
  assumes "list_all is_digit ip" "ip \<noteq> []" "ip = ''0'' \<or> hd ip \<noteq> CHR ''0''" "no_digit_next r"
  shows "read_int_part (ip @ r) = Some (ip, r)"
  using assms take_digits [OF assms(1,4)] by (cases ip) (auto simp: read_int_part_def)

lemma read_frac_part_digits:
  assumes "list_all is_digit fp" "fp \<noteq> []" "no_digit_next r"
  shows "read_frac_part (CHR ''.'' # fp @ r) = (fp, r)"
  using assms take_digits [OF assms(1,3)] by (cases fp) (auto simp: read_frac_part_def)

lemma read_frac_part_none: "r = [] \<or> hd r \<noteq> CHR ''.'' \<Longrightarrow> read_frac_part r = ([], r)"
  by (auto simp: read_frac_part_def split: list.split)

lemma read_exp_part_none: "ends r \<Longrightarrow> read_exp_part r = ((False, 0), r)"
  by (auto simp: read_exp_part_def ends_def split: list.split)

lemma read_exp_part_digits:
  assumes "list_all is_digit ds" "ds \<noteq> []" "no_digit_next r"
  shows "read_exp_part (CHR ''e'' # (if neg then ''-'' else ''+'') @ ds @ r) =
    ((True, (if neg then - 1 else 1) * nat_of_digits ds), r)"
  using assms take_digits [OF assms(1,3)] by (auto simp: read_exp_part_def split_sign_def)

lemma ends_no_point: "ends r \<Longrightarrow> r = [] \<or> hd r \<noteq> CHR ''.''"
  by (cases r) (auto simp: ends_def)

text \<open>A number text: an optional minus, digits, and optionally a fraction and an exponent.\<close>

definition signed :: "bool \<Rightarrow> string \<Rightarrow> string" where
  "signed neg s = (if neg then CHR ''-'' # s else s)"

definition int_digits :: "string \<Rightarrow> bool" where
  "int_digits ip \<longleftrightarrow> list_all is_digit ip \<and> ip \<noteq> [] \<and> (ip = ''0'' \<or> hd ip \<noteq> CHR ''0'')"

lemma int_digits_show: "int_digits (show_nat n)"
  using show_nat_head [of n] by (cases "n = 0") (auto simp: int_digits_def show_nat_0 show_nat_nonempty is_digit_def digit_value_def)

lemma int_digits_head: "int_digits ip \<Longrightarrow> ip @ r \<noteq> [] \<and> hd (ip @ r) \<noteq> CHR ''-''"
  by (cases ip) (auto simp: int_digits_def is_digit_def digit_value_def)

lemma read_number_signed:
  assumes "int_digits ip"
  shows "read_number (signed neg (ip @ r)) =
    (case read_int_part (ip @ r) of None \<Rightarrow> None
     | Some (ip, r1) \<Rightarrow>
         let (fp, r2) = read_frac_part r1; ((has_exp, ex), r3) = read_exp_part r2; sg = (if neg then - 1 else 1)
         in if fp = [] \<and> \<not> has_exp then Some (JInt (sg * nat_of_digits ip), r3)
            else Some (JFloat (Fin (Dec (sg * nat_of_digits (ip @ fp)) (ex - int (length fp)))), r3))"
proof -
  obtain c s where "ip @ r = c # s" "c \<noteq> CHR ''-''" using int_digits_head [OF assms, of r] by (cases "ip @ r") auto
  then show ?thesis by (auto simp: read_number_def signed_def Let_def split: option.split prod.split)
qed

lemma read_number_int:
  assumes "int_digits ip" "ends r"
  shows "read_number (signed neg (ip @ r)) = Some (JInt ((if neg then - 1 else 1) * nat_of_digits ip), r)"
  using assms read_int_part_digits [of ip r] read_frac_part_none [OF ends_no_point [OF assms(2)]]
  by (simp add: read_number_signed int_digits_def read_exp_part_none)

lemma read_number_point:
  assumes "int_digits ip" "list_all is_digit fp" "fp \<noteq> []" "ends r"
  shows "read_number (signed neg (ip @ CHR ''.'' # fp @ r)) =
    Some (JFloat (Fin (Dec ((if neg then - 1 else 1) * nat_of_digits (ip @ fp)) (- int (length fp)))), r)"
proof -
  have "no_digit_next (CHR ''.'' # fp @ r)" by (simp add: no_digit_next_def is_digit_def digit_value_def)
  then have "read_int_part (ip @ CHR ''.'' # fp @ r) = Some (ip, CHR ''.'' # fp @ r)"
    using assms(1) by (intro read_int_part_digits) (simp_all add: int_digits_def)
  moreover have "read_frac_part (CHR ''.'' # fp @ r) = (fp, r)"
    using assms by (intro read_frac_part_digits) simp_all
  ultimately show ?thesis using assms(3,4) by (simp add: read_number_signed [OF assms(1)] read_exp_part_none)
qed

lemma read_number_exp:
  assumes "int_digits ip" "list_all is_digit fp" "list_all is_digit ex" "ex \<noteq> []" "ends r"
  shows "read_number (signed neg (ip @ (if fp = [] then [] else CHR ''.'' # fp) @ CHR ''e'' # (if sg then ''-'' else ''+'') @ ex @ r)) =
    Some (JFloat (Fin (Dec ((if neg then - 1 else 1) * nat_of_digits (ip @ fp))
      ((if sg then - 1 else 1) * nat_of_digits ex - int (length fp)))), r)"
proof -
  let ?e = "CHR ''e'' # (if sg then ''-'' else ''+'') @ ex @ r"
  have e: "read_exp_part ?e = ((True, (if sg then - 1 else 1) * nat_of_digits ex), r)"
    using assms by (intro read_exp_part_digits) simp_all
  have n: "no_digit_next ?e" by (simp add: no_digit_next_def is_digit_def digit_value_def)
  have f: "read_frac_part ((if fp = [] then [] else CHR ''.'' # fp) @ ?e) = (fp, ?e)"
    using assms(2) n read_frac_part_digits [of fp ?e] read_frac_part_none [of ?e] by simp
  have "no_digit_next ((if fp = [] then [] else CHR ''.'' # fp) @ ?e)"
    using n by (simp add: no_digit_next_def is_digit_def digit_value_def)
  then have "read_int_part (ip @ (if fp = [] then [] else CHR ''.'' # fp) @ ?e) = Some (ip, (if fp = [] then [] else CHR ''.'' # fp) @ ?e)"
    using assms(1) by (intro read_int_part_digits) (simp_all add: int_digits_def)
  with e f show ?thesis by (simp add: read_number_signed [OF assms(1)])
qed

section \<open>Floats\<close>

lemma drop_zeros_value:
  "0 \<le> c \<Longrightarrow> drop_zeros k c e = (c', e') \<Longrightarrow>
   0 \<le> c' \<and> (of_int c' :: rat) * 10 powi e' = of_int c * 10 powi e"
proof (induction k c e rule: drop_zeros.induct)
  case (2 k c e)
  show ?case
  proof (cases "c \<noteq> 0 \<and> c mod 10 = 0")
    case True
    then have d: "c = 10 * (c div 10)" by presburger
    then have "(of_int c :: rat) = 10 * of_int (c div 10)" by (metis of_int_mult of_int_numeral)
    then have v: "(of_int c :: rat) * 10 powi e = of_int (c div 10) * 10 powi (e + 1)"
      by (simp add: power_int_add)
    have "0 \<le> c div 10" using 2(2) by simp
    with 2(1) [OF True] 2(3) True v show ?thesis by auto
  qed (use 2 in auto)
qed auto

definition float_body :: "int \<Rightarrow> int \<Rightarrow> string" where
  "float_body c e =
     (let ds = show_nat (nat c); n = int (length ds); pt = (if c = 0 then 1 else e + n)
      in if - 4 < pt \<and> pt \<le> 16
         then if pt \<le> 0 then ''0.'' @ replicate (nat (- pt)) (CHR ''0'') @ ds
              else if n \<le> pt then ds @ replicate (nat (pt - n)) (CHR ''0'') @ ''.0''
              else take (nat pt) ds @ ''.'' @ drop (nat pt) ds
         else take 1 ds @ (if n = 1 then '''' else CHR ''.'' # drop 1 ds) @ ''e'' @
              (if pt - 1 < 0 then ''-'' else ''+'') @
              (let x = show_nat (nat \<bar>pt - 1\<bar>) in if length x < 2 then CHR ''0'' # x else x))"

lemma float_repr_body:
  "float_repr d = signed (coef d < 0)
     (case drop_zeros (length (show_nat (nat \<bar>coef d\<bar>))) \<bar>coef d\<bar> (expo d) of (c, e) \<Rightarrow> float_body c e)"
  by (simp add: float_repr_def float_body_def signed_def Let_def split: prod.split)

text \<open>What a text of a number is worth when it is read.\<close>

definition reads_float :: "string \<Rightarrow> int \<Rightarrow> int \<Rightarrow> bool" where
  "reads_float s c e \<longleftrightarrow>
     (\<forall>neg r. ends r \<longrightarrow> (\<exists>d. read_number (signed neg (s @ r)) = Some (JFloat (Fin d), r) \<and>
        dec_val d = (if neg then - 1 else 1) * (of_int c * 10 powi e)))"

lemma reads_floatI:
  assumes "\<And>neg r. ends r \<Longrightarrow> read_number (signed neg (s @ r)) =
      Some (JFloat (Fin (Dec ((if neg then - 1 else 1) * k) x)), r)"
    and "(of_int k :: rat) * 10 powi x = of_int c * 10 powi e"
  shows "reads_float s c e"
  using assms by (force simp: reads_float_def dec_val_def)

lemma reads_point:
  assumes "int_digits ip" "list_all is_digit fp" "fp \<noteq> []"
    and "(of_int (nat_of_digits (ip @ fp)) :: rat) * 10 powi (- int (length fp)) = of_int c * 10 powi e"
  shows "reads_float (ip @ CHR ''.'' # fp) c e"
  by (rule reads_floatI [OF _ assms(4)]) (use read_number_point [OF assms(1-3)] in simp)

lemma reads_exp:
  assumes "int_digits ip" "list_all is_digit fp" "list_all is_digit ex" "ex \<noteq> []"
    and "(of_int (nat_of_digits (ip @ fp)) :: rat) * 10 powi ((if sg then - 1 else 1) * nat_of_digits ex - int (length fp)) =
      of_int c * 10 powi e"
  shows "reads_float (ip @ (if fp = [] then [] else CHR ''.'' # fp) @ CHR ''e'' # (if sg then ''-'' else ''+'') @ ex) c e"
  by (rule reads_floatI [OF _ assms(5)]) (use read_number_exp [OF assms(1-4)] in simp)

lemma zero_digits: "list_all is_digit ''0''" "nat_of_digits ''0'' = 0" "int_digits ''0''"
  by (simp_all add: is_digit_def digit_value_def nat_of_digits_def int_digits_def)

lemma int_digits_take:
  assumes "0 < k" "k < length (show_nat n)"
  shows "int_digits (take k (show_nat n))"
proof -
  have "n \<noteq> 0"
  proof
    assume "n = 0"
    with assms show False by (simp add: show_nat_0)
  qed
  then have "hd (take k (show_nat n)) \<noteq> CHR ''0''" using show_nat_head [of n] assms by simp
  moreover have "list_all is_digit (take k (show_nat n))" using show_nat_digits [of n] by (auto simp: list_all_iff dest: in_set_takeD)
  ultimately show ?thesis using assms by (auto simp: int_digits_def)
qed

lemma float_body_small:
  assumes "0 < c" "ds = show_nat (nat c)" "pt = e + int (length ds)" "pt \<le> 0"
  shows "reads_float (''0.'' @ replicate (nat (- pt)) (CHR ''0'') @ ds) c e"
proof -
  let ?fp = "replicate (nat (- pt)) (CHR ''0'') @ ds"
  have "nat_of_digits (''0'' @ ?fp) = c"
    using assms(1,2) by (simp only: nat_of_digits_append zero_digits list_all_append zeros_digits show_nat_digits) simp
  moreover have "- int (length ?fp) = e" using assms by simp
  ultimately have "reads_float (''0'' @ CHR ''.'' # ?fp) c e"
    using assms(2) zero_digits by (intro reads_point) (simp_all add: show_nat_nonempty)
  then show ?thesis by simp
qed

lemma float_body_whole:
  assumes "0 \<le> c" "ds = show_nat (nat c)" "pt = (if c = 0 then 1 else e + int (length ds))" "int (length ds) \<le> pt"
  shows "reads_float (ds @ replicate (nat (pt - int (length ds))) (CHR ''0'') @ ''.0'') c e"
proof -
  let ?k = "nat (pt - int (length ds))"
  let ?ip = "ds @ replicate ?k (CHR ''0'')"
  have ip: "int_digits ?ip"
  proof (cases "c = 0")
    case True
    with assms have "?k = 0" by (simp add: show_nat_0)
    with True assms(2) show ?thesis by (simp add: show_nat_0 zero_digits)
  next
    case False
    with assms(1,2) have "hd ds \<noteq> CHR ''0''" "list_all is_digit ds" "ds \<noteq> []"
      using show_nat_head [of "nat c"] by (simp_all add: show_nat_nonempty)
    then show ?thesis by (simp add: int_digits_def)
  qed
  have "nat_of_digits ((?ip) @ ''0'') = c * 10 ^ ?k * 10"
    using assms(1,2) by (simp only: nat_of_digits_append append_assoc zero_digits list_all_append zeros_digits show_nat_digits)
      (simp add: nat_of_digits_append zero_digits)
  moreover have "(of_int (c * 10 ^ ?k * 10) :: rat) * 10 powi (- 1) = of_int c * 10 powi e"
  proof (cases "c = 0")
    case False
    with assms(3,4) have "int ?k = e" by simp
    then have "(10 :: rat) powi e = 10 ^ ?k" by (metis power_int_of_nat)
    then show ?thesis by (simp add: power_int_minus)
  qed simp
  ultimately have "reads_float (?ip @ CHR ''.'' # ''0'') c e"
    using ip zero_digits by (intro reads_point) simp_all
  then show ?thesis by simp
qed

lemma float_body_split:
  assumes "0 < c" "ds = show_nat (nat c)" "pt = e + int (length ds)" "0 < pt" "pt < int (length ds)"
  shows "reads_float (take (nat pt) ds @ ''.'' @ drop (nat pt) ds) c e"
proof -
  have "int_digits (take (nat pt) ds)" using assms by (simp add: int_digits_take)
  moreover have "list_all is_digit (drop (nat pt) ds)"
    using show_nat_digits [of "nat c"] assms(2) by (auto simp: list_all_iff dest: in_set_dropD)
  moreover have "- int (length (drop (nat pt) ds)) = e" using assms by simp
  ultimately have "reads_float (take (nat pt) ds @ CHR ''.'' # drop (nat pt) ds) c e"
    using assms by (intro reads_point) simp_all
  then show ?thesis by simp
qed

lemma float_body_exp:
  assumes "0 < c" "ds = show_nat (nat c)" "n = int (length ds)" "pt = e + n"
  shows "reads_float (take 1 ds @ (if n = 1 then '''' else CHR ''.'' # drop 1 ds) @ ''e'' @
      (if pt - 1 < 0 then ''-'' else ''+'') @
      (let x = show_nat (nat \<bar>pt - 1\<bar>) in if length x < 2 then CHR ''0'' # x else x)) c e"
proof -
  let ?x = "show_nat (nat \<bar>pt - 1\<bar>)"
  let ?ex = "if length ?x < 2 then CHR ''0'' # ?x else ?x"
  have ne: "ds \<noteq> []" using assms(2) by (simp add: show_nat_nonempty)
  have one: "n = 1 \<longleftrightarrow> drop 1 ds = []" using ne assms(3) by (cases ds) auto
  have "list_all is_digit (''0'' @ ?x)" "nat_of_digits (''0'' @ ?x) = \<bar>pt - 1\<bar>"
    by (simp_all only: nat_of_digits_append list_all_append zero_digits show_nat_digits) simp_all
  then have ex: "list_all is_digit ?ex" "nat_of_digits ?ex = \<bar>pt - 1\<bar>" "?ex \<noteq> []"
    by (simp_all add: show_nat_nonempty)
  have "hd (take 1 ds) \<noteq> CHR ''0''" using ne show_nat_head [of "nat c"] assms(1,2) by (cases ds) auto
  moreover have "list_all is_digit (take 1 ds)"
    using show_nat_digits [of "nat c"] assms(2) by (auto simp: list_all_iff dest: in_set_takeD)
  ultimately have hd1: "int_digits (take 1 ds)" using ne by (simp add: int_digits_def)
  have fp: "list_all is_digit (drop 1 ds)"
    using show_nat_digits [of "nat c"] assms(2) by (auto simp: list_all_iff dest: in_set_dropD)
  have len: "int (length (drop 1 ds)) = n - 1" using ne assms(3) by (cases ds) auto
  have "(if pt - 1 < 0 then - 1 else 1) * nat_of_digits ?ex - int (length (drop 1 ds)) = e"
    using ex(2) len assms(4) by (simp split: if_splits)
  moreover have "nat_of_digits (take 1 ds @ drop 1 ds) = c" using assms(1,2) by simp
  ultimately have "\<And>x. x = ?ex \<Longrightarrow> reads_float (take 1 ds @ (if drop 1 ds = [] then [] else CHR ''.'' # drop 1 ds) @
      CHR ''e'' # (if pt - 1 < 0 then ''-'' else ''+'') @ x) c e"
    using hd1 fp ex by (intro reads_exp) (auto simp del: One_nat_def)
  then show ?thesis using one by (simp add: Let_def)
qed

lemma float_body_reads:
  assumes "0 \<le> c"
  shows "reads_float (float_body c e) c e"
proof (cases "c = 0")
  case True
  then show ?thesis
    using float_body_whole [of 0 "''0''" 1 e] by (simp add: float_body_def show_nat_0)
next
  case False
  let ?ds = "show_nat (nat c)"
  let ?n = "int (length ?ds)"
  let ?pt = "e + ?n"
  from False assms have c: "0 < c" by simp
  note small = float_body_small [OF c refl refl, of e] and whole = float_body_whole [OF assms refl, of ?pt e]
    and split = float_body_split [OF c refl refl, of e] and ex = float_body_exp [OF c refl refl refl, of e]
  consider "\<not> (- 4 < ?pt \<and> ?pt \<le> 16)" | "- 4 < ?pt \<and> ?pt \<le> 16" "?pt \<le> 0"
    | "- 4 < ?pt \<and> ?pt \<le> 16" "\<not> ?pt \<le> 0" "?n \<le> ?pt" | "- 4 < ?pt \<and> ?pt \<le> 16" "\<not> ?pt \<le> 0" "\<not> ?n \<le> ?pt"
    by blast
  then show ?thesis
  proof cases
    case 1
    then have f: "(- 4 < ?pt \<and> ?pt \<le> 16) = False" and z: "(c = 0) = False" using c by auto
    show ?thesis unfolding float_body_def Let_def z if_False f by (rule ex [unfolded Let_def])
  next
    case 2
    then show ?thesis unfolding float_body_def Let_def using small c by simp
  next
    case 3
    then show ?thesis unfolding float_body_def Let_def using whole c by simp
  next
    case 4
    then show ?thesis unfolding float_body_def Let_def using split c by simp
  qed
qed

lemma float_repr_reads:
  assumes "ends r"
  shows "\<exists>d'. read_number (float_repr d @ r) = Some (JFloat (Fin d'), r) \<and> dec_val d' = dec_val d"
proof -
  obtain c e where z: "drop_zeros (length (show_nat (nat \<bar>coef d\<bar>))) \<bar>coef d\<bar> (expo d) = (c, e)"
    by (cases "drop_zeros (length (show_nat (nat \<bar>coef d\<bar>))) \<bar>coef d\<bar> (expo d)") blast
  from drop_zeros_value [OF _ z] have c: "0 \<le> c" "(of_int c :: rat) * 10 powi e = of_int \<bar>coef d\<bar> * 10 powi (expo d)" by simp_all
  have s: "float_repr d @ r = signed (coef d < 0) (float_body c e @ r)"
    using z by (simp add: float_repr_body signed_def)
  obtain d' where d': "read_number (float_repr d @ r) = Some (JFloat (Fin d'), r)"
    "dec_val d' = (if coef d < 0 then - 1 else 1) * (of_int \<bar>coef d\<bar> * 10 powi (expo d))"
    using float_body_reads [OF c(1), of e] assms unfolding reads_float_def s c(2) [symmetric] by blast
  have "dec_val d' = dec_val d"
    unfolding d'(2) by (cases "coef d < 0") (simp_all add: dec_val_def)
  with d'(1) show ?thesis by blast
qed

section \<open>Values\<close>

text \<open>\<open>json.dumps\<close> with the escapes of the characters as an argument.\<close>

definition str_with :: "(char \<Rightarrow> string) \<Rightarrow> string \<Rightarrow> string" where
  "str_with esc s = [CHR 0x22] @ concat (map esc s) @ [CHR 0x22]"

fun dumps_with :: "(char \<Rightarrow> string) \<Rightarrow> json \<Rightarrow> string" where
  "dumps_with esc JNull = ''null''"
| "dumps_with esc (JBool b) = (if b then ''true'' else ''false'')"
| "dumps_with esc (JInt n) = show_int n"
| "dumps_with esc (JFloat f) = dumps_float f"
| "dumps_with esc (JStr s) = str_with esc s"
| "dumps_with esc (JList xs) = ''['' @ join '', '' (map (dumps_with esc) xs) @ '']''"
| "dumps_with esc (JObj d) = ''{'' @ join '', '' (map (\<lambda>(k, v). str_with esc k @ '': '' @ dumps_with esc v) d) @ ''}''"

text \<open>The same value: two floats may be written with different exponents.\<close>

definition same_float :: "pyfloat \<Rightarrow> pyfloat \<Rightarrow> bool" where
  "same_float f g = (case (f, g) of (Fin a, Fin b) \<Rightarrow> dec_val a = dec_val b | _ \<Rightarrow> f = g)"

fun same_json :: "json \<Rightarrow> json \<Rightarrow> bool"
  and same_list :: "json list \<Rightarrow> json list \<Rightarrow> bool"
  and same_dict :: "dict \<Rightarrow> dict \<Rightarrow> bool" where
  "same_json (JFloat f) y = (case y of JFloat g \<Rightarrow> same_float f g | _ \<Rightarrow> False)"
| "same_json (JList xs) y = (case y of JList ys \<Rightarrow> same_list xs ys | _ \<Rightarrow> False)"
| "same_json (JObj d) y = (case y of JObj d' \<Rightarrow> same_dict d d' | _ \<Rightarrow> False)"
| "same_json x y = (x = y)"
| "same_list [] ys = (ys = [])"
| "same_list (x # xs) ys = (case ys of y # ys' \<Rightarrow> same_json x y \<and> same_list xs ys' | [] \<Rightarrow> False)"
| "same_dict [] d' = (d' = [])"
| "same_dict ((k, v) # d) d' =
     (case d' of (k', v') # e \<Rightarrow> k = k' \<and> same_json v v' \<and> same_dict d e | [] \<Rightarrow> False)"

text \<open>By the shape of the first value.\<close>

lemma same_json_values:
  "same_json (JStr a) j \<longleftrightarrow> j = JStr a"
  "same_json (JBool b) j \<longleftrightarrow> j = JBool b"
  "same_json (JInt i) j \<longleftrightarrow> j = JInt i"
  "same_json JNull j \<longleftrightarrow> j = JNull"
  "same_json (JFloat f) j \<longleftrightarrow> (\<exists>g. j = JFloat g \<and> same_float f g)"
  "same_json (JObj d) j \<longleftrightarrow> (\<exists>d'. j = JObj d' \<and> same_dict d d')"
  "same_json (JList xs) j \<longleftrightarrow> (\<exists>ys. j = JList ys \<and> same_list xs ys)"
  by (auto split: json.splits)

lemma same_dict_items:
  "same_dict [] d' \<longleftrightarrow> d' = []" "same_dict d [] \<longleftrightarrow> d = []"
  "same_dict ((k, v) # d) d' \<longleftrightarrow> (\<exists>v' e. d' = (k, v') # e \<and> same_json v v' \<and> same_dict d e)"
  by (cases d rule: list.exhaust [case_product prod.exhaust [of "hd d"]]; auto split: list.splits)+

lemma same_list_all2: "same_list xs ys \<longleftrightarrow> list_all2 same_json xs ys"
proof (induction xs arbitrary: ys)
  case (Cons x xs)
  then show ?case by (cases ys) auto
qed auto

text \<open>A dictionary has each key once.\<close>

fun wf_json :: "json \<Rightarrow> bool" where
  "wf_json (JList xs) = list_all wf_json xs"
| "wf_json (JObj d) = (distinct (map fst d) \<and> list_all (\<lambda>(k, v). wf_json v) d)"
| "wf_json _ = True"

lemma read_value_number:
  assumes "s \<noteq> []" "is_digit (hd s)"
  shows "read_value (Suc n) (signed neg s) = read_number (signed neg s)"
proof -
  obtain c t where s: "s = c # t" "is_digit c" using assms by (cases s) auto
  then have "48 \<le> (of_char c :: nat) \<and> (of_char c :: nat) \<le> 57"
    by (simp add: is_digit_def digit_value_def Let_def split: if_splits)
  then have "c \<noteq> CHR 0x22 \<and> c \<noteq> CHR ''['' \<and> c \<noteq> CHR ''{'' \<and> c \<noteq> CHR ''n'' \<and> c \<noteq> CHR ''t'' \<and> c \<noteq> CHR ''f'' \<and>
      c \<noteq> CHR ''N'' \<and> c \<noteq> CHR ''I'' \<and> c \<noteq> CHR ''-''" by auto
  with s show ?thesis by (simp add: signed_def read_literal_def starts_def)
qed

lemma show_int_signed: "show_int n = signed (n < 0) (show_nat (nat \<bar>n\<bar>))"
  by (simp add: show_int_def signed_def)

lemma show_nat_hd: "is_digit (hd (show_nat n))"
  using show_nat_digits [of n] show_nat_nonempty [of n] by (cases "show_nat n") auto

lemma float_body_hd: "float_body c e \<noteq> [] \<and> is_digit (hd (float_body c e @ r))"
proof -
  let ?ds = "show_nat (nat c)"
  have d: "?ds \<noteq> []" "is_digit (hd ?ds)" by (simp_all add: show_nat_nonempty show_nat_hd)
  then have "\<And>k t. 0 < k \<Longrightarrow> is_digit (hd (take k ?ds @ t))" by (cases ?ds) (auto simp: take_Cons')
  moreover have "is_digit (CHR ''0'')" by (simp add: is_digit_def digit_value_def)
  ultimately show ?thesis using d
    by (auto simp: float_body_def Let_def hd_append simp del: One_nat_def)
qed

lemma read_value_float:
  assumes "ends r"
  shows "\<exists>g. read_value (Suc n) (dumps_float f @ r) = Some (JFloat g, r) \<and> same_float f g"
proof (cases f)
  case (Fin d)
  obtain c e where z: "drop_zeros (length (show_nat (nat \<bar>coef d\<bar>))) \<bar>coef d\<bar> (expo d) = (c, e)"
    by (cases "drop_zeros (length (show_nat (nat \<bar>coef d\<bar>))) \<bar>coef d\<bar> (expo d)") blast
  then have s: "float_repr d @ r = signed (coef d < 0) (float_body c e @ r)" by (simp add: float_repr_body signed_def)
  have "read_value (Suc n) (float_repr d @ r) = read_number (float_repr d @ r)"
    unfolding s by (rule read_value_number) (use float_body_hd [of c e r] in auto)
  with float_repr_reads [OF assms, of d] Fin show ?thesis by (auto simp: dumps_float_def same_float_def)
qed (simp_all add: dumps_float_def read_literal_def starts_def same_float_def)

lemma read_value_int: "ends r \<Longrightarrow> read_value (Suc n) (show_int i @ r) = Some (JInt i, r)"
proof -
  assume r: "ends r"
  have "read_value (Suc n) (signed (i < 0) (show_nat (nat \<bar>i\<bar>) @ r)) =
      read_number (signed (i < 0) (show_nat (nat \<bar>i\<bar>) @ r))"
    by (rule read_value_number) (simp_all add: show_nat_nonempty show_nat_hd)
  also have "\<dots> = Some (JInt i, r)"
    using read_number_int [OF int_digits_show r] by simp
  finally show ?thesis by (simp add: show_int_signed signed_def split: if_splits)
qed

lemma dset_fresh: "k \<notin> fst ` set d \<Longrightarrow> dset k v d = d @ [(k, v)]"
  by (induction d) (auto simp: dset_def)

text \<open>No value begins with white space or a closing bracket.\<close>

definition opens :: "string \<Rightarrow> bool" where
  "opens s = (case s of [] \<Rightarrow> False | c # _ \<Rightarrow> \<not> is_json_space c \<and> c \<noteq> CHR '']'' \<and> c \<noteq> CHR ''}'')"

lemma opens_skip: "opens s \<Longrightarrow> skip s = s \<and> s \<noteq> [] \<and> hd s \<noteq> CHR '']'' \<and> hd s \<noteq> CHR ''}''"
  by (cases s) (auto simp: opens_def)

lemma opens_length: "opens s \<Longrightarrow> 0 < length s"
  by (cases s) (auto simp: opens_def)

lemma opens_append: "opens s \<Longrightarrow> opens (s @ r)"
  by (cases s) (auto simp: opens_def)

lemma opens_digit: "s \<noteq> [] \<Longrightarrow> is_digit (hd s) \<Longrightarrow> opens (signed neg s)"
  by (cases s) (auto simp: opens_def signed_def is_digit_def digit_value_def is_json_space_def)

lemma opens_dumps: "opens (dumps_with esc j)"
proof (cases j)
  case (JInt i)
  then show ?thesis using opens_digit [OF show_nat_nonempty show_nat_hd] by (simp add: show_int_signed)
next
  case (JFloat f)
  show ?thesis
  proof (cases f)
    case (Fin d)
    have "opens (signed neg (float_body c e))" for neg c e
      using opens_digit [of "float_body c e"] float_body_hd [of c e "[]"] by simp
    with Fin JFloat show ?thesis by (simp add: dumps_float_def float_repr_body split: prod.split)
  qed (use JFloat in \<open>simp_all add: dumps_float_def opens_def is_json_space_def\<close>)
qed (auto simp: opens_def is_json_space_def str_with_def)

section \<open>Every printer whose escapes read back\<close>

locale json_printer =
  fixes esc :: "char \<Rightarrow> string"
  assumes esc_read: "read_string (esc c @ t) = map_option (\<lambda>(s, u). (c # s, u)) (read_string t)"
begin

lemma read_str: "read_string (concat (map esc s) @ CHR 0x22 # r) = Some (s, r)"
  by (induction s) (simp_all add: esc_read)

lemma read_elements_dumps:
  assumes "\<And>x n r. x \<in> set xs \<Longrightarrow> length (dumps_with esc x) \<le> n \<Longrightarrow> ends r \<Longrightarrow>
      \<exists>y. read_value n (dumps_with esc x @ r) = Some (y, r) \<and> same_json x y"
    and "xs \<noteq> []" "length (join '', '' (map (dumps_with esc) xs)) < n"
  shows "\<exists>ys. read_elements n (join '', '' (map (dumps_with esc) xs) @ CHR '']'' # r) = Some (ys, r) \<and> same_list xs ys"
  using assms
proof (induction xs arbitrary: n)
  case (Cons x xs)
  then obtain m where n: "n = Suc m" by (cases n) auto
  show ?case
  proof (cases xs)
    case Nil
    with Cons.prems(3) n have "length (dumps_with esc x) \<le> m" by simp
    then obtain y where "read_value m (dumps_with esc x @ CHR '']'' # r) = Some (y, CHR '']'' # r)" "same_json x y"
      using Cons.prems(1) [of x m "CHR '']'' # r"] by auto
    with Nil n show ?thesis by (simp add: is_json_space_def)
  next
    case (Cons x2 xs2)
    let ?rest = "join '', '' (map (dumps_with esc) xs)"
    have l: "length (dumps_with esc x) \<le> m" "length ?rest < m"
      using Cons.prems(3) n Cons by simp_all
    obtain y where y: "read_value m (dumps_with esc x @ '', '' @ ?rest @ CHR '']'' # r) = Some (y, '', '' @ ?rest @ CHR '']'' # r)"
      "same_json x y" using Cons.prems(1) [of x m "'', '' @ ?rest @ CHR '']'' # r"] l by auto
    obtain ys where ys: "read_elements m (?rest @ CHR '']'' # r) = Some (ys, r)" "same_list xs ys"
      using Cons.IH [of m] Cons.prems(1) l(2) Cons by auto
    have "opens ?rest" using Cons opens_dumps [of esc x2] by (cases xs2) (auto intro: opens_append)
    then have sk: "skip (CHR '' '' # ?rest @ CHR '']'' # r) = ?rest @ CHR '']'' # r"
      using opens_skip [OF opens_append, of ?rest "CHR '']'' # r"] by (simp add: is_json_space_def)
    have j: "join '', '' (map (dumps_with esc) (x # xs)) = dumps_with esc x @ '', '' @ ?rest" using Cons by simp
    have "skip ('', '' @ ?rest @ CHR '']'' # r) = CHR '','' # CHR '' '' # ?rest @ CHR '']'' # r" by (simp add: is_json_space_def)
    with y ys sk show ?thesis unfolding j n by simp
  qed
qed simp

definition member :: "string \<times> json \<Rightarrow> string" where
  "member kv = str_with esc (fst kv) @ '': '' @ dumps_with esc (snd kv)"

lemma read_members_dumps:
  assumes "\<And>k v n r. (k, v) \<in> set d \<Longrightarrow> length (dumps_with esc v) \<le> n \<Longrightarrow> ends r \<Longrightarrow>
      \<exists>y. read_value n (dumps_with esc v @ r) = Some (y, r) \<and> same_json v y"
    and "d \<noteq> []" "length (join '', '' (map member d)) < n" "distinct (map fst (d0 @ d))"
  shows "\<exists>d'. read_members n d0 (join '', '' (map member d) @ CHR ''}'' # r) = Some (d0 @ d', r) \<and> same_dict d d'"
  using assms
proof (induction d arbitrary: n d0)
  case (Cons kv d)
  obtain k v where kv: "kv = (k, v)" by (cases kv)
  from Cons.prems(3) obtain m where n: "n = Suc m" by (cases n) auto
  have fresh: "k \<notin> fst ` set d0" using Cons.prems(4) kv by auto
  let ?rest = "join '', '' (map member d)"
  define tail where "tail = (if d = [] then CHR ''}'' # r else '', '' @ ?rest @ CHR ''}'' # r)"
  have written: "join '', '' (map member (kv # d)) @ CHR ''}'' # r =
      CHR 0x22 # concat (map esc k) @ CHR 0x22 # CHR '':'' # CHR '' '' # dumps_with esc v @ tail"
    by (cases d) (simp_all add: kv member_def str_with_def tail_def)
  have lv: "length (dumps_with esc v) \<le> m"
    using Cons.prems(3) n kv by (cases d) (simp_all add: member_def)
  have "ends tail" by (simp add: tail_def)
  with Cons.prems(1) [of k v m tail] kv lv obtain y where
    y: "read_value m (dumps_with esc v @ tail) = Some (y, tail)" "same_json v y" by auto
  have sk: "skip (CHR '' '' # dumps_with esc v @ tail) = dumps_with esc v @ tail"
    using opens_skip [OF opens_append [OF opens_dumps]] by (simp add: is_json_space_def)
  have step: "read_members n d0 (join '', '' (map member (kv # d)) @ CHR ''}'' # r) =
      (case skip tail of [] \<Rightarrow> None
       | e # r3 \<Rightarrow> if e = CHR ''}'' then Some (d0 @ [(k, y)], r3)
                   else if e = CHR '','' then read_members m (d0 @ [(k, y)]) (skip r3) else None)"
    unfolding written n dset_fresh [OF fresh, symmetric] using y sk by (simp add: read_str is_json_space_def)
  show ?case
  proof (cases "d = []")
    case True
    with step y(2) kv show ?thesis by (auto simp: tail_def is_json_space_def)
  next
    case False
    then have l: "length ?rest < m" using Cons.prems(3) n by (cases d) simp_all
    have "\<exists>d'. read_members m (d0 @ [(k, y)]) (?rest @ CHR ''}'' # r) = Some ((d0 @ [(k, y)]) @ d', r) \<and>
        same_dict d d'"
    proof (rule Cons.IH [OF _ False l])
      fix k v n r assume "(k, v) \<in> set d" "length (dumps_with esc v) \<le> n" "ends r"
      then show "\<exists>y. read_value n (dumps_with esc v @ r) = Some (y, r) \<and> same_json v y"
        by (intro Cons.prems(1) [of k v]) simp_all
    qed (use Cons.prems(4) kv in auto)
    then obtain d' where d': "read_members m (d0 @ [(k, y)]) (?rest @ CHR ''}'' # r) = Some ((d0 @ [(k, y)]) @ d', r)"
      "same_dict d d'" by blast
    have "opens ?rest" using False by (cases d; cases "tl d") (auto simp: member_def str_with_def opens_def is_json_space_def)
    then have "skip (CHR '' '' # ?rest @ CHR ''}'' # r) = ?rest @ CHR ''}'' # r"
      using opens_skip [OF opens_append, of ?rest "CHR ''}'' # r"] by (simp add: is_json_space_def)
    then have "read_members n d0 (join '', '' (map member (kv # d)) @ CHR ''}'' # r) = Some ((d0 @ [(k, y)]) @ d', r)"
      using step False d'(1) by (simp add: tail_def is_json_space_def)
    with d'(2) y(2) kv show ?thesis by auto
  qed
qed simp

lemma read_value_dumps:
  "wf_json j \<Longrightarrow> length (dumps_with esc j) \<le> n \<Longrightarrow> ends r \<Longrightarrow>
   \<exists>j'. read_value n (dumps_with esc j @ r) = Some (j', r) \<and> same_json j j'"
proof (induction j arbitrary: n r)
  case (JList xs)
  then obtain m where n: "n = Suc m" by (cases n) auto
  show ?case
  proof (cases "xs = []")
    case True
    with n show ?thesis by (simp add: is_json_space_def)
  next
    case False
    let ?j = "join '', '' (map (dumps_with esc) xs)"
    have "\<exists>ys. read_elements m (?j @ CHR '']'' # r) = Some (ys, r) \<and> same_list xs ys"
      using JList False n by (intro read_elements_dumps) (auto simp: list_all_iff)
    moreover have "opens ?j" using False opens_dumps [of esc "hd xs"] by (cases xs; cases "tl xs") (auto intro: opens_append)
    ultimately show ?thesis using n opens_skip [OF opens_append, of ?j "CHR '']'' # r"] by auto
  qed
next
  case (JObj d)
  then obtain m where n: "n = Suc m" by (cases n) auto
  have mem: "map (\<lambda>(k, v). str_with esc k @ '': '' @ dumps_with esc v) d = map member d"
    by (simp add: member_def case_prod_beta)
  have dump: "dumps_with esc (JObj d) = ''{'' @ join '', '' (map member d) @ ''}''"
    by (simp only: dumps_with.simps mem)
  show ?case
  proof (cases "d = []")
    case True
    with n show ?thesis by (simp add: is_json_space_def)
  next
    case False
    let ?j = "join '', '' (map member d)"
    have "\<exists>d'. read_members m [] (?j @ CHR ''}'' # r) = Some ([] @ d', r) \<and> same_dict d d'"
    proof (rule read_members_dumps)
      fix k v n r assume "(k, v) \<in> set d" "length (dumps_with esc v) \<le> n" "ends r"
      with JObj.prems(1) show "\<exists>y. read_value n (dumps_with esc v @ r) = Some (y, r) \<and> same_json v y"
        by (intro JObj.IH [of "(k, v)"]) (auto simp: list_all_iff)
    qed (use JObj.prems False n dump in \<open>auto simp del: dumps_with.simps\<close>)
    moreover have "opens ?j" using False by (cases d; cases "tl d") (auto simp: member_def str_with_def opens_def is_json_space_def)
    ultimately show ?thesis unfolding dump using n opens_skip [OF opens_append, of ?j "CHR ''}'' # r"] by auto
  qed
next
  case (JInt i)
  then have "0 < n" using opens_length [OF opens_dumps, of esc "JInt i"] by linarith
  with JInt show ?case using read_value_int by (cases n) auto
next
  case (JFloat f)
  then have "0 < n" using opens_length [OF opens_dumps, of esc "JFloat f"] by linarith
  then obtain m where n: "n = Suc m" by (cases n) auto
  obtain g where "read_value n (dumps_float f @ r) = Some (JFloat g, r)" "same_float f g"
    using read_value_float [OF JFloat(3), of m f] n by blast
  then show ?case by simp
next
  case (JStr s)
  then show ?case by (cases n) (auto simp: str_with_def read_str)
next
  case JNull
  then show ?case by (cases n) (simp_all add: read_literal_def starts_def)
next
  case (JBool b)
  then show ?case by (cases n; cases b) (simp_all add: read_literal_def starts_def)
qed

lemma loads_dumps: "wf_json j \<Longrightarrow> \<exists>j'. json_loads (dumps_with esc j) = Some j' \<and> same_json j j'"
  using read_value_dumps [of j "2 * length (dumps_with esc j) + 1" "[]"] opens_skip [OF opens_dumps [of esc j]]
  by (auto simp: json_loads_def)

end

section \<open>The encoder\<close>

lemma hex_value_digit: "n < 16 \<Longrightarrow> hex_value (hex_digit n) = Some n"
proof -
  assume "n < 16"
  then have "n \<in> {0,1,2,3,4,5,6,7,8,9,10,11,12,13,14,15}" by (simp add: less_Suc_eq numeral_eq_Suc) 
  then show ?thesis by (auto simp: hex_value_def hex_digit_def)
qed

lemma esc_char_reads: "read_string (esc_char c @ t) = map_option (\<lambda>(s, u). (c # s, u)) (read_string t)"
proof -
  let ?n = "of_char c :: nat"
  have b: "?n < 256" by simp
  have m: "hex_digit ?n = hex_digit (?n mod 16)" by (simp add: hex_digit_def)
  have h1: "hex_value (hex_digit (?n div 16)) = Some (?n div 16)" using b by (intro hex_value_digit) linarith
  have h2: "hex_value (hex_digit ?n) = Some (?n mod 16)" unfolding m by (rule hex_value_digit) simp
  have h0: "hex_value (CHR ''0'') = Some 0" by (simp add: hex_value_def)
  have "char_of (16 * (?n div 16) + ?n mod 16) = c" by simp
  with h0 h1 h2 have u: "unicode_escape (''00'' @ [hex_digit (?n div 16), hex_digit ?n] @ t) = Some (c, t)"
    by (simp add: unicode_escape_def)
  have "?n = 10 \<longleftrightarrow> c = CHR 0x0A" "?n = 13 \<longleftrightarrow> c = CHR 0x0D" "?n = 9 \<longleftrightarrow> c = CHR 0x09"
    "?n = 8 \<longleftrightarrow> c = CHR 0x08" "?n = 12 \<longleftrightarrow> c = CHR 0x0C"
    using of_char_eq_iff [of c "CHR 0x0A"] of_char_eq_iff [of c "CHR 0x0D"] of_char_eq_iff [of c "CHR 0x09"]
      of_char_eq_iff [of c "CHR 0x08"] of_char_eq_iff [of c "CHR 0x0C"] by simp_all
  with u show ?thesis by (simp add: esc_char_def Let_def simple_escape_def)
qed

interpretation encoder: json_printer esc_char
  by unfold_locales (rule esc_char_reads)

lemma json_dumps_with: "json_dumps j = dumps_with esc_char j"
  by (induction j rule: json_dumps.induct) (auto simp: dumps_str_def str_with_def intro!: arg_cong [where f = "join '', ''"])

end
