(* ===== verification/Prompt_Guard.thy ===== *)
theory Prompt_Guard
  imports Llm
begin

text \<open>
  The injection scan in front of the agents (\<open>src/agents/prompt_guard.py\<close>): a score of a
  classifier against a threshold. Every failure is a \<open>skipped\<close> result, never an exception.
\<close>

datatype guard_status = Clear | Blocked | Skipped

primrec guard_status_value :: "guard_status \<Rightarrow> string" where
  "guard_status_value Clear = ''clear''"
| "guard_status_value Blocked = ''blocked''"
| "guard_status_value Skipped = ''skipped''"

record guard_result =
  gr_status :: guard_status
  gr_score :: "pyfloat option"
  gr_reason :: "string option"

definition is_injection :: "guard_result \<Rightarrow> bool" where
  "is_injection g = (gr_status g = Blocked)"

definition guard_trail :: "guard_result \<Rightarrow> dict" where
  "guard_trail g =
     [(''status'', JStr (guard_status_value (gr_status g))),
      (''score'', opt_json JFloat (gr_score g)),
      (''reason'', opt_json JStr (gr_reason g))]"

definition exn_text :: "exn \<Rightarrow> string" where
  "exn_text e = exn_class e @ '': '' @ exn_msg e"

definition guard_skip :: "string \<Rightarrow> guard_result" where
  "guard_skip r = \<lparr>gr_status = Skipped, gr_score = None, gr_reason = Some r\<rparr>"

definition guard_verdict :: "settings \<Rightarrow> string \<Rightarrow> guard_result" where
  "guard_verdict S output_text =
     (case py_float output_text of
        None \<Rightarrow> guard_skip (''Non-numeric guard response: '' @ repr_str (take 100 output_text))
      | Some score \<Rightarrow>
          if pf_ge score (PROMPT_GUARD_THRESHOLD S)
          then \<lparr>gr_status = Blocked, gr_score = Some score, gr_reason = None\<rparr>
          else \<lparr>gr_status = Clear, gr_score = Some score, gr_reason = None\<rparr>)"

definition scan :: "settings \<Rightarrow> llm_world \<Rightarrow> string \<Rightarrow> string \<Rightarrow> guard_result" where
  "scan S w user_input provider =
     (case bindR (get_llm S (lw_packages w) (Some provider) (Some PROMPT_GUARD_MODEL))
             (\<lambda>m. ainvoke w m '''' user_input) of
        Inl e \<Rightarrow> guard_skip (exn_text e)
      | Inr content \<Rightarrow> guard_verdict S (strip (py_str content)))"

definition scan_for_injection :: "settings \<Rightarrow> llm_world \<Rightarrow> string \<Rightarrow> guard_result" where
  "scan_for_injection S w user_input = scan S w user_input (provider_for_role S PromptGuard)"

section \<open>Properties\<close>

text \<open>
  A claim is blocked exactly when the guard model answered and its answer reads as a number
  not below the threshold; it is \<open>skipped\<close>, with a reason and without a score, exactly when
  there was no answer or the answer is no number; and a reply of \<open>nan\<close> is neither blocked nor
  skipped, it passes as clear.
\<close>

theorem guard_outcomes:
  "is_injection (scan_for_injection S w text) =
     (\<exists>m content score. get_llm S (lw_packages w) (Some (provider_for_role S PromptGuard)) (Some PROMPT_GUARD_MODEL) = Inr m \<and>
        ainvoke w m '''' text = Inr content \<and> py_float (strip (py_str content)) = Some score \<and>
        pf_ge score (PROMPT_GUARD_THRESHOLD S)) \<and>
   (gr_status (scan_for_injection S w text) = Skipped) =
     (\<nexists>m content score. get_llm S (lw_packages w) (Some (provider_for_role S PromptGuard)) (Some PROMPT_GUARD_MODEL) = Inr m \<and>
        ainvoke w m '''' text = Inr content \<and> py_float (strip (py_str content)) = Some score) \<and>
   (gr_status (scan_for_injection S w text) = Skipped) = (gr_score (scan_for_injection S w text) = None) \<and>
   (gr_status (scan_for_injection S w text) = Skipped) = (gr_reason (scan_for_injection S w text) \<noteq> None) \<and>
   gr_status (guard_verdict S ''nan'') = Clear"
proof -
  have nan: "py_float ''nan'' = Some NaN" by code_simp
  show ?thesis
    by (auto simp: scan_for_injection_def scan_def is_injection_def guard_verdict_def guard_skip_def bindR_def nan
        split: sum.splits option.splits)
qed

end
