(* ===== verification/Amqp.thy ===== *)
theory Amqp
  imports Prelude
begin

text \<open>
  The AMQP helpers (\<open>src/worker/amqp.py\<close>): settling a message on a channel that may be gone, and
  the first connection, retried with a capped backoff for as long as it takes. What the broker
  answers to the \<open>n\<close>-th attempt is an argument; the loop is a partial function, so that never
  connecting is the value \<open>None\<close>.
\<close>

section \<open>Settling\<close>

datatype settlement = Acked | Nacked bool

record delivery_state =
  ds_channel_open :: bool
  ds_settled :: "settlement option"

definition settle :: "settlement \<Rightarrow> delivery_state \<Rightarrow> bool \<times> delivery_state" where
  "settle how m = (if ds_channel_open m then (True, m\<lparr>ds_settled := Some how\<rparr>) else (False, m))"

definition safe_ack :: "delivery_state \<Rightarrow> bool \<times> delivery_state" where
  "safe_ack m = settle Acked m"

definition safe_nack :: "bool \<Rightarrow> delivery_state \<Rightarrow> bool \<times> delivery_state" where
  "safe_nack requeue m = settle (Nacked requeue) m"

section \<open>connect_with_retry\<close>

text \<open>
  The loop from attempt \<open>n\<close> on, with the current delay and the delays slept so far. An
  exception that is not one of the unreachable kind leaves the loop.
\<close>

partial_function (option) connect_loop ::
  "(nat \<Rightarrow> 'c res) \<Rightarrow> (exn \<Rightarrow> bool) \<Rightarrow> rat \<Rightarrow> nat \<Rightarrow> rat \<Rightarrow> rat list \<Rightarrow> ('c res \<times> rat list) option" where
  "connect_loop connect unreachable max_delay n delay slept =
     (case connect n of
        Inr c \<Rightarrow> Some (Inr c, slept)
      | Inl e \<Rightarrow>
          if unreachable e
          then connect_loop connect unreachable max_delay (Suc n) (min (delay * 2) max_delay) (slept @ [delay])
          else Some (Inl e, slept))"

definition connect_with_retry ::
  "(nat \<Rightarrow> 'c res) \<Rightarrow> (exn \<Rightarrow> bool) \<Rightarrow> rat \<Rightarrow> rat \<Rightarrow> ('c res \<times> rat list) option" where
  "connect_with_retry connect unreachable base_delay max_delay =
     connect_loop connect unreachable max_delay 0 base_delay []"

definition retries :: "(nat \<Rightarrow> 'c res) \<Rightarrow> (exn \<Rightarrow> bool) \<Rightarrow> nat \<Rightarrow> bool" where
  "retries connect unreachable n = (case connect n of Inl e \<Rightarrow> unreachable e | Inr c \<Rightarrow> False)"

definition delay_at :: "rat \<Rightarrow> rat \<Rightarrow> nat \<Rightarrow> rat" where
  "delay_at base_delay max_delay i = (if i = 0 then base_delay else min (base_delay * 2 ^ i) max_delay)"

section \<open>Lemmas\<close>

lemma connect_loop_retry:
  "retries connect unreachable n \<Longrightarrow>
   connect_loop connect unreachable mx n delay slept =
     connect_loop connect unreachable mx (Suc n) (min (delay * 2) mx) (slept @ [delay])"
  by (subst connect_loop.simps) (auto simp: retries_def split: sum.splits)

lemma connect_loop_stop:
  "\<not> retries connect unreachable n \<Longrightarrow>
   connect_loop connect unreachable mx n delay slept = Some (connect n, slept)"
  by (subst connect_loop.simps) (auto simp: retries_def split: sum.splits)

lemma delay_step:
  assumes "0 \<le> base" "0 \<le> mx"
  shows "min (delay_at base mx i * 2) mx = delay_at base mx (Suc i)"
proof (cases "i = 0")
  case False
  have "min (min (base * 2 ^ i) mx * 2) mx = min (base * 2 ^ Suc i) mx"
    using assms by (auto simp: min_def)
  with False show ?thesis by (simp add: delay_at_def)
qed (simp add: delay_at_def)

lemma connect_loop_from:
  assumes "0 \<le> base" "0 \<le> mx" "\<And>i. i < k \<Longrightarrow> retries connect unreachable (n + i)"
  shows "connect_loop connect unreachable mx n (delay_at base mx n) slept =
    connect_loop connect unreachable mx (n + k) (delay_at base mx (n + k))
      (slept @ map (delay_at base mx) [n ..< n + k])"
  using assms(3)
proof (induction k arbitrary: n slept)
  case (Suc k)
  have "retries connect unreachable n" using Suc.prems [of 0] by simp
  then have "connect_loop connect unreachable mx n (delay_at base mx n) slept =
      connect_loop connect unreachable mx (Suc n) (delay_at base mx (Suc n)) (slept @ [delay_at base mx n])"
    by (simp add: connect_loop_retry delay_step [OF assms(1,2)])
  also have "\<dots> = connect_loop connect unreachable mx (Suc n + k) (delay_at base mx (Suc n + k))
      ((slept @ [delay_at base mx n]) @ map (delay_at base mx) [Suc n ..< Suc n + k])"
  proof (rule Suc.IH)
    fix i assume "i < k"
    with Suc.prems [of "Suc i"] show "retries connect unreachable (Suc n + i)" by simp
  qed
  finally show ?case by (simp add: upt_conv_Cons del: upt_Suc)
qed simp

text \<open>A run of the loop that ends has seen an attempt that ended it.\<close>

lemma connect_loop_ends:
  "connect_loop connect unreachable mx n delay slept = Some r \<Longrightarrow> \<exists>i. \<not> retries connect unreachable i"
proof (rule connect_loop.raw_induct
    [where P = "\<lambda>connect unreachable mx n delay slept r. \<exists>i. \<not> retries connect unreachable i", rotated], assumption)
  fix loop :: "(nat \<Rightarrow> 'a res) \<Rightarrow> (exn \<Rightarrow> bool) \<Rightarrow> rat \<Rightarrow> nat \<Rightarrow> rat \<Rightarrow> rat list \<Rightarrow> ('a res \<times> rat list) option"
    and connect :: "nat \<Rightarrow> 'a res" and unreachable mx n delay slept r
  assume IH: "\<And>connect unreachable mx n delay slept r.
      loop connect unreachable mx n delay slept = Some r \<Longrightarrow> \<exists>i. \<not> retries connect unreachable i"
    and run: "(case connect n of
        Inl e \<Rightarrow> if unreachable e then loop connect unreachable mx (Suc n) (min (delay * 2) mx) (slept @ [delay])
                 else Some (Inl e, slept)
      | Inr c \<Rightarrow> Some (Inr c, slept)) = Some r"
  show "\<exists>i. \<not> retries connect unreachable i"
  proof (cases "retries connect unreachable n")
    case True
    with run have "loop connect unreachable mx (Suc n) (min (delay * 2) mx) (slept @ [delay]) = Some r"
      by (simp add: retries_def split: sum.splits)
    then show ?thesis by (rule IH)
  qed blast
qed

lemma connect_loop_diverges:
  assumes "\<And>i. retries connect unreachable i"
  shows "connect_loop connect unreachable mx n delay slept = None"
  using connect_loop_ends [of connect unreachable mx n delay slept] assms
  by (cases "connect_loop connect unreachable mx n delay slept") blast+

section \<open>Properties\<close>

text \<open>
  C21. The first connection: when the first \<open>n\<close> attempts find the broker unreachable and the next
  does not, the call returns that attempt's connection, or its other exception, after sleeping
  the base delay doubled each time and capped at the maximum; it returns at all exactly when
  some attempt does not find the broker unreachable.
\<close>

theorem connect_with_retry_returns:
  assumes "0 \<le> base" and "0 \<le> mx"
  shows "(case (\<exists>n. \<not> retries connect unreachable n) of
      False \<Rightarrow> connect_with_retry connect unreachable base mx = None
    | True \<Rightarrow> connect_with_retry connect unreachable base mx =
        Some (connect (LEAST n. \<not> retries connect unreachable n),
              map (delay_at base mx) [0 ..< (LEAST n. \<not> retries connect unreachable n)]))"
proof (cases "\<exists>n. \<not> retries connect unreachable n")
  case False
  then show ?thesis by (simp add: connect_with_retry_def connect_loop_diverges)
next
  case True
  define n where "n = (LEAST n. \<not> retries connect unreachable n)"
  have stop: "\<not> retries connect unreachable n" using True unfolding n_def by (rule LeastI_ex)
  have go: "retries connect unreachable i" if "i < n" for i
    using not_less_Least that unfolding n_def by blast
  have "connect_with_retry connect unreachable base mx =
      connect_loop connect unreachable mx 0 (delay_at base mx 0) []"
    by (simp add: connect_with_retry_def delay_at_def)
  also have "\<dots> = Some (connect n, map (delay_at base mx) [0 ..< n])"
    using connect_loop_from [OF assms, where n = 0 and k = n and connect = connect and unreachable = unreachable
        and slept = "[]"] go
    by (simp add: connect_loop_stop [OF stop])
  finally show ?thesis using True by (simp add: n_def)
qed

definition sample_connect :: "nat \<Rightarrow> nat res" where
  "sample_connect n = (if n < 6 then raise_exn ''AMQPError'' else Inr 7)"

definition sample_unreachable :: "exn \<Rightarrow> bool" where
  "sample_unreachable e = (exn_class e = ''AMQPError'')"

theorem connect_with_retry_returns_witness:
  "connect_with_retry sample_connect sample_unreachable 1 30 = Some (Inr 7, [1, 2, 4, 8, 16, 30])"
proof -
  have r: "retries sample_connect sample_unreachable n \<longleftrightarrow> n < 6" for n
    by (simp add: retries_def sample_connect_def sample_unreachable_def)
  have "(LEAST n. \<not> n < (6 :: nat)) = 6" by (rule Least_equality) auto
  moreover have "\<exists>n. \<not> n < (6 :: nat)" by (rule exI [of _ 6]) simp
  ultimately show ?thesis
    using connect_with_retry_returns [of 1 30 sample_connect sample_unreachable]
    by (simp add: r sample_connect_def delay_at_def upt_rec)
qed

end
