(* ===== verification/Gateway.thy ===== *)
theory Gateway
  imports Orders Schemas
begin

text \<open>
  The gateway (\<open>src/api/main.py\<close>, \<open>src/api/routers/\<close>, \<open>src/api/schemas.py\<close>): a posted claim
  is validated and published as one persistent message, the dashboard's two read endpoints list
  the transactions and say which services answer. FastAPI and the broker's client are not part of
  the repository: of the first only the 422 of a body that does not validate is used, and
  whether the publication goes through is an argument.
\<close>

section \<open>create_claim\<close>

definition opt_str :: "string option \<Rightarrow> json" where
  "opt_str v = opt_json JStr v"

text \<open>\<open>model_dump_json()\<close>, as the object it writes.\<close>

definition claim_dump :: "claim_request \<Rightarrow> dict" where
  "claim_dump cr =
     [(''user_id'', JStr (cr_user_id cr)),
      (''claim_text'', JStr (cr_claim_text cr)),
      (''request_id'', JStr (cr_request_id cr)),
      (''order_id'', opt_json JStr (cr_order_id cr)),
      (''amount'', opt_json JFloat (cr_amount cr)),
      (''currency'', opt_json (JStr \<circ> currency_value) (cr_currency cr))]"

record http_reply =
  hr_status :: nat
  hr_body :: dict

text \<open>The answer and what was published; a failed publication is the framework's 500.\<close>

definition create_claim :: "bool \<Rightarrow> claim_request \<Rightarrow> http_reply \<times> dict option" where
  "create_claim broker_up request =
     (if broker_up
      then (\<lparr>hr_status = 202,
              hr_body = [(''status'', JStr ''Accepted''), (''request_id'', JStr (cr_request_id request))]\<rparr>,
            Some (claim_dump request))
      else (\<lparr>hr_status = 500, hr_body = []\<rparr>, None))"

definition post_claims ::
  "pydantic \<Rightarrow> settings \<Rightarrow> bool \<Rightarrow> string \<Rightarrow> json \<Rightarrow> http_reply \<times> dict option" where
  "post_claims P S broker_up uuid payload =
     (case (case payload of JObj d \<Rightarrow> ClaimRequest P S uuid d | _ \<Rightarrow> None) of
        None \<Rightarrow> (\<lparr>hr_status = 422, hr_body = []\<rparr>, None)
      | Some request \<Rightarrow> create_claim broker_up request)"

section \<open>The dashboard's endpoints\<close>

record transaction_summary =
  ts_request_id :: string
  ts_status :: string
  ts_created_at :: time
  ts_updated_at :: time
  ts_payload :: dict
  ts_judge_trail :: "dict option"

text \<open>A stored payload that is no mapping does not validate.\<close>

definition TransactionSummary :: "transaction_row \<Rightarrow> transaction_summary res" where
  "TransactionSummary row =
     (case tx_payload row of
        JObj d \<Rightarrow> Inr \<lparr>ts_request_id = tx_request_id row, ts_status = tx_status row,
                    ts_created_at = tx_created_at row, ts_updated_at = tx_updated_at row,
                    ts_payload = d, ts_judge_trail = tx_judge_trail row\<rparr>
      | _ \<Rightarrow> raise_exn ''ValidationError'')"

definition list_transactions :: "transaction_row list \<Rightarrow> int \<Rightarrow> transaction_summary list res" where
  "list_transactions rows limit = bindR (get_recent_transactions rows limit) (mapR TransactionSummary)"

text \<open>
  The health checks: a query that fails with the database library's error, and a bare GET whose
  outcome is a status or no answer.
\<close>

definition check_db :: "bool \<Rightarrow> bool" where
  "check_db query_ok = query_ok"

definition check_mcp :: "nat option \<Rightarrow> bool" where
  "check_mcp status = (case status of None \<Rightarrow> False | Some code \<Rightarrow> code = 401)"

record health =
  sh_gateway :: bool
  sh_db :: bool
  sh_mcp :: bool

definition system_health :: "bool \<Rightarrow> nat option \<Rightarrow> health" where
  "system_health query_ok status = \<lparr>sh_gateway = True, sh_db = check_db query_ok, sh_mcp = check_mcp status\<rparr>"

section \<open>The shape of a published claim\<close>

text \<open>What the worker may rely on when a message comes from the gateway.\<close>

definition claim_shaped :: "dict \<Rightarrow> bool" where
  "claim_shaped body \<longleftrightarrow>
     (case dget body ''order_id'' of JNull \<Rightarrow> True | JStr _ \<Rightarrow> True | _ \<Rightarrow> False) \<and>
     (case dget body ''amount'' of JNull \<Rightarrow> True | JFloat f \<Rightarrow> pf_gt f (Fin (Dec 0 0)) | _ \<Rightarrow> False) \<and>
     (case dget body ''currency'' of JNull \<Rightarrow> True | JStr _ \<Rightarrow> True | _ \<Rightarrow> False)"

lemma nullable_Some:
  "nullable d k f = Some (Some x) \<Longrightarrow> \<exists>v. map_of d k = Some v \<and> f v = Some x"
  by (auto simp: nullable_def defaulted_def split: option.splits if_splits)

text \<open>What an accepted claim satisfies.\<close>

lemma ClaimRequest_fields:
  assumes "ClaimRequest P S uuid d = Some cr"
  shows "int (length (cr_claim_text cr)) \<le> CLAIM_TEXT_MAX_LENGTH S"
    and "\<And>s. cr_order_id cr = Some s \<Longrightarrow> s \<noteq> []"
    and "\<And>f. cr_amount cr = Some f \<Longrightarrow> pf_gt f (Fin (Dec 0 0)) \<and> pf_ge (REFUND_MAX_AMOUNT S) f"
proof -
  from assms obtain t where t: "required d ''claim_text'' (\<lambda>v. bindO (coerce_str P v)
      (\<lambda>s. if int (length s) \<le> CLAIM_TEXT_MAX_LENGTH S then Some s else None)) = Some t" "cr_claim_text cr = t"
      "nullable d ''order_id'' (str_min1 P) = Some (cr_order_id cr)"
      "nullable d ''amount'' (float_in P (REFUND_MAX_AMOUNT S)) = Some (cr_amount cr)"
    by (auto simp: ClaimRequest_def res_simps)
  then show "int (length (cr_claim_text cr)) \<le> CLAIM_TEXT_MAX_LENGTH S"
    by (auto simp: required_def res_simps split: if_splits)
  show "s \<noteq> []" if "cr_order_id cr = Some s" for s
    using t(3) that by (auto dest!: nullable_Some str_min1_Some)
  show "pf_gt f (Fin (Dec 0 0)) \<and> pf_ge (REFUND_MAX_AMOUNT S) f" if "cr_amount cr = Some f" for f
    using t(4) that by (auto dest!: nullable_Some simp: float_in_def res_simps split: if_splits)
qed

lemma claim_dump_get [simp]:
  "dget (claim_dump cr) ''user_id'' = JStr (cr_user_id cr)"
  "dget (claim_dump cr) ''claim_text'' = JStr (cr_claim_text cr)"
  "dget (claim_dump cr) ''request_id'' = JStr (cr_request_id cr)"
  "dget (claim_dump cr) ''order_id'' = opt_json JStr (cr_order_id cr)"
  "dget (claim_dump cr) ''amount'' = opt_json JFloat (cr_amount cr)"
  "dget (claim_dump cr) ''currency'' = opt_json (JStr \<circ> currency_value) (cr_currency cr)"
  by (simp_all add: claim_dump_def dget_def)

lemma claim_dump_shaped: "ClaimRequest P S uuid d = Some cr \<Longrightarrow> claim_shaped (claim_dump cr)"
  using ClaimRequest_fields(3) [of P S uuid d cr]
  by (auto simp: claim_shaped_def opt_json_def split: option.splits)

lemma nullable_dump:
  assumes "map_of d k = Some (opt_json g v)" "\<And>x. g x \<noteq> JNull" "\<And>x. v = Some x \<Longrightarrow> f (g x) = Some x"
  shows "nullable d k f = Some v"
  using assms by (cases v) (simp_all add: nullable_def defaulted_def opt_json_def)

lemma claim_roundtrip:
  assumes P: "pydantic_ok P" and cr: "ClaimRequest P S uuid d = Some cr"
  shows "ClaimRequest P S uuid' (claim_dump cr) = Some cr"
proof -
  note f = ClaimRequest_fields [OF cr]
  have s: "coerce_str P (JStr x) = Some x" for x by (simp add: pydantic_ok_str [OF P])
  have "nullable (claim_dump cr) ''order_id'' (str_min1 P) = Some (cr_order_id cr)"
    by (rule nullable_dump [of _ _ JStr]) (use f(2) in \<open>auto simp: claim_dump_def str_min1_def s\<close>)
  moreover have "nullable (claim_dump cr) ''amount'' (float_in P (REFUND_MAX_AMOUNT S)) = Some (cr_amount cr)"
    by (rule nullable_dump [of _ _ JFloat])
      (use f(3) in \<open>auto simp: claim_dump_def float_in_def pydantic_ok_float [OF P]\<close>)
  moreover have "nullable (claim_dump cr) ''currency'' enum_currency = Some (cr_currency cr)"
    by (rule nullable_dump [of _ _ "JStr \<circ> currency_value"]) (auto simp: claim_dump_def enum_currency_def)
  moreover have "required (claim_dump cr) ''user_id'' (coerce_str P) = Some (cr_user_id cr)"
    "defaulted (claim_dump cr) ''request_id'' uuid' (coerce_str P) = Some (cr_request_id cr)"
    "required (claim_dump cr) ''claim_text'' (\<lambda>v. bindO (coerce_str P v)
       (\<lambda>s. if int (length s) \<le> CLAIM_TEXT_MAX_LENGTH S then Some s else None)) = Some (cr_claim_text cr)"
    using f(1) by (auto simp: required_def defaulted_def claim_dump_def s)
  ultimately show ?thesis unfolding ClaimRequest_def by simp
qed

lemma post_claims_202:
  assumes "post_claims P S broker_up uuid payload = (reply, Some body)"
  obtains d cr where "payload = JObj d" "ClaimRequest P S uuid d = Some cr" "body = claim_dump cr"
    "reply = \<lparr>hr_status = 202, hr_body = [(''status'', JStr ''Accepted''), (''request_id'', JStr (cr_request_id cr))]\<rparr>"
  using assms by (auto simp: post_claims_def create_claim_def split: json.splits option.splits if_splits)

section \<open>Properties\<close>

text \<open>
  C22. A claim the gateway publishes is the claim it validated: the message validates again, on
  the worker's side, to one and the same claim, its amount and text are within the configured
  limits and its order is not empty, the 202 names its \<open>request_id\<close>, and its refund fields have
  the shape the worker needs.
\<close>

theorem gateway_publishes:
  assumes "pydantic_ok P" and "post_claims P S broker_up uuid payload = (reply, Some body)"
  shows "\<exists>cr. body = claim_dump cr \<and> (\<forall>u. ClaimRequest P S u body = Some cr) \<and>
    hr_status reply = 202 \<and> dget (hr_body reply) ''request_id'' = dget body ''request_id'' \<and>
    int (length (cr_claim_text cr)) \<le> CLAIM_TEXT_MAX_LENGTH S \<and> cr_order_id cr \<noteq> Some [] \<and>
    (case cr_amount cr of None \<Rightarrow> True
     | Some f \<Rightarrow> pf_gt f (Fin (Dec 0 0)) \<and> pf_ge (REFUND_MAX_AMOUNT S) f) \<and>
    claim_shaped body"
proof -
  from assms(2) obtain d cr where c: "ClaimRequest P S uuid d = Some cr" "body = claim_dump cr"
      "reply = \<lparr>hr_status = 202, hr_body = [(''status'', JStr ''Accepted''), (''request_id'', JStr (cr_request_id cr))]\<rparr>"
    by (rule post_claims_202)
  from claim_roundtrip [OF assms(1) c(1)] c(2) have "\<forall>u. ClaimRequest P S u body = Some cr" by simp
  moreover have "dget (hr_body reply) ''request_id'' = dget body ''request_id''"
    using c by (simp add: dget_def claim_dump_def)
  ultimately show ?thesis
    using c ClaimRequest_fields [OF c(1)] claim_dump_shaped [OF c(1)]
    by (intro exI [of _ cr]) (auto split: option.splits)
qed

definition demo_claim :: claim_request where
  "demo_claim = \<lparr>cr_user_id = ''user-1'', cr_claim_text = ''broken'', cr_request_id = ''uuid-1'',
     cr_order_id = Some ''ord-1'', cr_amount = Some (Fin (Dec 45 0)), cr_currency = Some USD\<rparr>"

definition demo_post :: json where
  "demo_post = JObj [(''user_id'', JStr ''user-1''), (''claim_text'', JStr ''broken''),
     (''order_id'', JStr ''ord-1''), (''amount'', JInt 45), (''currency'', JStr ''USD'')]"

lemma demo_posted:
  "post_claims lax_mode default_settings True ''uuid-1'' demo_post =
     (\<lparr>hr_status = 202, hr_body = [(''status'', JStr ''Accepted''), (''request_id'', JStr ''uuid-1'')]\<rparr>,
      Some (claim_dump demo_claim))"
  by code_simp

theorem gateway_publishes_witness:
  "\<exists>cr. claim_dump demo_claim = claim_dump cr \<and>
     ClaimRequest lax_mode default_settings ''other'' (claim_dump demo_claim) = Some cr \<and>
     cr_order_id cr \<noteq> Some [] \<and> claim_shaped (claim_dump demo_claim)"
  using gateway_publishes [OF lax_mode_ok demo_posted] by metis

end
