(* ===== verification/Worker.thy ===== *)
theory Worker
  imports Claim_Evidence Front_Desk Amqp Gateway
begin

text \<open>
  The worker (\<open>src/worker/worker.py\<close>): one message, from the atomic claim of its
  \<open>request_id\<close> to the final status. The steps of \<open>process_message\<close> are functions of their
  own, in its order; the outside world \<open>'s\<close> is reached through one session function
  (\<open>Mcp_Client\<close>), the models and the retrieval through the environment. An exception that no
  step catches ends in a negative acknowledgement, whatever was done before it.
\<close>

section \<open>Environment and state\<close>

record claim_env =
  ce_settings :: settings
  ce_pydantic :: pydantic
  ce_llm :: llm_world
  ce_retrieve :: "string \<Rightarrow> string option res"
  ce_claim_db :: bool \<comment> \<open>the claim's INSERT and its commit go through\<close>
  ce_read_db :: bool \<comment> \<open>the rollback that ends the reads goes through\<close>
  ce_final_db :: bool \<comment> \<open>the final transaction goes through\<close>

definition ce_policy :: "claim_env \<Rightarrow> mcp_call_policy" where
  "ce_policy env = policy_from_settings (ce_settings env)"

type_synonym txn_table = "string \<rightharpoonup> transaction_row"

section \<open>Step 1: the atomic claim\<close>

datatype claim_result = Claimed txn_table | Duplicate | ClaimError exn

text \<open>
  The INSERT: \<open>IntegrityError\<close> when the row exists, another database error for an id that is no
  string.
\<close>

definition insert_claim :: "bool \<Rightarrow> time \<Rightarrow> json \<Rightarrow> dict \<Rightarrow> txn_table \<Rightarrow> claim_result" where
  "insert_claim db_up now request_id body txns =
     (case request_id of
        JStr rid \<Rightarrow>
          if \<not> db_up then ClaimError (Exn ''DBAPIError'' '''')
          else if txns rid \<noteq> None then Duplicate
          else Claimed (txns(rid \<mapsto> \<lparr>tx_request_id = rid, tx_payload = JObj body, tx_status = ''PROCESSING'',
                 tx_created_at = now, tx_updated_at = now, tx_judge_trail = None\<rparr>))
      | _ \<Rightarrow> ClaimError (Exn ''DBAPIError'' ''''))"

section \<open>Step 2: prompt guard, retrieval, Front-Desk\<close>

definition claim_text :: "dict \<Rightarrow> json" where
  "claim_text body = dget_or body ''claim_text'' (JStr '''')"

text \<open>A text that is not a string cannot become a message; the guard then fails open.\<close>

definition guard_claim :: "claim_env \<Rightarrow> dict \<Rightarrow> guard_result option" where
  "guard_claim env body =
     (if \<not> truthy (claim_text body) then None
      else Some (case claim_text body of
                   JStr s \<Rightarrow> scan_for_injection (ce_settings env) (ce_llm env) s
                 | _ \<Rightarrow> guard_skip ''ValidationError: ''))"

definition retrieved_policy :: "claim_env \<Rightarrow> dict \<Rightarrow> string option" where
  "retrieved_policy env body =
     (if \<not> truthy (claim_text body) then None
      else case claim_text body of
             JStr s \<Rightarrow> (case ce_retrieve env s of Inl e \<Rightarrow> None | Inr p \<Rightarrow> p)
           | _ \<Rightarrow> None)"

definition propose :: "claim_env \<Rightarrow> dict \<Rightarrow> string option \<Rightarrow> claim_proposal res" where
  "propose env body feedback =
     (case claim_text body of
        JStr s \<Rightarrow> Inr (propose_action (ce_settings env) (ce_pydantic env) (ce_llm env) s feedback)
      | _ \<Rightarrow> raise_exn ''AttributeError'')"

text \<open>The read transaction of the retrieval is ended before the Front-Desk is asked.\<close>

definition end_reads :: "claim_env \<Rightarrow> unit res" where
  "end_reads env = (if ce_read_db env then Inr () else raise_exn ''DBAPIError'')"

definition first_proposal :: "claim_env \<Rightarrow> dict \<Rightarrow> claim_proposal option res" where
  "first_proposal env body =
     bindR (end_reads env) (\<lambda>_.
       if truthy (claim_text body) then bindR (propose env body None) (\<lambda>p. Inr (Some p)) else Inr None)"

definition not_a_refund :: "claim_proposal option \<Rightarrow> claim_proposal option" where
  "not_a_refund p = (case p of None \<Rightarrow> None | Some q \<Rightarrow> if cp_intent q \<noteq> Refund then Some q else None)"

section \<open>Step 2.6: evidence\<close>

record evidence_outcome =
  eo_trail :: "dict option"
  eo_failure :: "string option"
  eo_summary :: "dict option"

definition no_evidence :: evidence_outcome where
  "no_evidence = \<lparr>eo_trail = None, eo_failure = None, eo_summary = None\<rparr>"

definition unavailable :: "string \<Rightarrow> evidence_outcome" where
  "unavailable msg =
     \<lparr>eo_trail = Some [(''status'', JStr ''unavailable''), (''error'', JStr msg)],
      eo_failure = Some (''Evidence unavailable: '' @ msg), eo_summary = None\<rparr>"

definition checked :: "evidence_check \<Rightarrow> evidence_outcome res" where
  "checked ec =
     bindR (to_trail ec) (\<lambda>trail.
       if passed ec
       then bindR (summary_for_judges ec) (\<lambda>summary.
              Inr \<lparr>eo_trail = Some trail, eo_failure = None, eo_summary = Some summary\<rparr>)
       else Inr \<lparr>eo_trail = Some trail, eo_failure = Some (join '' '' (ec_failures ec)), eo_summary = None\<rparr>)"

text \<open>Only for a claim the Front-Desk left as a refund, with an order and an amount.\<close>

definition has_refund :: "dict \<Rightarrow> bool" where
  "has_refund body \<longleftrightarrow> truthy (dget body ''order_id'') \<and> truthy (dget body ''amount'')"

definition evidence_step ::
  "'s session \<Rightarrow> claim_env \<Rightarrow> dict \<Rightarrow> claim_proposal option \<Rightarrow> 's \<Rightarrow> evidence_outcome res \<times> 's" where
  "evidence_step call env body other_intent s =
     (if other_intent \<noteq> None \<or> \<not> has_refund body then (Inr no_evidence, s)
      else case verify_claim_evidence call (ce_policy env) (ce_settings env) body s of
             (Inl e, s') \<Rightarrow> (Inl e, s')
           | (Inr (Inl msg), s') \<Rightarrow> (Inr (unavailable msg), s')
           | (Inr (Inr ec), s') \<Rightarrow> (checked ec, s'))"

section \<open>Step 3: judges and reclassification\<close>

definition judge_context :: "string \<Rightarrow> string option \<Rightarrow> dict option \<Rightarrow> dict" where
  "judge_context rid policy summary =
     (let c0 = [(''request_id'', JStr rid)];
          c1 = (case policy of None \<Rightarrow> c0
                | Some p \<Rightarrow> if p = [] then c0 else dset ''retrieved_policy'' (JStr p) c0)
      in case summary of None \<Rightarrow> c1 | Some e \<Rightarrow> dset ''evidence'' (JObj e) c1)"

text \<open>The verdict, empty when the judges are not called, and the proposal of the one retry.\<close>

record judgement =
  jg_result :: dict
  jg_retry :: "claim_proposal option"

definition judge_step ::
  "claim_env \<Rightarrow> string \<Rightarrow> dict \<Rightarrow> claim_proposal option \<Rightarrow> string option \<Rightarrow> evidence_outcome \<Rightarrow> judgement res" where
  "judge_step env rid body other_intent policy ev =
     (if eo_failure ev \<noteq> None \<or> other_intent \<noteq> None then Inr \<lparr>jg_result = [], jg_retry = None\<rparr>
      else let result = evaluate_decision (ce_settings env) (ce_llm env) ''execute_refund'' body
                          (judge_context rid policy (eo_summary ev))
           in if dget result ''verdict'' = JStr ''APPROVE'' then Inr \<lparr>jg_result = result, jg_retry = None\<rparr>
              else bindR (propose env body
                           (case dget result ''reason'' of JStr r \<Rightarrow> Some r | _ \<Rightarrow> None)) (\<lambda>again.
                   Inr \<lparr>jg_result = result, jg_retry = not_a_refund (Some again)\<rparr>))"

definition approved :: "judgement \<Rightarrow> bool" where
  "approved jg = (dget (jg_result jg) ''verdict'' = JStr ''APPROVE'')"

section \<open>Step 4: execution\<close>

text \<open>The intent that decides between a question and a human: the retry's, or the first one's.\<close>

definition deciding_proposal :: "claim_proposal option \<Rightarrow> judgement \<Rightarrow> claim_proposal option" where
  "deciding_proposal other_intent jg = (case jg_retry jg of Some p \<Rightarrow> Some p | None \<Rightarrow> other_intent)"

definition review_status :: "claim_proposal option \<Rightarrow> string" where
  "review_status p =
     (case p of Some q \<Rightarrow> if cp_intent q = Clarify then ''NEEDS_CLARIFICATION'' else ''PENDING_HUMAN_REVIEW''
      | None \<Rightarrow> ''PENDING_HUMAN_REVIEW'')"

definition not_executable :: dict where
  "not_executable =
     [(''status'', JStr ''not_executable''),
      (''reason'', JStr ''Claim approved but has no order_id/amount to refund.'')]"

definition execute_step ::
  "'s session \<Rightarrow> claim_env \<Rightarrow> string \<Rightarrow> dict \<Rightarrow> claim_proposal option \<Rightarrow> judgement \<Rightarrow> 's
   \<Rightarrow> (string \<times> dict option) \<times> 's" where
  "execute_step call env rid body other_intent jg s =
     (let review = review_status (deciding_proposal other_intent jg)
      in if \<not> approved jg then ((review, None), s)
         else if \<not> has_refund body then ((review, Some not_executable), s)
         else case execute_refund_via_mcp call (ce_policy env) rid (dget body ''order_id'') (dget body ''amount'')
                     (py_or (dget body ''currency'') (JStr (currency_value USD))) s of
                (Inl err, _, s') \<Rightarrow>
                  ((''EXECUTION_FAILED'', Some [(''status'', JStr ''failed''), (''error'', JStr err)]), s')
              | (Inr execution, _, s') \<Rightarrow> ((''COMPLETED'', Some execution), s'))"

section \<open>Step 5: the final write\<close>

definition add_entry :: "string \<Rightarrow> dict option \<Rightarrow> dict option \<Rightarrow> dict option" where
  "add_entry k v trail =
     (case v of None \<Rightarrow> trail
      | Some d \<Rightarrow> Some (dset k (JObj d) (case trail of None \<Rightarrow> [] | Some t \<Rightarrow> t)))"

definition judge_trail ::
  "guard_result option \<Rightarrow> claim_proposal option \<Rightarrow> evidence_outcome \<Rightarrow> judgement \<Rightarrow> dict option \<Rightarrow> dict option" where
  "judge_trail guard proposal ev jg execution =
     add_entry ''execution'' execution
       (add_entry ''evidence'' (eo_trail ev)
         (add_entry ''front_desk_retry'' (map_option proposal_dump (jg_retry jg))
           (add_entry ''front_desk'' (map_option proposal_dump proposal)
             (add_entry ''prompt_guard'' (map_option guard_trail guard)
               (case dget (jg_result jg) ''trail'' of JObj t \<Rightarrow> Some t | _ \<Rightarrow> None)))))"

text \<open>\<open>SELECT ... FOR UPDATE\<close> raises when the row is gone, or the database is.\<close>

definition write_final ::
  "bool \<Rightarrow> time \<Rightarrow> string \<Rightarrow> string \<Rightarrow> dict option \<Rightarrow> txn_table \<Rightarrow> txn_table res" where
  "write_final db_up now rid status trail txns =
     (case (if db_up then txns rid else None) of
        None \<Rightarrow> raise_exn ''NoResultFound''
      | Some row \<Rightarrow> Inr (txns(rid \<mapsto> row\<lparr>tx_status := status, tx_judge_trail := trail, tx_updated_at := now\<rparr>)))"

section \<open>process_message\<close>

text \<open>
  What the claimed row's processing decides, and the world after it. The default model is built
  (and may not be available) before the judges run.
\<close>

record verdict =
  vd_status :: string
  vd_trail :: "dict option"

definition decide_claim ::
  "'s session \<Rightarrow> claim_env \<Rightarrow> string \<Rightarrow> dict \<Rightarrow> 's \<Rightarrow> verdict res \<times> 's" where
  "decide_claim call env rid body s =
     (let guard = guard_claim env body
      in if (case guard of None \<Rightarrow> False | Some g \<Rightarrow> is_injection g)
         then (Inr \<lparr>vd_status = ''BLOCKED_MALICIOUS_PROMPT'',
                    vd_trail = add_entry ''prompt_guard'' (map_option guard_trail guard) None\<rparr>, s)
         else case first_proposal env body of
                Inl e \<Rightarrow> (Inl e, s)
              | Inr proposal \<Rightarrow>
                  (case evidence_step call env body (not_a_refund proposal) s of
                     (Inl e, s1) \<Rightarrow> (Inl e, s1)
                   | (Inr ev, s1) \<Rightarrow>
                       (case bindR (get_llm (ce_settings env) (lw_packages (ce_llm env)) None None) (\<lambda>_.
                               judge_step env rid body (not_a_refund proposal) (retrieved_policy env body) ev) of
                          Inl e \<Rightarrow> (Inl e, s1)
                        | Inr jg \<Rightarrow>
                            (let ((status, execution), s2) = execute_step call env rid body (not_a_refund proposal) jg s1
                             in (Inr \<lparr>vd_status = status,
                                      vd_trail = judge_trail guard proposal ev jg execution\<rparr>, s2)))))"

text \<open>The clock of the claim and of the final write; the answer is the settlement asked for.\<close>

definition finish_claim ::
  "bool \<Rightarrow> time \<Rightarrow> string \<Rightarrow> verdict res \<Rightarrow> txn_table \<Rightarrow> settlement \<times> txn_table" where
  "finish_claim db_up now rid vd txns =
     (case bindR vd (\<lambda>v. bindR (write_final db_up now rid (vd_status v) (vd_trail v) txns) (\<lambda>t. Inr (v, t))) of
        Inl e \<Rightarrow> (Nacked False, txns)
      | Inr (v, t) \<Rightarrow> (if vd_status v = ''EXECUTION_FAILED'' then Nacked False else Acked, t))"

definition process_message ::
  "'s session \<Rightarrow> claim_env \<Rightarrow> time \<Rightarrow> time \<Rightarrow> json option \<Rightarrow> txn_table \<Rightarrow> 's
   \<Rightarrow> settlement \<times> txn_table \<times> 's" where
  "process_message call env now1 now2 wire txns s =
     (case wire of
        Some (JObj body) \<Rightarrow>
          let request_id = dget body ''request_id''
          in if \<not> truthy request_id then (Acked, txns, s)
             else (case insert_claim (ce_claim_db env) now1 request_id body txns of
                     ClaimError e \<Rightarrow> (Nacked False, txns, s)
                   | Duplicate \<Rightarrow> (Acked, txns, s)
                   | Claimed txns1 \<Rightarrow>
                       (let (vd, s') = decide_claim call env (py_str request_id) body s;
                            (how, txns2) = finish_claim (ce_final_db env) now2 (py_str request_id) vd txns1
                        in (how, txns2, s')))
      | _ \<Rightarrow> (Nacked False, txns, s))"

text \<open>\<open>handle_delivery\<close>: the settlement on a channel that may be gone meanwhile.\<close>

definition handle_delivery ::
  "'s session \<Rightarrow> claim_env \<Rightarrow> time \<Rightarrow> time \<Rightarrow> json option \<Rightarrow> delivery_state \<Rightarrow> txn_table \<Rightarrow> 's
   \<Rightarrow> delivery_state \<times> txn_table \<times> 's" where
  "handle_delivery call env now1 now2 wire m txns s =
     (let (how, txns', s') = process_message call env now1 now2 wire txns s
      in (snd (case how of Acked \<Rightarrow> safe_ack m | Nacked rq \<Rightarrow> safe_nack rq m), txns', s'))"

section \<open>What a message does\<close>

lemma decide_claim_cases:
  assumes "decide_claim call env rid body s = (vd, s')"
  obtains (pure) "s' = s"
      "\<And>v. vd = Inr v \<Longrightarrow> vd_status v = ''BLOCKED_MALICIOUS_PROMPT''"
  | (evidence) proposal ev where "first_proposal env body = Inr proposal"
      "evidence_step call env body (not_a_refund proposal) s = (ev, s')" "\<exists>e. vd = Inl e"
  | (judged) proposal ev s1 jg status execution where
      "\<not> (case guard_claim env body of None \<Rightarrow> False | Some g \<Rightarrow> is_injection g)"
      "first_proposal env body = Inr proposal"
      "evidence_step call env body (not_a_refund proposal) s = (Inr ev, s1)"
      "judge_step env rid body (not_a_refund proposal) (retrieved_policy env body) ev = Inr jg"
      "execute_step call env rid body (not_a_refund proposal) jg s1 = ((status, execution), s')"
      "vd = Inr \<lparr>vd_status = status, vd_trail = judge_trail (guard_claim env body) proposal ev jg execution\<rparr>"
proof (cases "case guard_claim env body of None \<Rightarrow> False | Some g \<Rightarrow> is_injection g")
  case True
  with assms show thesis by (intro pure) (auto simp: decide_claim_def)
next
  case ok: False
  show thesis
  proof (cases "first_proposal env body")
    case (Inl e)
    with ok assms show thesis by (intro pure) (auto simp: decide_claim_def)
  next
    case (Inr proposal)
    obtain ev s1 where e: "evidence_step call env body (not_a_refund proposal) s = (ev, s1)"
      by (cases "evidence_step call env body (not_a_refund proposal) s")
    show thesis
    proof (cases ev)
      case (Inl x)
      with ok Inr e assms show thesis by (intro evidence [of proposal ev]) (auto simp: decide_claim_def)
    next
      case ev: (Inr eo)
      define j where "j = bindR (get_llm (ce_settings env) (lw_packages (ce_llm env)) None None)
        (\<lambda>_. judge_step env rid body (not_a_refund proposal) (retrieved_policy env body) eo)"
      show thesis
      proof (cases j)
        case (Inl x)
        with ok Inr e ev assms show thesis
          by (intro evidence [of proposal ev]) (auto simp: decide_claim_def j_def)
      next
        case (Inr jg)
        then have jg: "judge_step env rid body (not_a_refund proposal) (retrieved_policy env body) eo = Inr jg"
          by (auto simp: j_def res_simps)
        obtain status execution s2 where x: "execute_step call env rid body (not_a_refund proposal) jg s1 =
            ((status, execution), s2)" by (metis prod.collapse)
        show thesis
        proof (rule judged [OF ok \<open>first_proposal env body = Inr proposal\<close> _ jg])
          show "evidence_step call env body (not_a_refund proposal) s = (Inr eo, s1)" using e ev by simp
          show "execute_step call env rid body (not_a_refund proposal) jg s1 = ((status, execution), s')"
            "vd = Inr \<lparr>vd_status = status, vd_trail = judge_trail (guard_claim env body) proposal eo jg execution\<rparr>"
            using assms ok \<open>first_proposal env body = Inr proposal\<close> e ev Inr x
            by (auto simp: decide_claim_def j_def [symmetric] Let_def)
        qed
      qed
    qed
  qed
qed

text \<open>A message either changes nothing, or claims the row of a fresh request and decides it.\<close>

lemma process_message_cases:
  assumes "process_message call env now1 now2 wire txns s = (how, txns', s')"
  obtains (idle) "txns' = txns" "s' = s"
  | (claimed) body rid vd where "wire = Some (JObj body)" "dget body ''request_id'' = JStr rid" "rid \<noteq> []"
      "txns rid = None"
      "decide_claim call env rid body s = (vd, s')"
      "finish_claim (ce_final_db env) now2 rid vd
         (txns(rid \<mapsto> \<lparr>tx_request_id = rid, tx_payload = JObj body, tx_status = ''PROCESSING'',
            tx_created_at = now1, tx_updated_at = now1, tx_judge_trail = None\<rparr>)) = (how, txns')"
proof (cases "\<exists>body rid. wire = Some (JObj body) \<and> dget body ''request_id'' = JStr rid \<and> rid \<noteq> [] \<and>
    txns rid = None \<and> ce_claim_db env")
  case True
  then obtain body rid where b: "wire = Some (JObj body)" "dget body ''request_id'' = JStr rid" "rid \<noteq> []"
      "txns rid = None" "ce_claim_db env" by blast
  obtain vd u where d: "decide_claim call env rid body s = (vd, u)" by (cases "decide_claim call env rid body s")
  from assms b d show thesis
    by (intro claimed [OF b(1-4)]) (auto simp: process_message_def insert_claim_def case_prod_beta Let_def)
next
  case False
  have "txns' = txns \<and> s' = s"
  proof (cases "\<exists>body. wire = Some (JObj body)")
    case no: False
    then show ?thesis using assms
      by (auto simp: process_message_def split: option.splits json.splits)
  next
    case yes: True
    then obtain body where b: "wire = Some (JObj body)" by blast
    show ?thesis
    proof (cases "insert_claim (ce_claim_db env) now1 (dget body ''request_id'') body txns")
      case (Claimed t)
      with False b assms show ?thesis
        by (auto simp: process_message_def insert_claim_def split: json.splits if_splits)
    qed (use assms b in \<open>auto simp: process_message_def Let_def split: if_splits\<close>)
  qed
  with idle show thesis by blast
qed

section \<open>What a claim may do to the tables\<close>

text \<open>
  What has to hold before a refund: the guard let the text pass, the Front-Desk called it a
  refund (or there was no text), the evidence holds on the tables the claim started from, and
  the judges' verdict is APPROVE.
\<close>

definition may_refund ::
  "claim_env \<Rightarrow> string \<Rightarrow> dict \<Rightarrow> order_row table \<Rightarrow> refund_row table \<Rightarrow> bool" where
  "may_refund env rid body ords refs \<longleftrightarrow>
     \<not> (case guard_claim env body of None \<Rightarrow> False | Some g \<Rightarrow> is_injection g) \<and>
     (\<exists>p. first_proposal env body = Inr p \<and> not_a_refund p = None) \<and>
     (\<exists>oid user claim. dindex body ''order_id'' = Inr oid \<and> claim_of_body body (py_str oid) user = Inr claim \<and>
        evidence_ok (ce_settings env) claim ords refs) \<and>
     (\<exists>summary. dget (evaluate_decision (ce_settings env) (ce_llm env) ''execute_refund'' body
        (judge_context rid (retrieved_policy env body) (Some summary))) ''verdict'' = JStr ''APPROVE'')"

lemma judge_step_approved:
  assumes "judge_step env rid body other policy ev = Inr jg" "approved jg"
  shows "eo_failure ev = None \<and> other = None \<and>
    dget (evaluate_decision (ce_settings env) (ce_llm env) ''execute_refund'' body
      (judge_context rid policy (eo_summary ev))) ''verdict'' = JStr ''APPROVE''"
  using assms by (auto simp: judge_step_def approved_def Let_def res_simps dget_def split: if_splits)

lemma checked_passed: "checked ec = Inr ev \<Longrightarrow> eo_failure ev = None \<Longrightarrow> passed ec \<and> (\<exists>summary. eo_summary ev = Some summary)"
  by (auto simp: checked_def res_simps split: if_splits)

lemma execute_step_cases:
  assumes "execute_step call env rid body other jg s = ((status, execution), s')"
  obtains (review) "s' = s" "status = review_status (deciding_proposal other jg)"
  | (refund) r ds where "approved jg" "has_refund body"
      "execute_refund_via_mcp call (ce_policy env) rid (dget body ''order_id'') (dget body ''amount'')
         (py_or (dget body ''currency'') (JStr (currency_value USD))) s = (r, ds, s')"
      "(case r of Inl e \<Rightarrow> status = ''EXECUTION_FAILED'' | Inr res \<Rightarrow> status = ''COMPLETED'' \<and> execution = Some res)"
  using assms that
  by (auto simp: execute_step_def Let_def split: if_splits prod.splits sum.splits)

context evidence_endpoint
begin

lemma evidence_step_frame:
  "evidence_step call env body other s = (r, s') \<Longrightarrow> same_tables inv ledger orders s s'"
  by (auto simp: evidence_step_def split: if_splits prod.splits sum.splits dest: verify_frame)

lemma evidence_step_passed:
  assumes "inv s" "evidence_step call env body None s = (Inr ev, s')" "has_refund body" "eo_failure ev = None"
  shows "(\<exists>oid user claim. dindex body ''order_id'' = Inr oid \<and> claim_of_body body (py_str oid) user = Inr claim \<and>
    evidence_ok (ce_settings env) claim (orders s) (ledger s)) \<and> (\<exists>summary. eo_summary ev = Some summary)"
proof -
  from assms(2-4) obtain ec where
    v: "verify_claim_evidence call (ce_policy env) (ce_settings env) body s = (Inr (Inr ec), s')" and c: "checked ec = Inr ev"
    by (auto simp: evidence_step_def unavailable_def split: prod.splits sum.splits)
  note c = checked_passed [OF c assms(4)]
  from verify_passed [OF assms(1) v] c show ?thesis by metis
qed

text \<open>Either the tables stay, or all the gates were passed and the refund tool was called.\<close>

lemma decide_claim_tables:
  assumes inv: "inv s" and run: "decide_claim call env rid body s = (vd, s')"
  shows "same_tables inv ledger orders s s' \<or>
    may_refund env rid body (orders s) (ledger s) \<and> has_refund body \<and>
    (\<exists>u r ds. same_tables inv ledger orders s u \<and>
       execute_refund_via_mcp call (ce_policy env) rid (dget body ''order_id'') (dget body ''amount'')
         (py_or (dget body ''currency'') (JStr (currency_value USD))) u = (r, ds, s'))"
  using run
proof (cases rule: decide_claim_cases)
  case pure
  then show ?thesis by simp
next
  case (evidence proposal ev)
  then show ?thesis by (auto dest: evidence_step_frame)
next
  case (judged proposal ev s1 jg status execution)
  note frame = evidence_step_frame [OF judged(3)]
  from judged(5) show ?thesis
  proof (cases rule: execute_step_cases)
    case review
    with frame show ?thesis by simp
  next
    case (refund r ds)
    note j = judge_step_approved [OF judged(4) refund(1)]
    with judged have "evidence_step call env body None s = (Inr ev, s1)" by simp
    note e = evidence_step_passed [OF inv this refund(2) conjunct1 [OF j]]
    then obtain summary where "eo_summary ev = Some summary" by blast
    with j have "\<exists>summary. dget (evaluate_decision (ce_settings env) (ce_llm env) ''execute_refund'' body
        (judge_context rid (retrieved_policy env body) (Some summary))) ''verdict'' = JStr ''APPROVE''" by metis
    with e j judged(1,2) have "may_refund env rid body (orders s) (ledger s)" by (simp add: may_refund_def)
    with frame refund show ?thesis by blast
  qed
qed

lemma decide_claim_inv:
  assumes inv: "inv s" and run: "decide_claim call env rid body s = (vd, s')"
  shows "inv s' \<and> orders s' = orders s \<and> refund_for rid (ledger s) (ledger s')"
  using decide_claim_tables [OF assms]
proof
  assume "same_tables inv ledger orders s s'"
  with inv show ?thesis by (simp add: same_tables_def)
next
  assume "may_refund env rid body (orders s) (ledger s) \<and> has_refund body \<and>
    (\<exists>u r ds. same_tables inv ledger orders s u \<and>
       execute_refund_via_mcp call (ce_policy env) rid (dget body ''order_id'') (dget body ''amount'')
         (py_or (dget body ''currency'') (JStr (currency_value USD))) u = (r, ds, s'))"
  then obtain u r ds args where u: "inv u" "ledger u = ledger s" "orders u = orders s"
      "call_tool_with_retry call (ce_policy env) ''execute_refund'' args u = (r, ds, s')"
      "dget args ''request_id'' = JStr rid"
    using inv by (auto simp: same_tables_def execute_refund_via_mcp_def refund_arguments_def dget_def)
  from retry_inv [OF u(1,4)] retry_orders [OF u(4)] retry_refund_key [OF u(1,5,4)] u show ?thesis by simp
qed

end

section \<open>Claims in the gateway's shape\<close>

text \<open>The claim the evidence was checked for is the refund the worker asks for.\<close>

lemma claim_of_shaped:
  assumes shape: "claim_shaped body" and refund: "has_refund body"
    and oid: "dindex body ''order_id'' = Inr oid" and claim: "claim_of_body body (py_str oid) user = Inr claim"
    and rid: "dget body ''request_id'' = JStr rid"
  shows "dget body ''order_id'' = JStr (cl_order_id claim)"
    and "dget body ''amount'' = JFloat (Fin (cl_amount claim))" and "0 \<le> cents_of (cl_amount claim)"
    and "py_or (dget body ''currency'') (JStr (currency_value USD)) = JStr (cl_currency claim)"
    and "cl_request_id claim = rid"
proof -
  have o: "dget body ''order_id'' = oid"
    using oid by (auto simp: dindex_def dget_def split: option.splits)
  with shape refund have "\<exists>s. oid = JStr s" by (auto simp: claim_shaped_def has_refund_def split: json.splits)
  with o claim show "dget body ''order_id'' = JStr (cl_order_id claim)"
    by (auto simp: claim_of_body_def res_simps)
  from claim obtain a where a: "dindex body ''amount'' = Inr a" "json_decimal a = Inr (cl_amount claim)"
    by (auto simp: claim_of_body_def res_simps)
  then have am: "dget body ''amount'' = a" by (auto simp: dindex_def dget_def split: option.splits)
  with shape refund obtain f where f: "a = JFloat f" "pf_gt f (Fin (Dec 0 0))"
    by (auto simp: claim_shaped_def has_refund_def split: json.splits)
  with a(2) have fin: "f = Fin (cl_amount claim)"
    by (auto simp: json_decimal_def dec_of_float_def split: pyfloat.splits)
  with am f show "dget body ''amount'' = JFloat (Fin (cl_amount claim))" by simp
  from f(2) fin have "dec_less (Dec 0 0) (cl_amount claim)" by (auto simp: pf_gt_def pf_ge_def dec_le_iff dec_less_iff)
  then have "0 < dec_val (cl_amount claim)" by (simp add: dec_less_iff dec_val_def)
  then show "0 \<le> cents_of (cl_amount claim)"
    using less_not_sym [OF zero_less_power_int [of "10 :: rat" "expo (cl_amount claim)"]]
    by (intro cents_of_nonneg) (auto simp: dec_val_def zero_less_mult_iff)
  show "py_or (dget body ''currency'') (JStr (currency_value USD)) = JStr (cl_currency claim)"
    using shape claim
    by (auto simp: claim_shaped_def claim_of_body_def py_or_def res_simps split: json.splits if_splits)
  show "cl_request_id claim = rid"
    using claim rid by (auto simp: claim_of_body_def res_simps dindex_def dget_def split: option.splits)
qed

text \<open>No order's refunds exceed its amount.\<close>

definition within_orders :: "order_row table \<Rightarrow> refund_row table \<Rightarrow> bool" where
  "within_orders ords refs \<longleftrightarrow> list_all (\<lambda>ord. refunded_on (or_order_id ord) refs \<le> or_amount ord) (tb_rows ords)"

lemma find_order_in: "orders_inv ords \<Longrightarrow> ord \<in> set (tb_rows ords) \<Longrightarrow> find_order (or_order_id ord) ords = Some ord"
  unfolding find_order_def by (rule lookup_key_in) auto

lemma within_orders_step:
  assumes "orders_inv ords" "within_orders ords refs" "evidence_ok S claim ords refs"
    and "at_most_once (cl_request_id claim) (cl_order_id claim) (cents_of (cl_amount claim)) cur refs refs'"
    and "0 \<le> cents_of (cl_amount claim)"
  shows "within_orders ords refs'"
  unfolding within_orders_def list_all_iff
proof
  fix ord assume "ord \<in> set (tb_rows ords)"
  with assms(2) show "refunded_on (or_order_id ord) refs' \<le> or_amount ord"
    by (intro evidence_ok_within [OF assms(3) find_order_in [OF assms(1)] assms(4,5)])
      (auto simp: within_orders_def list_all_iff)
qed

context evidence_endpoint
begin

lemma decide_claim_within:
  assumes inv: "inv s" and run: "decide_claim call env rid body s = (vd, s')"
    and shape: "claim_shaped body" and rid: "dget body ''request_id'' = JStr rid"
    and within: "within_orders (orders s) (ledger s)"
  shows "within_orders (orders s') (ledger s')"
  using decide_claim_tables [OF inv run]
proof
  assume "same_tables inv ledger orders s s'"
  with inv within show ?thesis by (simp add: same_tables_def)
next
  assume "may_refund env rid body (orders s) (ledger s) \<and> has_refund body \<and>
    (\<exists>u r ds. same_tables inv ledger orders s u \<and>
       execute_refund_via_mcp call (ce_policy env) rid (dget body ''order_id'') (dget body ''amount'')
         (py_or (dget body ''currency'') (JStr (currency_value USD))) u = (r, ds, s'))"
  then obtain u r ds oid user claim where
      u: "inv u" "ledger u = ledger s" "orders u = orders s"
    and x: "execute_refund_via_mcp call (ce_policy env) rid (dget body ''order_id'') (dget body ''amount'')
         (py_or (dget body ''currency'') (JStr (currency_value USD))) u = (r, ds, s')"
    and c: "has_refund body" "dindex body ''order_id'' = Inr oid" "claim_of_body body (py_str oid) user = Inr claim"
    and ok: "evidence_ok (ce_settings env) claim (orders s) (ledger s)"
    using inv by (auto simp: same_tables_def may_refund_def)
  note f = claim_of_shaped [OF shape c rid]
  from retry_refund_effect [OF u(1) x [unfolded f]]
  have once: "at_most_once (cl_request_id claim) (cl_order_id claim) (cents_of (cl_amount claim)) (cl_currency claim)
      (ledger s) (ledger s')" using u f(5) by simp
  have "orders_inv (orders s)" using tables_inv [OF inv] by simp
  from within_orders_step [OF this within ok once f(3)] decide_claim_inv [OF inv run] show ?thesis by simp
qed

lemma process_message_tables:
  assumes inv: "inv s" and run: "process_message call env now1 now2 wire txns s = (how, txns', s')"
  shows "inv s' \<and> orders s' = orders s"
  using run
proof (cases rule: process_message_cases)
  case idle
  with inv show ?thesis by simp
next
  case (claimed body rid vd)
  from decide_claim_inv [OF inv claimed(5)] show ?thesis by simp
qed

lemma process_message_within:
  assumes inv: "inv s" and run: "process_message call env now1 now2 wire txns s = (how, txns', s')"
    and shape: "\<And>body. wire = Some (JObj body) \<Longrightarrow> claim_shaped body"
    and within: "within_orders (orders s) (ledger s)"
  shows "within_orders (orders s') (ledger s')"
  using run
proof (cases rule: process_message_cases)
  case idle
  with within show ?thesis by simp
next
  case (claimed body rid vd)
  from decide_claim_within [OF inv claimed(5) shape [OF claimed(1)] claimed(2) within] show ?thesis .
qed

end

section \<open>A run of messages\<close>

record inbox_entry =
  ib_env :: claim_env
  ib_now1 :: time
  ib_now2 :: time
  ib_wire :: "json option"

text \<open>One worker, the messages one after the other.\<close>

fun process_messages ::
  "'s session \<Rightarrow> inbox_entry list \<Rightarrow> txn_table \<Rightarrow> 's \<Rightarrow> settlement list \<times> txn_table \<times> 's" where
  "process_messages call [] txns s = ([], txns, s)"
| "process_messages call (m # ms) txns s =
     (let (how, txns1, s1) = process_message call (ib_env m) (ib_now1 m) (ib_now2 m) (ib_wire m) txns s;
          (hows, txns2, s2) = process_messages call ms txns1 s1
      in (how # hows, txns2, s2))"

definition shaped_entry :: "inbox_entry \<Rightarrow> bool" where
  "shaped_entry m = (case ib_wire m of Some (JObj body) \<Rightarrow> claim_shaped body | _ \<Rightarrow> True)"

lemma shaped_entryD: "shaped_entry m \<Longrightarrow> ib_wire m = Some (JObj body) \<Longrightarrow> claim_shaped body"
  by (simp add: shaped_entry_def)

context evidence_endpoint
begin

lemma process_message_keeps:
  assumes "inv s" "process_message call env now1 now2 wire txns s = (how, txns', s')"
    and "find_refund k (ledger s) = Some r"
  shows "find_refund k (ledger s') = Some r"
  using assms(2)
proof (cases rule: process_message_cases)
  case idle
  with assms(3) show ?thesis by simp
next
  case (claimed body rid vd)
  from decide_claim_inv [OF assms(1) claimed(5)] assms(3) show ?thesis by (blast intro: refund_for_keeps)
qed

lemma process_messages_tables:
  assumes "inv s" "within_orders (orders s) (ledger s)" "list_all shaped_entry ms"
    and "process_messages call ms txns s = (hows, txns', s')"
  shows "inv s' \<and> orders s' = orders s \<and> within_orders (orders s') (ledger s') \<and>
    (\<forall>k r. find_refund k (ledger s) = Some r \<longrightarrow> find_refund k (ledger s') = Some r)"
  using assms
proof (induction ms arbitrary: txns s hows)
  case (Cons m ms)
  obtain how txns1 s1 where m: "process_message call (ib_env m) (ib_now1 m) (ib_now2 m) (ib_wire m) txns s = (how, txns1, s1)"
    by (metis prod_cases3)
  obtain hs where ms: "process_messages call ms txns1 s1 = (hs, txns', s')"
    using Cons.prems(4) m by (auto split: prod.splits)
  have "within_orders (orders s1) (ledger s1)"
    using Cons.prems(3) by (intro process_message_within [OF Cons.prems(1) m _ Cons.prems(2)]) (auto dest: shaped_entryD)
  note ih = Cons.IH [OF _ this _ ms]
  from process_message_tables [OF Cons.prems(1) m] process_message_keeps [OF Cons.prems(1) m] ih Cons.prems(3)
  show ?case by auto
qed simp

end

section \<open>A worked claim\<close>

definition worker_cfg :: mw_config where
  "worker_cfg = \<lparr>mw_sha256 = (\<lambda>t. ''h('' @ t @ '')''),
     mw_registry = [\<lparr>client_id = ''worker'', token_hash = ''h(secret)'',
       allowed_tools = [''execute_refund'', ''get_order'', ''get_refund_history'']\<rparr>],
     mw_rate_limit_per_min = 30, mw_pydantic = lax_mode, mw_refund_max = REFUND_MAX_AMOUNT default_settings\<rparr>"

definition worker_call :: "endpoint session" where
  "worker_call = boundary_call (worker_cfg\<lparr>mw_pydantic := lax_mode\<rparr>) ''secret''"

text \<open>The default settings: every role is played by the mock model.\<close>

definition demo_claim_env :: claim_env where
  "demo_claim_env = \<lparr>ce_settings = default_settings, ce_pydantic = lax_mode,
     ce_llm = \<lparr>lw_packages = \<lparr>pk_genai = False, pk_openai = False, pk_aws = False, pk_groq = False\<rparr>,
       lw_reply = (\<lambda>_. raise_exn ''RuntimeError'')\<rparr>,
     ce_retrieve = (\<lambda>_. Inr None), ce_claim_db = True, ce_read_db = True, ce_final_db = True\<rparr>"

lemma demo_reads [simp]: "end_reads demo_claim_env = Inr ()"
  by (simp add: end_reads_def demo_claim_env_def)

definition demo_body :: dict where
  "demo_body = [(''user_id'', JStr ''user-1''), (''claim_text'', JStr ''''), (''request_id'', JStr ''q''),
     (''order_id'', JStr ''ord-1''), (''amount'', JFloat (Fin (Dec 545 (- 1)))), (''currency'', JStr ''USD'')]"

definition worker_world :: endpoint where
  "worker_world = \<lparr>ep_db = demo_db, ep_schedule = map (\<lambda>n. Delivered (sample_env (int n))) [0 ..< 9]\<rparr>"

definition demo_ec :: evidence_check where
  "demo_ec = \<lparr>ec_order_id = ''ord-1'', ec_failures = [],
     ec_order = Some [(''order_id'', JStr ''ord-1''), (''user_id'', JStr ''user-1''),
       (''amount'', JFloat (Fin (Dec 1000 (- 1)))), (''currency'', JStr ''USD''),
       (''created_at'', JStr ''1970-01-01T00:00:00+00:00'')],
     ec_already_refunded = Some (Dec 0 (- 2)), ec_amount_usd = Some (Dec 5450 (- 2))\<rparr>"

definition demo_read :: "(string + evidence_check) res \<times> endpoint" where
  "demo_read = verify_claim_evidence worker_call (ce_policy demo_claim_env) default_settings demo_body worker_world"

definition demo_paid :: "(string + dict) \<times> rat list \<times> endpoint" where
  "demo_paid = execute_refund_via_mcp worker_call (ce_policy demo_claim_env) ''q'' (JStr ''ord-1'')
     (JFloat (Fin (Dec 545 (- 1)))) (JStr ''USD'') (snd demo_read)"

lemma demo_read_runs: "fst demo_read = Inr (Inr demo_ec)"
  by code_simp

lemma demo_paid_runs:
  "(case fst demo_paid of Inl e \<Rightarrow> False | Inr res \<Rightarrow> dget res ''status'' = JStr ''executed'') \<and>
   map (\<lambda>r. (rf_request_id r, rf_amount r)) (tb_rows (ep_ledger (snd (snd demo_paid)))) = [(''q'', 5450)]"
  by code_simp

lemma mock_verdict_parses:
  "(case parse_verdict (JStr mock_verdict) of Inl e \<Rightarrow> False | Inr d \<Rightarrow> dget d ''verdict'' = JStr ''APPROVE'')"
  by code_simp

lemma mock_judges: "provider_for_role default_settings Judge1 = ''mock''" "provider_for_role default_settings Judge2 = ''mock''"
  "resolve_provider default_settings (Some ''mock'') = ''mock''" "resolve_provider default_settings None = ''mock''"
  by code_simp+

lemma mock_approves:
  "dget (evaluate_decision default_settings w action args ctx) ''verdict'' = JStr ''APPROVE''"
proof -
  have "dget (run_single_judge default_settings w ''mock'' ms None) ''verdict'' = JStr ''APPROVE''" for ms
    using mock_verdict_parses
    by (auto simp: run_single_judge_def invoke_judge_def get_llm_def mock_judges ainvoke_def bindR_def split: sum.splits)
  then show ?thesis by (simp add: evaluate_decision_def Let_def mock_judges)
qed

lemma demo_checked:
  "\<exists>trail summary. checked demo_ec = Inr \<lparr>eo_trail = Some trail, eo_failure = None, eo_summary = Some summary\<rparr>"
proof -
  have m: "money (JFloat (Fin (Dec 1000 (- 1)))) = Inr (Dec 10000 (- 2))" by code_simp
  show ?thesis
    by (simp add: checked_def to_trail_def summary_for_judges_def passed_def demo_ec_def order_of_def dindex_def m Let_def)
qed

lemma demo_body_get [simp]:
  "dget demo_body ''request_id'' = JStr ''q''" "dget demo_body ''order_id'' = JStr ''ord-1''"
  "dget demo_body ''amount'' = JFloat (Fin (Dec 545 (- 1)))" "dget demo_body ''currency'' = JStr ''USD''"
  "dget_or demo_body ''claim_text'' v = JStr ''''"
  by (simp_all add: demo_body_def dget_def dget_or_def)

lemma demo_decided:
  "\<exists>trail. decide_claim worker_call demo_claim_env ''q'' demo_body worker_world =
     (Inr \<lparr>vd_status = ''COMPLETED'', vd_trail = trail\<rparr>, snd (snd demo_paid))"
proof -
  obtain t u where c: "checked demo_ec = Inr \<lparr>eo_trail = Some t, eo_failure = None, eo_summary = Some u\<rparr>"
    using demo_checked by blast
  obtain s1 where r: "verify_claim_evidence worker_call (ce_policy demo_claim_env) default_settings demo_body worker_world =
      (Inr (Inr demo_ec), s1)" "snd demo_read = s1"
    using demo_read_runs unfolding demo_read_def by (metis prod.collapse)
  obtain res ds s2 where x: "execute_refund_via_mcp worker_call (ce_policy demo_claim_env) ''q'' (JStr ''ord-1'')
      (JFloat (Fin (Dec 545 (- 1)))) (JStr ''USD'') s1 = (Inr res, ds, s2)" "snd (snd demo_paid) = s2"
    using demo_paid_runs unfolding demo_paid_def r(2)
    by (auto split: sum.splits) (metis prod.collapse)
  have e: "ce_settings demo_claim_env = default_settings" by (simp add: demo_claim_env_def)
  show ?thesis
    by (simp add: decide_claim_def guard_claim_def first_proposal_def claim_text_def not_a_refund_def evidence_step_def
        has_refund_def e r(1) c judge_step_def Let_def mock_approves get_llm_def mock_judges execute_step_def approved_def
        py_or_def x)
qed

lemma demo_processed:
  "\<exists>row. process_message worker_call demo_claim_env 0 9 (Some (JObj demo_body)) Map.empty worker_world =
     (Acked, [''q'' \<mapsto> row], snd (snd demo_paid)) \<and> tx_status row = ''COMPLETED''"
proof -
  obtain trail where "decide_claim worker_call demo_claim_env ''q'' demo_body worker_world =
      (Inr \<lparr>vd_status = ''COMPLETED'', vd_trail = trail\<rparr>, snd (snd demo_paid))"
    using demo_decided by blast
  moreover have "ce_claim_db demo_claim_env" "ce_final_db demo_claim_env" by (simp_all add: demo_claim_env_def)
  ultimately show ?thesis
    by (simp add: process_message_def insert_claim_def finish_claim_def write_final_def)
      (intro exI conjI, rule refl, simp)
qed

lemma worker_world_inv: "ep_inv worker_world \<and> within_orders (ep_orders worker_world) (ep_ledger worker_world)"
  by (simp add: ep_inv_def worker_world_def demo_db_def db_inv_def orders_inv_def keyed_def sample_orders_def
      ledger_inv_def sample_ledger_def max_numeric_def within_orders_def ep_orders_def ep_ledger_def refunded_on_def)

section \<open>The outcome of a claim\<close>

definition OUTCOMES :: "(string \<times> settlement) list" where
  "OUTCOMES =
     [(''COMPLETED'', Acked), (''EXECUTION_FAILED'', Nacked False), (''PENDING_HUMAN_REVIEW'', Acked),
      (''NEEDS_CLARIFICATION'', Acked), (''BLOCKED_MALICIOUS_PROMPT'', Acked), (''PROCESSING'', Nacked False)]"

lemma finish_claim_cases:
  assumes "finish_claim db_up now rid vd (txns(rid \<mapsto> row0)) = (how, txns')"
  obtains (stuck) "how = Nacked False" "txns' = txns(rid \<mapsto> row0)"
  | (written) v where "vd = Inr v" "how = (if vd_status v = ''EXECUTION_FAILED'' then Nacked False else Acked)"
      "txns' = txns(rid \<mapsto> row0\<lparr>tx_status := vd_status v, tx_judge_trail := vd_trail v, tx_updated_at := now\<rparr>)"
  using assms that
  by (auto simp: finish_claim_def write_final_def bindR_def split: sum.splits if_splits)

lemma review_status_cases: "review_status p \<in> {''NEEDS_CLARIFICATION'', ''PENDING_HUMAN_REVIEW''}"
  by (auto simp: review_status_def split: option.splits)

lemma judge_trail_execution:
  "judge_trail guard proposal ev jg (Some d) = Some t \<Longrightarrow> dget t ''execution'' = JObj d"
  by (auto simp: judge_trail_def add_entry_def)

lemma judge_trail_some: "\<exists>t. judge_trail guard proposal ev jg (Some d) = Some t"
  by (simp add: judge_trail_def add_entry_def)

context evidence_endpoint
begin

lemma decide_claim_outcome:
  assumes inv: "inv s" and run: "decide_claim call env rid body s = (Inr v, s')"
  shows "(vd_status v, if vd_status v = ''EXECUTION_FAILED'' then Nacked False else Acked) \<in> set OUTCOMES"
    and "vd_status v = ''COMPLETED'' \<Longrightarrow> \<exists>row c t. find_refund rid (ledger s') = Some row \<and>
      vd_trail v = Some t \<and> dget t ''execution'' = JObj (refund_result row c)"
proof -
  have "(vd_status v, if vd_status v = ''EXECUTION_FAILED'' then Nacked False else Acked) \<in> set OUTCOMES \<and>
    (vd_status v = ''COMPLETED'' \<longrightarrow> (\<exists>row c t. find_refund rid (ledger s') = Some row \<and>
      vd_trail v = Some t \<and> dget t ''execution'' = JObj (refund_result row c)))"
    using run
  proof (cases rule: decide_claim_cases)
    case pure
    then show ?thesis by (simp add: OUTCOMES_def)
  next
    case (evidence proposal ev)
    then show ?thesis by simp
  next
    case (judged proposal ev s1 jg status execution)
    have inv1: "inv s1" using evidence_step_frame [OF judged(3)] inv by (simp add: same_tables_def)
    from judged(5) show ?thesis
    proof (cases rule: execute_step_cases)
      case review
      with judged(6) review_status_cases [of "deciding_proposal (not_a_refund proposal) jg"] show ?thesis
        by (auto simp: OUTCOMES_def)
    next
      case (refund r ds)
      show ?thesis
      proof (cases r)
        case (Inl e)
        with refund judged(6) show ?thesis by (simp add: OUTCOMES_def)
      next
        case (Inr res)
        with refund have r: "status = ''COMPLETED''" "execution = Some res" by auto
        from retry_refund_answer [OF inv1 _ refund(3) [unfolded Inr execute_refund_via_mcp_def], of rid]
        obtain row c where "find_refund rid (ledger s') = Some row" "res = refund_result row c"
          by (auto simp: refund_arguments_def dget_def)
        with r judged(6) judge_trail_some judge_trail_execution show ?thesis
          by (simp add: OUTCOMES_def) metis
      qed
    qed
  qed
  then show "(vd_status v, if vd_status v = ''EXECUTION_FAILED'' then Nacked False else Acked) \<in> set OUTCOMES"
    "vd_status v = ''COMPLETED'' \<Longrightarrow> \<exists>row c t. find_refund rid (ledger s') = Some row \<and>
      vd_trail v = Some t \<and> dget t ''execution'' = JObj (refund_result row c)"
    by blast+
qed

lemma process_message_outcome:
  assumes inv: "inv s" and run: "process_message call env now1 now2 wire txns s = (how, txns', s')"
    and changed: "txns' \<noteq> txns \<or> s' \<noteq> s"
  shows "\<exists>rid body row. wire = Some (JObj body) \<and> dget body ''request_id'' = JStr rid \<and> txns rid = None \<and>
    txns' = txns(rid \<mapsto> row) \<and> tx_payload row = JObj body \<and> (tx_status row, how) \<in> set OUTCOMES \<and>
    (tx_status row = ''COMPLETED'' \<longrightarrow> (\<exists>r c t. find_refund rid (ledger s') = Some r \<and>
       tx_judge_trail row = Some t \<and> dget t ''execution'' = JObj (refund_result r c)))"
  using run
proof (cases rule: process_message_cases)
  case idle
  with changed show ?thesis by simp
next
  case (claimed body rid vd)
  from claimed(6) show ?thesis
  proof (cases rule: finish_claim_cases)
    case stuck
    with claimed show ?thesis by (intro exI [of _ rid] exI [of _ body]) (auto simp: OUTCOMES_def)
  next
    case (written v)
    note o = decide_claim_outcome [OF inv claimed(5) [unfolded written(1)]]
    show ?thesis
      by (intro exI [of _ rid] exI [of _ body] exI conjI, rule claimed, rule claimed, rule claimed, rule written(3))
        (use o written(2) in auto)
  qed
qed

end

text \<open>Unless it is a claim whose \<open>request_id\<close> is new, a message changes nothing.\<close>

lemma process_message_known:
  assumes "\<not> (\<exists>body rid. wire = Some (JObj body) \<and> dget body ''request_id'' = JStr rid \<and> rid \<noteq> [] \<and> txns rid = None)"
  shows "snd (process_message call env now1 now2 wire txns s) = (txns, s)"
proof -
  obtain how txns' s' where run: "process_message call env now1 now2 wire txns s = (how, txns', s')" by (metis prod_cases3)
  then show ?thesis by (cases rule: process_message_cases) (use assms run in auto)
qed

context evidence_endpoint
begin

lemma decide_claim_refund:
  assumes inv: "inv s" and run: "decide_claim call env rid body s = (vd, s')"
    and rid: "dget body ''request_id'' = JStr rid" and new: "tb_rows (ledger s') \<noteq> tb_rows (ledger s)"
  shows "may_refund env rid body (orders s) (ledger s) \<and> find_refund rid (ledger s) = None \<and>
    (\<exists>r. tb_rows (ledger s') = tb_rows (ledger s) @ [r] \<and> rf_request_id r = rid \<and>
      (claim_shaped body \<longrightarrow> dget body ''order_id'' = JStr (rf_transaction_id r) \<and>
         (\<exists>d. dget body ''amount'' = JFloat (Fin d) \<and> rf_amount r = cents_of d) \<and>
         py_or (dget body ''currency'') (JStr (currency_value USD)) = JStr (rf_currency r)))"
proof -
  from decide_claim_tables [OF inv run] new inv obtain u r ds where
      may: "may_refund env rid body (orders s) (ledger s)" "has_refund body"
    and u: "inv u" "ledger u = ledger s"
    and x: "execute_refund_via_mcp call (ce_policy env) rid (dget body ''order_id'') (dget body ''amount'')
         (py_or (dget body ''currency'') (JStr (currency_value USD))) u = (r, ds, s')"
    by (auto simp: same_tables_def)
  have "refund_for rid (ledger s) (ledger s')"
    using retry_refund_key [OF u(1) _ x [unfolded execute_refund_via_mcp_def], of rid] u(2)
    by (simp add: refund_arguments_def dget_def)
  with new obtain row where row: "find_refund rid (ledger s) = None" "tb_rows (ledger s') = tb_rows (ledger s) @ [row]"
      "rf_request_id row = rid"
    by (auto simp: refund_for_def at_most_once_def)
  have "dget body ''order_id'' = JStr (rf_transaction_id row) \<and>
      (\<exists>d. dget body ''amount'' = JFloat (Fin d) \<and> rf_amount row = cents_of d) \<and>
      py_or (dget body ''currency'') (JStr (currency_value USD)) = JStr (rf_currency row)"
    if shape: "claim_shaped body"
  proof -
    from may obtain oid user claim where c: "dindex body ''order_id'' = Inr oid"
        "claim_of_body body (py_str oid) user = Inr claim"
      by (auto simp: may_refund_def)
    note f = claim_of_shaped [OF shape may(2) c rid]
    from retry_refund_effect [OF u(1) x [unfolded f]] new row(2) u(2)
    show ?thesis using f(4) by (auto simp: at_most_once_def f(1,2) simp del: currency_value.simps)
  qed
  with may row show ?thesis by blast
qed

end

section \<open>Properties\<close>



text \<open>
  C3. Claims handled one after the other never refund more on an order than its amount: from a
  database in which no order is refunded beyond its amount, after any sequence of messages
  whose claims have the gateway's shape, whatever the models answer and the network loses, it
  is still so; the orders are what they were and every refund on file stays on file.
\<close>

theorem orders_never_overrefunded:
  assumes "ep_inv s" and "within_orders (ep_orders s) (ep_ledger s)" and "list_all shaped_entry ms"
    and "process_messages (boundary_call (cfg\<lparr>mw_pydantic := lax_mode\<rparr>) token) ms txns s = (hows, txns', s')"
  shows "(\<forall>ord \<in> set (tb_rows (ep_orders s')). refunded_on (or_order_id ord) (ep_ledger s') \<le> or_amount ord) \<and>
    ep_orders s' = ep_orders s \<and> ep_inv s' \<and>
    (\<forall>k r. find_refund k (ep_ledger s) = Some r \<longrightarrow> find_refund k (ep_ledger s') = Some r)"
  using evidence.process_messages_tables [OF assms] by (simp add: within_orders_def list_all_iff)

definition demo_inbox :: "inbox_entry list" where
  "demo_inbox = [\<lparr>ib_env = demo_claim_env, ib_now1 = 0, ib_now2 = 9, ib_wire = Some (JObj demo_body)\<rparr>,
     \<lparr>ib_env = demo_claim_env, ib_now1 = 10, ib_now2 = 19, ib_wire = Some (JObj demo_body)\<rparr>]"

text \<open>A claim for 54.50 of an order of 100.00, delivered twice.\<close>

theorem orders_never_overrefunded_witness:
  "\<exists>txns s. process_messages worker_call demo_inbox Map.empty worker_world = ([Acked, Acked], txns, s) \<and>
     map (\<lambda>r. (rf_request_id r, rf_amount r)) (tb_rows (ep_ledger s)) = [(''q'', 5450)] \<and>
     (\<forall>ord \<in> set (tb_rows (ep_orders s)). refunded_on (or_order_id ord) (ep_ledger s) \<le> or_amount ord)"
proof -
  obtain row where one: "process_message worker_call demo_claim_env 0 9 (Some (JObj demo_body)) Map.empty worker_world =
      (Acked, [''q'' \<mapsto> row], snd (snd demo_paid))" using demo_processed by blast
  have two: "process_message worker_call demo_claim_env 10 19 (Some (JObj demo_body)) [''q'' \<mapsto> row] s =
      (Acked, [''q'' \<mapsto> row], s)" for s
    by (simp add: process_message_def insert_claim_def demo_claim_env_def)
  have run: "process_messages worker_call demo_inbox Map.empty worker_world = ([Acked, Acked], [''q'' \<mapsto> row], snd (snd demo_paid))"
    by (simp add: demo_inbox_def one two)
  have "list_all shaped_entry demo_inbox"
    by (simp add: demo_inbox_def shaped_entry_def claim_shaped_def pf_gt_def pf_ge_def) code_simp
  from orders_never_overrefunded [OF conjunct1 [OF worker_world_inv] conjunct2 [OF worker_world_inv] this
      run [unfolded worker_call_def]] demo_paid_runs run
  show ?thesis by (intro exI [of _ "[''q'' \<mapsto> row]"] exI [of _ "snd (snd demo_paid)"]) simp
qed

text \<open>
  C9. What a message leaves behind: when it changed anything, it was a claim of a new
  \<open>request_id\<close> and left one transaction row with the message as payload, whose status and the
  message's settlement are one of six pairs; and a COMPLETED row has its refund on file, with
  the tool's result on that refund as the trail's execution entry.
\<close>

theorem claim_outcomes:
  assumes "ep_inv s"
    and "process_message (boundary_call (cfg\<lparr>mw_pydantic := lax_mode\<rparr>) token) env now1 now2 wire txns s = (how, txns', s')"
    and "txns' \<noteq> txns \<or> s' \<noteq> s"
  shows "\<exists>rid body row. wire = Some (JObj body) \<and> dget body ''request_id'' = JStr rid \<and> txns rid = None \<and>
    txns' = txns(rid \<mapsto> row) \<and> tx_payload row = JObj body \<and>
    (tx_status row, how) \<in> set [(''COMPLETED'', Acked), (''EXECUTION_FAILED'', Nacked False),
       (''PENDING_HUMAN_REVIEW'', Acked), (''NEEDS_CLARIFICATION'', Acked), (''BLOCKED_MALICIOUS_PROMPT'', Acked),
       (''PROCESSING'', Nacked False)] \<and>
    (tx_status row = ''COMPLETED'' \<longrightarrow> (\<exists>r c t. find_refund rid (ep_ledger s') = Some r \<and>
       tx_judge_trail row = Some t \<and> dget t ''execution'' = JObj (refund_result r c)))"
  using evidence.process_message_outcome [OF assms] unfolding OUTCOMES_def .

theorem claim_outcomes_witness:
  "\<exists>row r c t. process_message worker_call demo_claim_env 0 9 (Some (JObj demo_body)) Map.empty worker_world =
     (Acked, [''q'' \<mapsto> row], snd (snd demo_paid)) \<and> tx_status row = ''COMPLETED'' \<and>
     find_refund ''q'' (ep_ledger (snd (snd demo_paid))) = Some r \<and> tx_judge_trail row = Some t \<and>
     dget t ''execution'' = JObj (refund_result r c)"
proof -
  obtain row where run: "process_message worker_call demo_claim_env 0 9 (Some (JObj demo_body)) Map.empty worker_world =
      (Acked, [''q'' \<mapsto> row], snd (snd demo_paid))" and fin: "tx_status row = ''COMPLETED''"
    using demo_processed by blast
  obtain rid row' where o: "dget demo_body ''request_id'' = JStr rid" "[''q'' \<mapsto> row] = [rid \<mapsto> row']"
      "tx_status row' = ''COMPLETED'' \<longrightarrow> (\<exists>r c t. find_refund rid (ep_ledger (snd (snd demo_paid))) = Some r \<and>
       tx_judge_trail row' = Some t \<and> dget t ''execution'' = JObj (refund_result r c))"
    using claim_outcomes [OF conjunct1 [OF worker_world_inv] run [unfolded worker_call_def]] by fastforce
  then have rid: "rid = ''q''" by simp
  from map_upd_eqD1 [OF o(2) [unfolded rid]] rid o(3) fin run show ?thesis by blast
qed

text \<open>
  C13. A redelivery changes nothing: once a message was processed with its claim's database
  reachable, the same message processed again, with whatever models, clocks and world, leaves
  transactions and world alone; and while the database is reachable a \<open>request_id\<close> on file is
  acknowledged without calling anything.
\<close>

theorem redelivery_absorbed:
  assumes "process_message call env now1 now2 wire txns s = (how, txns', s')" and "ce_claim_db env"
  shows "snd (process_message call' env' now1' now2' wire txns' u) = (txns', u) \<and>
    (\<forall>rid body. wire = Some (JObj body) \<and> dget body ''request_id'' = JStr rid \<and> rid \<noteq> [] \<and> ce_claim_db env' \<longrightarrow>
       process_message call' env' now1' now2' wire txns' u = (Acked, txns', u))"
proof (cases "\<exists>body rid. wire = Some (JObj body) \<and> dget body ''request_id'' = JStr rid \<and> rid \<noteq> [] \<and> txns rid = None")
  case True
  then obtain body rid where b: "wire = Some (JObj body)" "dget body ''request_id'' = JStr rid" "rid \<noteq> []" "txns rid = None"
    by blast
  with assms have "txns' rid \<noteq> None"
    by (auto simp: process_message_def insert_claim_def case_prod_beta Let_def prod_eq_iff finish_claim_def
        write_final_def bindR_def split: sum.splits if_splits)
  with b show ?thesis by (auto simp: process_message_def insert_claim_def)
next
  case False
  then have same: "txns' = txns" using assms(1) by (metis process_message_known snd_conv prod.inject)
  show ?thesis unfolding same
    using False process_message_known [OF False, of call' env' now1' now2' u]
    by (auto simp: process_message_def insert_claim_def)
qed

theorem redelivery_absorbed_witness:
  "\<exists>row. process_message worker_call demo_claim_env 0 9 (Some (JObj demo_body)) Map.empty worker_world =
       (Acked, [''q'' \<mapsto> row], snd (snd demo_paid)) \<and>
     process_message worker_call demo_claim_env 10 19 (Some (JObj demo_body)) [''q'' \<mapsto> row] (snd (snd demo_paid)) =
       (Acked, [''q'' \<mapsto> row], snd (snd demo_paid))"
proof -
  obtain row where run: "process_message worker_call demo_claim_env 0 9 (Some (JObj demo_body)) Map.empty worker_world =
      (Acked, [''q'' \<mapsto> row], snd (snd demo_paid))" using demo_processed by blast
  have "ce_claim_db demo_claim_env" by (simp add: demo_claim_env_def)
  from redelivery_absorbed [OF run this, of worker_call demo_claim_env 10 19 "snd (snd demo_paid)"] run this show ?thesis
    by (intro exI [of _ row]) simp
qed

end
