(* ===== verification/Sweeper.thy ===== *)
theory Sweeper
  imports Worker
begin

text \<open>
  The recovery sweeper (\<open>src/worker/recovery_sweeper.py\<close>): rows that stayed in PROCESSING longer
  than the threshold are deleted and their claims published again, in one database transaction.
  A publication takes effect at once, a deletion only with the commit. Which rows are locked,
  which publications go through and whether the commit does are arguments.
\<close>

section \<open>run_sweep\<close>

definition is_stale :: "settings \<Rightarrow> time \<Rightarrow> transaction_row \<Rightarrow> bool" where
  "is_stale S now row \<longleftrightarrow>
     tx_status row = ''PROCESSING'' \<and> tx_updated_at row < now - seconds (SWEEPER_STALE_THRESHOLD_SECONDS S)"

record sweep_env =
  sw_now :: time
  sw_locked :: "string \<Rightarrow> bool"
  sw_publish :: "nat \<Rightarrow> bool"
  sw_commit :: bool

definition is_zombie :: "settings \<Rightarrow> sweep_env \<Rightarrow> transaction_row \<Rightarrow> bool" where
  "is_zombie S env row \<longleftrightarrow> is_stale S (sw_now env) row \<and> \<not> sw_locked env (tx_request_id row)"

text \<open>The messages published one by one, up to the first that fails, and whether none did.\<close>

fun publish_all :: "(nat \<Rightarrow> bool) \<Rightarrow> nat \<Rightarrow> transaction_row list \<Rightarrow> json list \<times> bool" where
  "publish_all up n [] = ([], True)"
| "publish_all up n (row # rows) =
     (if up n then (let (sent, ok) = publish_all up (Suc n) rows in (tx_payload row # sent, ok)) else ([], False))"

text \<open>What was published, and the table after the transaction.\<close>

definition run_sweep :: "settings \<Rightarrow> sweep_env \<Rightarrow> transaction_row list \<Rightarrow> json list \<times> transaction_row list" where
  "run_sweep S env rows =
     (let zombie_rows = filter (is_zombie S env) rows
      in if zombie_rows = [] then ([], rows)
         else let (sent, ok) = publish_all (sw_publish env) 0 zombie_rows
              in (sent, if ok \<and> sw_commit env then filter (\<lambda>r. \<not> is_zombie S env r) rows else rows))"

text \<open>\<open>start_sweeper\<close>: one iteration after the other; one that fails changes nothing but the queue.\<close>

fun sweeps :: "settings \<Rightarrow> sweep_env list \<Rightarrow> transaction_row list \<Rightarrow> json list \<times> transaction_row list" where
  "sweeps S [] rows = ([], rows)"
| "sweeps S (env # envs) rows =
     (let (sent, rows1) = run_sweep S env rows; (sent', rows2) = sweeps S envs rows1 in (sent @ sent', rows2))"

section \<open>Lemmas\<close>

lemma publish_all_prefix:
  "publish_all up n rows = (sent, ok) \<Longrightarrow>
   sent = map tx_payload (take (length sent) rows) \<and> (ok \<longrightarrow> length sent = length rows)"
  by (induction rows arbitrary: n sent) (auto split: if_splits prod.splits)

lemma run_sweep_cases:
  assumes "run_sweep S env rows = (sent, rows')"
  obtains (kept) "rows' = rows" "\<exists>k. sent = map tx_payload (take k (filter (is_zombie S env) rows))"
  | (swept) "rows' = filter (\<lambda>r. \<not> is_zombie S env r) rows"
      "sent = map tx_payload (filter (is_zombie S env) rows)"
proof -
  obtain s ok where p: "publish_all (sw_publish env) 0 (filter (is_zombie S env) rows) = (s, ok)"
    by (metis prod.collapse)
  note q = publish_all_prefix [OF p]
  show thesis
  proof (cases "filter (is_zombie S env) rows \<noteq> [] \<and> ok \<and> sw_commit env")
    case True
    with assms p q show thesis by (intro swept) (auto simp: run_sweep_def)
  next
    case False
    with assms p q show thesis
      by (intro kept) (auto simp: run_sweep_def Let_def split: if_splits intro: exI [of _ 0])
  qed
qed

lemma sweep_subset: "run_sweep S env rows = (sent, rows') \<Longrightarrow> set rows' \<subseteq> set rows"
  by (auto elim!: run_sweep_cases)

lemma sweeps_keep:
  "sweeps S envs rows = (sent, rows') \<Longrightarrow> r \<in> set rows \<Longrightarrow> r \<in> set rows' \<or> tx_payload r \<in> set sent"
proof (induction envs arbitrary: rows sent)
  case (Cons env envs)
  obtain s1 r1 s2 where s: "run_sweep S env rows = (s1, r1)" "sweeps S envs r1 = (s2, rows')" "sent = s1 @ s2"
    using Cons.prems(1) by (auto split: prod.splits)
  from s(1) have "r \<in> set r1 \<or> tx_payload r \<in> set s1"
    using Cons.prems(2) by (cases rule: run_sweep_cases) auto
  with Cons.IH [OF s(2)] s(3) show ?case by auto
qed simp

lemma sweeps_terminal:
  "sweeps S envs rows = (sent, rows') \<Longrightarrow>
   filter (\<lambda>r. tx_status r \<noteq> ''PROCESSING'') rows' = filter (\<lambda>r. tx_status r \<noteq> ''PROCESSING'') rows"
proof (induction envs arbitrary: rows sent)
  case (Cons env envs)
  obtain s1 r1 s2 where s: "run_sweep S env rows = (s1, r1)" "sweeps S envs r1 = (s2, rows')"
    using Cons.prems(1) by (auto split: prod.splits)
  from s(1) have "filter (\<lambda>r. tx_status r \<noteq> ''PROCESSING'') r1 = filter (\<lambda>r. tx_status r \<noteq> ''PROCESSING'') rows"
    by (cases rule: run_sweep_cases) (auto intro: filter_cong simp: is_zombie_def is_stale_def)
  with Cons.IH [OF s(2)] show ?case by simp
qed simp

section \<open>Properties\<close>

text \<open>
  C19. Sweeping loses no claim and touches no decision: after any number of sweeps, whatever
  fails in them, a row is still there or its claim was published again; rows that are not in
  PROCESSING are exactly those of before, in their order; only payloads of stale rows were
  published; and a sweep in which nothing fails leaves no stale row that is not locked.
\<close>

theorem sweeper_loses_nothing:
  "(\<forall>r \<in> set rows. r \<in> set (snd (sweeps S envs rows)) \<or> tx_payload r \<in> set (fst (sweeps S envs rows))) \<and>
   filter (\<lambda>r. tx_status r \<noteq> ''PROCESSING'') (snd (sweeps S envs rows)) =
     filter (\<lambda>r. tx_status r \<noteq> ''PROCESSING'') rows \<and>
   set (fst (run_sweep S env rows)) \<subseteq> tx_payload ` {r \<in> set rows. is_stale S (sw_now env) r} \<and>
   ((\<forall>n. sw_publish env n) \<and> sw_commit env \<longrightarrow>
      (\<forall>r \<in> set (snd (run_sweep S env rows)). is_stale S (sw_now env) r \<longrightarrow> sw_locked env (tx_request_id r)))"
proof (intro conjI impI)
  show "\<forall>r \<in> set rows. r \<in> set (snd (sweeps S envs rows)) \<or> tx_payload r \<in> set (fst (sweeps S envs rows))"
    using sweeps_keep [of S envs rows "fst (sweeps S envs rows)" "snd (sweeps S envs rows)"] by simp
  show "filter (\<lambda>r. tx_status r \<noteq> ''PROCESSING'') (snd (sweeps S envs rows)) =
      filter (\<lambda>r. tx_status r \<noteq> ''PROCESSING'') rows"
    by (rule sweeps_terminal) (rule prod.collapse [symmetric])
  obtain sent rows' where run: "run_sweep S env rows = (sent, rows')" by (metis prod.collapse)
  then have "set sent \<subseteq> tx_payload ` {r \<in> set rows. is_stale S (sw_now env) r}"
    by (cases rule: run_sweep_cases) (auto simp: is_zombie_def dest!: in_set_takeD)
  with run show "set (fst (run_sweep S env rows)) \<subseteq> tx_payload ` {r \<in> set rows. is_stale S (sw_now env) r}" by simp
  assume up: "(\<forall>n. sw_publish env n) \<and> sw_commit env"
  have "publish_all (sw_publish env) n rs = (map tx_payload rs, True)" for n rs
    using up by (induction rs arbitrary: n) auto
  then show "\<forall>r \<in> set (snd (run_sweep S env rows)). is_stale S (sw_now env) r \<longrightarrow> sw_locked env (tx_request_id r)"
    using up by (auto simp: run_sweep_def Let_def is_zombie_def filter_empty_conv)
qed

definition stuck_row :: "string \<Rightarrow> time \<Rightarrow> transaction_row" where
  "stuck_row rid t = \<lparr>tx_request_id = rid, tx_payload = JObj [(''request_id'', JStr rid)], tx_status = ''PROCESSING'',
     tx_created_at = t, tx_updated_at = t, tx_judge_trail = None\<rparr>"

definition sound_sweep :: sweep_env where
  "sound_sweep = \<lparr>sw_now = seconds 1000, sw_locked = (\<lambda>r. r = ''c''), sw_publish = (\<lambda>_. True), sw_commit = True\<rparr>"

theorem sweeper_loses_nothing_witness:
  "filter (\<lambda>r. is_stale default_settings (seconds 1000) r \<and> \<not> sw_locked sound_sweep (tx_request_id r))
     (snd (run_sweep default_settings sound_sweep [stuck_row ''a'' 0, stuck_row ''b'' (seconds 999), stuck_row ''c'' 0])) = [] \<and>
   fst (run_sweep default_settings sound_sweep [stuck_row ''a'' 0, stuck_row ''b'' (seconds 999), stuck_row ''c'' 0]) =
     [JObj [(''request_id'', JStr ''a'')]]"
proof
  show "fst (run_sweep default_settings sound_sweep [stuck_row ''a'' 0, stuck_row ''b'' (seconds 999), stuck_row ''c'' 0]) =
     [JObj [(''request_id'', JStr ''a'')]]"
    by code_simp
  have "\<forall>r \<in> set (snd (run_sweep default_settings sound_sweep [stuck_row ''a'' 0, stuck_row ''b'' (seconds 999), stuck_row ''c'' 0])).
      is_stale default_settings (seconds 1000) r \<longrightarrow> sw_locked sound_sweep (tx_request_id r)"
    using sweeper_loses_nothing [where env = sound_sweep and S = default_settings
        and rows = "[stuck_row ''a'' 0, stuck_row ''b'' (seconds 999), stuck_row ''c'' 0]"]
    by (simp add: sound_sweep_def)
  then show "filter (\<lambda>r. is_stale default_settings (seconds 1000) r \<and> \<not> sw_locked sound_sweep (tx_request_id r))
     (snd (run_sweep default_settings sound_sweep [stuck_row ''a'' 0, stuck_row ''b'' (seconds 999), stuck_row ''c'' 0])) = []"
    by (simp only: filter_empty_conv de_Morgan_conj not_not imp_conv_disj)
qed

end
