(* ===== verification/System.thy ===== *)
theory System
  imports Sweeper
begin

text \<open>
  The whole pipeline as a step relation: the gateway accepts and publishes, any number of
  workers process messages concurrently, they crash, messages are delivered again, and the
  sweeper runs beside them. A job is a message between its claim and its final write; its
  stages are the pieces of \<open>decide_claim\<close> between two points where other processes get a turn,
  and \<open>advance_decides\<close> shows that running them without interruption is \<open>decide_claim\<close>. The
  world (the refund tool and its database) is shared.
\<close>

section \<open>Jobs\<close>

datatype stage =
    Fresh
  | Evidenced evidence_outcome
  | Judged evidence_outcome judgement
  | Decided verdict

record job =
  jb_env :: claim_env
  jb_rid :: string
  jb_body :: dict
  jb_stage :: stage

text \<open>One stage; \<open>None\<close> when it raised.\<close>

definition advance_stage :: "'s session \<Rightarrow> job \<Rightarrow> 's \<Rightarrow> stage option \<times> 's" where
  "advance_stage call j s =
     (let env = jb_env j; rid = jb_rid j; body = jb_body j
      in case jb_stage j of
           Fresh \<Rightarrow>
             (if (case guard_claim env body of None \<Rightarrow> False | Some g \<Rightarrow> is_injection g)
              then (Some (Decided \<lparr>vd_status = ''BLOCKED_MALICIOUS_PROMPT'',
                vd_trail = add_entry ''prompt_guard'' (map_option guard_trail (guard_claim env body)) None\<rparr>), s)
              else case first_proposal env body of
                     Inl e \<Rightarrow> (None, s)
                   | Inr proposal \<Rightarrow>
                       (case evidence_step call env body (not_a_refund proposal) s of
                          (Inl e, s') \<Rightarrow> (None, s')
                        | (Inr ev, s') \<Rightarrow> (Some (Evidenced ev), s')))
         | Evidenced ev \<Rightarrow>
             (case first_proposal env body of
                Inl e \<Rightarrow> (None, s)
              | Inr proposal \<Rightarrow>
                  (case bindR (get_llm (ce_settings env) (lw_packages (ce_llm env)) None None) (\<lambda>_.
                          judge_step env rid body (not_a_refund proposal) (retrieved_policy env body) ev) of
                     Inl e \<Rightarrow> (None, s)
                   | Inr jg \<Rightarrow> (Some (Judged ev jg), s)))
         | Judged ev jg \<Rightarrow>
             (case first_proposal env body of
                Inl e \<Rightarrow> (None, s)
              | Inr proposal \<Rightarrow>
                  (let ((status, execution), s') = execute_step call env rid body (not_a_refund proposal) jg s
                   in (Some (Decided \<lparr>vd_status = status,
                         vd_trail = judge_trail (guard_claim env body) proposal ev jg execution\<rparr>), s')))
         | Decided v \<Rightarrow> (Some (Decided v), s))"

text \<open>The stages one after the other; four suffice.\<close>

fun run_stages :: "'s session \<Rightarrow> nat \<Rightarrow> job \<Rightarrow> 's \<Rightarrow> stage option \<times> 's" where
  "run_stages call 0 j s = (Some (jb_stage j), s)"
| "run_stages call (Suc n) j s =
     (case advance_stage call j s of
        (None, s') \<Rightarrow> (None, s')
      | (Some st, s') \<Rightarrow> run_stages call n (j\<lparr>jb_stage := st\<rparr>) s')"

lemma advance_decides:
  assumes "jb_stage j = Fresh"
  shows "run_stages call 3 j s =
    (case decide_claim call (jb_env j) (jb_rid j) (jb_body j) s of
       (Inl e, s') \<Rightarrow> (None, s') | (Inr v, s') \<Rightarrow> (Some (Decided v), s'))"
  using assms
  by (auto simp: decide_claim_def advance_stage_def numeral_3_eq_3 Let_def case_prod_beta
      split: sum.splits option.splits prod.splits)

section \<open>Steps\<close>

record 's system =
  sy_accepted :: "dict list" \<comment> \<open>the claims the gateway answered 202 to\<close>
  sy_queue :: "dict list"
  sy_txns :: txn_table
  sy_jobs :: "job list"
  sy_world :: 's

text \<open>
  \<open>outage\<close> says whether the claim's INSERT may fail for want of a database. A settlement that
  does not reach the broker (\<open>redelivered\<close>) puts the message back.
\<close>

inductive step :: "'s session \<Rightarrow> bool \<Rightarrow> 's system \<Rightarrow> 's system \<Rightarrow> bool"
  for call :: "'s session" and outage :: bool where
  accept: "post_claims P S True uuid payload = (reply, Some body) \<Longrightarrow> pydantic_ok P \<Longrightarrow>
    step call outage \<sigma> (\<sigma>\<lparr>sy_accepted := body # sy_accepted \<sigma>, sy_queue := sy_queue \<sigma> @ [body]\<rparr>)"
| claim: "sy_queue \<sigma> = pre @ body # post \<Longrightarrow> truthy (dget body ''request_id'') \<Longrightarrow>
    insert_claim True now (dget body ''request_id'') body (sy_txns \<sigma>) = Claimed txns \<Longrightarrow>
    step call outage \<sigma> (\<sigma>\<lparr>sy_queue := pre @ post, sy_txns := txns,
      sy_jobs := \<lparr>jb_env = env, jb_rid = py_str (dget body ''request_id''), jb_body = body, jb_stage = Fresh\<rparr> # sy_jobs \<sigma>\<rparr>)"
| discard: "sy_queue \<sigma> = pre @ body # post \<Longrightarrow>
    \<not> truthy (dget body ''request_id'') \<or> insert_claim True now (dget body ''request_id'') body (sy_txns \<sigma>) = Duplicate \<Longrightarrow>
    step call outage \<sigma> (\<sigma>\<lparr>sy_queue := pre @ (if redelivered then [body] else []) @ post\<rparr>)"
| drop: "outage \<Longrightarrow> sy_queue \<sigma> = pre @ body # post \<Longrightarrow>
    insert_claim False now (dget body ''request_id'') body (sy_txns \<sigma>) = ClaimError e \<Longrightarrow>
    step call outage \<sigma> (\<sigma>\<lparr>sy_queue := pre @ post\<rparr>)"
| advance: "sy_jobs \<sigma> = pre @ j # post \<Longrightarrow> advance_stage call j (sy_world \<sigma>) = (Some st, w) \<Longrightarrow>
    step call outage \<sigma> (\<sigma>\<lparr>sy_jobs := pre @ j\<lparr>jb_stage := st\<rparr> # post, sy_world := w\<rparr>)"
| abort: "sy_jobs \<sigma> = pre @ j # post \<Longrightarrow> advance_stage call j (sy_world \<sigma>) = (None, w) \<Longrightarrow>
    step call outage \<sigma> (\<sigma>\<lparr>sy_jobs := pre @ post, sy_world := w,
      sy_queue := sy_queue \<sigma> @ (if redelivered then [jb_body j] else [])\<rparr>)"
| finish: "sy_jobs \<sigma> = pre @ j # post \<Longrightarrow> jb_stage j = Decided v \<Longrightarrow>
    finish_claim db_up now (jb_rid j) (Inr v) (sy_txns \<sigma>) = (how, txns) \<Longrightarrow>
    step call outage \<sigma> (\<sigma>\<lparr>sy_jobs := pre @ post, sy_txns := txns,
      sy_queue := sy_queue \<sigma> @ (if redelivered then [jb_body j] else [])\<rparr>)"
| crash: "sy_jobs \<sigma> = pre @ j # post \<Longrightarrow>
    step call outage \<sigma> (\<sigma>\<lparr>sy_jobs := pre @ post, sy_queue := sy_queue \<sigma> @ [jb_body j]\<rparr>)"
| sweep: "sy_txns \<sigma> rid = Some row \<Longrightarrow> run_sweep S env [row] = ([JObj body], rows) \<Longrightarrow>
    step call outage \<sigma> (\<sigma>\<lparr>sy_queue := sy_queue \<sigma> @ [body],
      sy_txns := (if rows = [] then (sy_txns \<sigma>)(rid := None) else sy_txns \<sigma>)\<rparr>)"

inductive reachable :: "'s session \<Rightarrow> bool \<Rightarrow> 's \<Rightarrow> 's system \<Rightarrow> bool"
  for call :: "'s session" and outage :: bool and w0 :: 's where
  start: "reachable call outage w0
    \<lparr>sy_accepted = [], sy_queue = [], sy_txns = Map.empty, sy_jobs = [], sy_world = w0\<rparr>"
| step: "reachable call outage w0 \<sigma> \<Longrightarrow> step call outage \<sigma> \<sigma>' \<Longrightarrow> reachable call outage w0 \<sigma>'"

section \<open>What holds in every reachable state\<close>

text \<open>The gates a claim went through, apart from the tables its evidence was read from.\<close>

definition gates_passed :: "claim_env \<Rightarrow> string \<Rightarrow> dict \<Rightarrow> bool" where
  "gates_passed env rid body \<longleftrightarrow>
     \<not> (case guard_claim env body of None \<Rightarrow> False | Some g \<Rightarrow> is_injection g) \<and>
     (\<exists>p. first_proposal env body = Inr p \<and> not_a_refund p = None) \<and>
     (\<exists>oid user claim. dindex body ''order_id'' = Inr oid \<and> claim_of_body body (py_str oid) user = Inr claim) \<and>
     (\<exists>summary. dget (evaluate_decision (ce_settings env) (ce_llm env) ''execute_refund'' body
        (judge_context rid (retrieved_policy env body) (Some summary))) ''verdict'' = JStr ''APPROVE'')"

text \<open>The refund is the one the claim asked for.\<close>

definition pays :: "dict \<Rightarrow> refund_row \<Rightarrow> bool" where
  "pays body r \<longleftrightarrow>
     dget body ''request_id'' = JStr (rf_request_id r) \<and> dget body ''order_id'' = JStr (rf_transaction_id r) \<and>
     (\<exists>d. dget body ''amount'' = JFloat (Fin d) \<and> rf_amount r = cents_of d) \<and>
     py_or (dget body ''currency'') (JStr (currency_value USD)) = JStr (rf_currency r)"

definition stage_ok :: "refund_row table \<Rightarrow> job \<Rightarrow> bool" where
  "stage_ok refs j =
     (let env = jb_env j; body = jb_body j
      in case jb_stage j of
           Fresh \<Rightarrow> True
         | Evidenced ev \<Rightarrow>
             \<not> (case guard_claim env body of None \<Rightarrow> False | Some g \<Rightarrow> is_injection g) \<and>
             (case first_proposal env body of Inl e \<Rightarrow> True | Inr p \<Rightarrow>
                not_a_refund p = None \<longrightarrow> has_refund body \<longrightarrow> eo_failure ev = None \<longrightarrow>
                (\<exists>oid user claim. dindex body ''order_id'' = Inr oid \<and> claim_of_body body (py_str oid) user = Inr claim) \<and>
                (\<exists>summary. eo_summary ev = Some summary))
         | Judged ev jg \<Rightarrow> approved jg \<longrightarrow> has_refund body \<longrightarrow> gates_passed env (jb_rid j) body
         | Decided v \<Rightarrow> vd_status v = ''COMPLETED'' \<longrightarrow> find_refund (jb_rid j) refs \<noteq> None)"

text \<open>The ledger grew by at most one row, and that row pays a claim that passed the gates.\<close>

definition paid_step :: "dict set \<Rightarrow> refund_row table \<Rightarrow> refund_row table \<Rightarrow> bool" where
  "paid_step accepted t t' \<longleftrightarrow>
     tb_rows t' = tb_rows t \<or>
     (\<exists>r body env. tb_rows t' = tb_rows t @ [r] \<and> find_refund (rf_request_id r) t = None \<and>
        body \<in> accepted \<and> pays body r \<and> gates_passed env (rf_request_id r) body)"

lemma paid_step_keeps: "paid_step A t t' \<Longrightarrow> find_refund k t \<noteq> None \<Longrightarrow> find_refund k t' \<noteq> None"
  unfolding paid_step_def by (elim disjE exE conjE) (auto simp: find_refund_append dest: find_refund_rows [of t' t k] split: option.splits)

context evidence_endpoint
begin

lemma advance_fresh:
  assumes "inv w" "jb_stage j = Fresh" "advance_stage call j w = (r, w')"
  shows "same_tables inv ledger orders w w' \<and> (case r of None \<Rightarrow> True | Some st \<Rightarrow> stage_ok refs (j\<lparr>jb_stage := st\<rparr>))"
proof (cases "case guard_claim (jb_env j) (jb_body j) of None \<Rightarrow> False | Some g \<Rightarrow> is_injection g")
  case True
  with assms show ?thesis by (auto simp: advance_stage_def stage_ok_def)
next
  case ok: False
  show ?thesis
  proof (cases "first_proposal (jb_env j) (jb_body j)")
    case (Inl e)
    with ok assms show ?thesis by (auto simp: advance_stage_def)
  next
    case (Inr p)
    obtain x s' where e: "evidence_step call (jb_env j) (jb_body j) (not_a_refund p) w = (x, s')"
      by (metis prod.collapse)
    with ok Inr assms(2,3) have w: "w' = s'" "r = (case x of Inl e \<Rightarrow> None | Inr ev \<Rightarrow> Some (Evidenced ev))"
      by (auto simp: advance_stage_def split: sum.splits)
    have "stage_ok refs (j\<lparr>jb_stage := Evidenced ev\<rparr>)" if "x = Inr ev" for ev
      using evidence_step_passed [OF assms(1), of "jb_env j" "jb_body j" ev s'] e ok that Inr
      by (auto simp: stage_ok_def Let_def) metis
    with evidence_step_frame [OF e] w show ?thesis by (simp split: sum.splits)
  qed
qed

lemma advance_evidenced:
  assumes "jb_stage j = Evidenced ev" "advance_stage call j w = (r, w')" "stage_ok refs j"
  shows "w' = w \<and> (case r of None \<Rightarrow> True | Some st \<Rightarrow> stage_ok refs (j\<lparr>jb_stage := st\<rparr>))"
proof (cases r)
  case None
  with assms(1,2) show ?thesis by (auto simp: advance_stage_def Let_def split: sum.splits)
next
  case (Some st)
  with assms(1,2) obtain p jg where p: "first_proposal (jb_env j) (jb_body j) = Inr p" "st = Judged ev jg" "w' = w"
      "judge_step (jb_env j) (jb_rid j) (jb_body j) (not_a_refund p) (retrieved_policy (jb_env j) (jb_body j)) ev = Inr jg"
    by (auto simp: advance_stage_def res_simps Let_def split: sum.splits)
  have "gates_passed (jb_env j) (jb_rid j) (jb_body j)" if "approved jg" "has_refund (jb_body j)"
  proof -
    note a = judge_step_approved [OF p(4) that(1)]
    with assms(3) that(2) p(1) assms(1) obtain summary where
        "eo_summary ev = Some summary"
        "\<exists>oid user claim. dindex (jb_body j) ''order_id'' = Inr oid \<and> claim_of_body (jb_body j) (py_str oid) user = Inr claim"
        "\<not> (case guard_claim (jb_env j) (jb_body j) of None \<Rightarrow> False | Some g \<Rightarrow> is_injection g)"
      by (auto simp: stage_ok_def Let_def)
    with a p(1) show ?thesis unfolding gates_passed_def by metis
  qed
  with p Some show ?thesis by (simp add: stage_ok_def)
qed

lemma advance_judged:
  assumes inv: "inv w" and j: "jb_stage j = Judged ev jg" and run: "advance_stage call j w = (r, w')" and ok: "stage_ok refs j"
    and shape: "claim_shaped (jb_body j)" and rid: "dget (jb_body j) ''request_id'' = JStr (jb_rid j)"
    and acc: "jb_body j \<in> A"
  shows "inv w' \<and> orders w' = orders w \<and> paid_step A (ledger w) (ledger w') \<and>
    (case r of None \<Rightarrow> True | Some st \<Rightarrow> stage_ok (ledger w') (j\<lparr>jb_stage := st\<rparr>))"
proof (cases "first_proposal (jb_env j) (jb_body j)")
  case (Inl e)
  with assms show ?thesis by (auto simp: advance_stage_def paid_step_def)
next
  case (Inr p)
  obtain status execution s' where x: "execute_step call (jb_env j) (jb_rid j) (jb_body j) (not_a_refund p) jg w =
      ((status, execution), s')" by (metis prod.collapse)
  with Inr run j obtain trail where r: "r = Some (Decided \<lparr>vd_status = status, vd_trail = trail\<rparr>)" "w' = s'"
    by (auto simp: advance_stage_def)
  from x show ?thesis
  proof (cases rule: execute_step_cases)
    case review
    with r inv review_status_cases [of "deciding_proposal (not_a_refund p) jg"] show ?thesis
      by (auto simp: paid_step_def stage_ok_def)
  next
    case (refund res ds)
    from ok j refund(1,2) have g: "gates_passed (jb_env j) (jb_rid j) (jb_body j)" by (simp add: stage_ok_def)
    then obtain oid user claim where c: "dindex (jb_body j) ''order_id'' = Inr oid"
        "claim_of_body (jb_body j) (py_str oid) user = Inr claim" by (auto simp: gates_passed_def)
    note f = claim_of_shaped [OF shape refund(2) c rid]
    have once: "at_most_once (jb_rid j) (cl_order_id claim) (cents_of (cl_amount claim)) (cl_currency claim) (ledger w) (ledger s')"
      by (rule retry_refund_effect [OF inv refund(3) [unfolded f]])
    have paid: "paid_step A (ledger w) (ledger s')"
    proof (cases "tb_rows (ledger s') = tb_rows (ledger w)")
      case False
      with once obtain row where row: "tb_rows (ledger s') = tb_rows (ledger w) @ [row]" "rf_request_id row = jb_rid j"
          "find_refund (jb_rid j) (ledger w) = None" "rf_transaction_id row = cl_order_id claim"
          "rf_amount row = cents_of (cl_amount claim)" "rf_currency row = cl_currency claim"
        by (auto simp: at_most_once_def)
      have "pays (jb_body j) row" using rid row f by (auto simp: pays_def simp del: currency_value.simps)
      with row g acc show ?thesis unfolding paid_step_def by metis
    qed (simp add: paid_step_def)
    have "find_refund (jb_rid j) (ledger s') \<noteq> None" if "status = ''COMPLETED''"
    proof -
      from that refund(4) obtain d where "res = Inr d" by (auto split: sum.splits)
      from retry_refund_answer [OF inv _ refund(3) [unfolded this execute_refund_via_mcp_def], of "jb_rid j"]
      show ?thesis by (auto simp: refund_arguments_def dget_def)
    qed
    moreover have "inv s'" "orders s' = orders w"
      using retry_inv [OF inv refund(3) [unfolded execute_refund_via_mcp_def]]
        retry_orders [OF refund(3) [unfolded execute_refund_via_mcp_def]] by auto
    ultimately show ?thesis using r paid by (simp add: stage_ok_def)
  qed
qed

lemma advance_safe:
  assumes inv: "inv w" and run: "advance_stage call j w = (r, w')" and ok: "stage_ok (ledger w) j"
    and shape: "claim_shaped (jb_body j)" and rid: "dget (jb_body j) ''request_id'' = JStr (jb_rid j)" and acc: "jb_body j \<in> A"
  shows "inv w' \<and> orders w' = orders w \<and> paid_step A (ledger w) (ledger w') \<and>
    (case r of None \<Rightarrow> True | Some st \<Rightarrow> stage_ok (ledger w') (j\<lparr>jb_stage := st\<rparr>))"
proof (cases "jb_stage j")
  case Fresh
  from advance_fresh [OF inv Fresh run, of "ledger w'"] inv show ?thesis by (simp add: same_tables_def paid_step_def)
next
  case (Evidenced ev)
  from advance_evidenced [OF Evidenced run ok] inv show ?thesis by (auto simp: paid_step_def)
next
  case (Judged ev jg)
  from advance_judged [OF inv Judged run ok shape rid acc] show ?thesis .
next
  case (Decided v)
  with run ok inv show ?thesis by (auto simp: advance_stage_def paid_step_def stage_ok_def)
qed

end

text \<open>The claims in flight and on file are accepted ones, and a COMPLETED row has its refund.\<close>

definition row_ok :: "dict set \<Rightarrow> refund_row table \<Rightarrow> string \<Rightarrow> transaction_row \<Rightarrow> bool" where
  "row_ok accepted refs rid row \<longleftrightarrow>
     tx_request_id row = rid \<and>
     (\<exists>body \<in> accepted. tx_payload row = JObj body \<and> dget body ''request_id'' = JStr rid) \<and>
     (tx_status row = ''COMPLETED'' \<longrightarrow> find_refund rid refs \<noteq> None)"

definition job_ok :: "dict set \<Rightarrow> refund_row table \<Rightarrow> job \<Rightarrow> bool" where
  "job_ok accepted refs j \<longleftrightarrow>
     jb_body j \<in> accepted \<and> dget (jb_body j) ''request_id'' = JStr (jb_rid j) \<and> stage_ok refs j"

definition explained :: "dict set \<Rightarrow> refund_row table \<Rightarrow> refund_row table \<Rightarrow> bool" where
  "explained accepted t0 t \<longleftrightarrow>
     (\<exists>rs. tb_rows t = tb_rows t0 @ rs \<and>
        (\<forall>r \<in> set rs. \<exists>body \<in> accepted. \<exists>env. pays body r \<and> gates_passed env (rf_request_id r) body))"

definition claims_ok :: "dict set \<Rightarrow> bool" where
  "claims_ok accepted \<longleftrightarrow> (\<forall>body \<in> accepted. claim_shaped body \<and> (\<exists>rid. dget body ''request_id'' = JStr rid))"

definition sys_inv :: "('s \<Rightarrow> refund_row table) \<Rightarrow> refund_row table \<Rightarrow> 's system \<Rightarrow> bool" where
  "sys_inv ledger t0 \<sigma> \<longleftrightarrow>
     claims_ok (set (sy_accepted \<sigma>)) \<and> set (sy_queue \<sigma>) \<subseteq> set (sy_accepted \<sigma>) \<and>
     (\<forall>j \<in> set (sy_jobs \<sigma>). job_ok (set (sy_accepted \<sigma>)) (ledger (sy_world \<sigma>)) j) \<and>
     (\<forall>rid row. sy_txns \<sigma> rid = Some row \<longrightarrow> row_ok (set (sy_accepted \<sigma>)) (ledger (sy_world \<sigma>)) rid row) \<and>
     explained (set (sy_accepted \<sigma>)) t0 (ledger (sy_world \<sigma>))"

lemma row_ok_mono:
  "row_ok A t rid row \<Longrightarrow> A \<subseteq> A' \<Longrightarrow> (find_refund rid t \<noteq> None \<Longrightarrow> find_refund rid t' \<noteq> None) \<Longrightarrow> row_ok A' t' rid row"
  unfolding row_ok_def by blast

lemma stage_ok_mono:
  "stage_ok t j \<Longrightarrow> (find_refund (jb_rid j) t \<noteq> None \<Longrightarrow> find_refund (jb_rid j) t' \<noteq> None) \<Longrightarrow> stage_ok t' j"
  unfolding stage_ok_def Let_def by (cases "jb_stage j") auto

lemma job_ok_mono:
  "job_ok A t j \<Longrightarrow> A \<subseteq> A' \<Longrightarrow> (find_refund (jb_rid j) t \<noteq> None \<Longrightarrow> find_refund (jb_rid j) t' \<noteq> None) \<Longrightarrow> job_ok A' t' j"
  unfolding job_ok_def using stage_ok_mono [of t j t'] by blast

lemma explained_mono: "explained A t0 t \<Longrightarrow> A \<subseteq> A' \<Longrightarrow> explained A' t0 t"
  unfolding explained_def by blast

lemma explained_step: "explained A t0 t \<Longrightarrow> paid_step A t t' \<Longrightarrow> explained A t0 t'"
  unfolding explained_def paid_step_def by (elim disjE exE conjE) (simp, fastforce)

text \<open>Every rule but those that run a stage leaves the world alone.\<close>

lemma sys_inv_advance:
  assumes s: "sys_inv ledger t0 \<sigma>" and jobs: "set js \<subseteq> set (sy_jobs \<sigma>)"
    and paid: "paid_step (set (sy_accepted \<sigma>)) (ledger (sy_world \<sigma>)) (ledger w)"
    and q: "set q \<subseteq> set (sy_accepted \<sigma>)"
    and new: "\<And>j. j \<in> set new \<Longrightarrow> job_ok (set (sy_accepted \<sigma>)) (ledger w) j"
    and all: "set js' \<subseteq> set js \<union> set new"
  shows "sys_inv ledger t0 (\<sigma>\<lparr>sy_jobs := js', sy_world := w, sy_queue := q\<rparr>)"
proof -
  have keep: "find_refund k (ledger w) \<noteq> None" if "find_refund k (ledger (sy_world \<sigma>)) \<noteq> None" for k
    by (rule paid_step_keeps [OF paid that])
  have "job_ok (set (sy_accepted \<sigma>)) (ledger w) j" if "j \<in> set js'" for j
  proof (cases "j \<in> set new")
    case False
    with that all jobs have "j \<in> set (sy_jobs \<sigma>)" by blast
    with s have "job_ok (set (sy_accepted \<sigma>)) (ledger (sy_world \<sigma>)) j" by (simp add: sys_inv_def)
    then show ?thesis by (rule job_ok_mono [OF _ subset_refl keep])
  qed (rule new)
  moreover have "row_ok (set (sy_accepted \<sigma>)) (ledger w) rid row" if "sy_txns \<sigma> rid = Some row" for rid row
  proof -
    from s that have "row_ok (set (sy_accepted \<sigma>)) (ledger (sy_world \<sigma>)) rid row" by (simp add: sys_inv_def)
    then show ?thesis by (rule row_ok_mono [OF _ subset_refl keep])
  qed
  moreover have "explained (set (sy_accepted \<sigma>)) t0 (ledger w)"
    using s paid by (auto simp: sys_inv_def intro: explained_step)
  ultimately show ?thesis using s q by (simp add: sys_inv_def)
qed

lemma sys_inv_quiet:
  assumes s: "sys_inv ledger t0 \<sigma>" and w: "sy_world \<sigma>' = sy_world \<sigma>"
    and acc: "set (sy_accepted \<sigma>) \<subseteq> set (sy_accepted \<sigma>')" "claims_ok (set (sy_accepted \<sigma>'))"
    and q: "set (sy_queue \<sigma>') \<subseteq> set (sy_accepted \<sigma>')"
    and jobs: "\<And>j. j \<in> set (sy_jobs \<sigma>') \<Longrightarrow>
      j \<in> set (sy_jobs \<sigma>) \<or> job_ok (set (sy_accepted \<sigma>')) (ledger (sy_world \<sigma>)) j"
    and rows: "\<And>rid row. sy_txns \<sigma>' rid = Some row \<Longrightarrow>
      sy_txns \<sigma> rid = Some row \<or> row_ok (set (sy_accepted \<sigma>')) (ledger (sy_world \<sigma>)) rid row"
  shows "sys_inv ledger t0 \<sigma>'"
proof -
  have "job_ok (set (sy_accepted \<sigma>')) (ledger (sy_world \<sigma>)) j" if "j \<in> set (sy_jobs \<sigma>')" for j
  proof (cases "j \<in> set (sy_jobs \<sigma>)")
    case True
    with s have "job_ok (set (sy_accepted \<sigma>)) (ledger (sy_world \<sigma>)) j" by (simp add: sys_inv_def)
    then show ?thesis by (rule job_ok_mono [OF _ acc(1)])
  qed (use jobs [OF that] in simp)
  moreover have "row_ok (set (sy_accepted \<sigma>')) (ledger (sy_world \<sigma>)) rid row" if "sy_txns \<sigma>' rid = Some row" for rid row
  proof (cases "sy_txns \<sigma> rid = Some row")
    case True
    with s have "row_ok (set (sy_accepted \<sigma>)) (ledger (sy_world \<sigma>)) rid row" by (simp add: sys_inv_def)
    then show ?thesis by (rule row_ok_mono [OF _ acc(1)])
  qed (use rows [OF that] in simp)
  moreover have "explained (set (sy_accepted \<sigma>')) t0 (ledger (sy_world \<sigma>))"
    using s acc(1) by (auto simp: sys_inv_def intro: explained_mono)
  ultimately show ?thesis using acc(2) q w by (simp add: sys_inv_def)
qed

lemma sys_inv_job: "sys_inv ledger t0 \<sigma> \<Longrightarrow> sy_jobs \<sigma> = pre @ j # post \<Longrightarrow>
  job_ok (set (sy_accepted \<sigma>)) (ledger (sy_world \<sigma>)) j \<and> claim_shaped (jb_body j) \<and> jb_body j \<in> set (sy_accepted \<sigma>)"
  by (auto simp: sys_inv_def job_ok_def claims_ok_def)

lemma post_claims_body:
  assumes "post_claims P S True uuid payload = (reply, Some body)" "pydantic_ok P"
  shows "claim_shaped body \<and> (\<exists>rid. dget body ''request_id'' = JStr rid)"
  using assms(1) by (rule post_claims_202) (auto dest: claim_dump_shaped)

lemma insert_claim_Claimed:
  "insert_claim db_up now (JStr rid) body txns = Claimed txns' \<Longrightarrow>
   txns rid = None \<and> (\<exists>row. txns' = txns(rid \<mapsto> row) \<and> tx_request_id row = rid \<and> tx_payload row = JObj body \<and>
     tx_status row = ''PROCESSING'')"
  by (auto simp: insert_claim_def split: if_splits)

text \<open>The final write keeps the row's request and payload and takes the job's status.\<close>

lemma finish_claim_row:
  assumes "finish_claim db_up now rid (Inr v) txns = (how, txns')"
  shows "txns' = txns \<or> (\<exists>row. txns rid = Some row \<and>
    txns' = txns(rid \<mapsto> row\<lparr>tx_status := vd_status v, tx_judge_trail := vd_trail v, tx_updated_at := now\<rparr>))"
  using assms by (auto simp: finish_claim_def write_final_def bindR_def split: sum.splits option.splits if_splits)

lemma sweep_row:
  assumes "run_sweep S env [row] = ([JObj body], rows)"
  shows "tx_payload row = JObj body \<and> tx_status row = ''PROCESSING''"
  using assms
  by (auto simp: run_sweep_def is_zombie_def is_stale_def Let_def split: if_splits)

context evidence_endpoint
begin

lemma step_safe:
  assumes "step call outage \<sigma> \<sigma>'" and inv: "inv (sy_world \<sigma>)" and s: "sys_inv ledger t0 \<sigma>"
  shows "inv (sy_world \<sigma>') \<and> sys_inv ledger t0 \<sigma>'"
  using assms(1)
proof cases
  case (accept P S uuid payload reply body)
  from s post_claims_body [OF accept(2,3)] have "claims_ok (set (body # sy_accepted \<sigma>))"
    by (auto simp: sys_inv_def claims_ok_def)
  moreover have "set (sy_queue \<sigma>) \<subseteq> set (sy_accepted \<sigma>)" using s by (simp add: sys_inv_def)
  ultimately have "sys_inv ledger t0 \<sigma>'" by (intro sys_inv_quiet [OF s]) (auto simp: accept(1))
  then show ?thesis using inv by (simp add: accept(1))
next
  case (claim pre body post now txns env)
  have b: "body \<in> set (sy_accepted \<sigma>)" using s claim(2) by (auto simp: sys_inv_def)
  then obtain rid where rid: "dget body ''request_id'' = JStr rid" using s by (auto simp: sys_inv_def claims_ok_def)
  from insert_claim_Claimed [OF claim(4) [unfolded rid]] obtain row where row: "txns = (sy_txns \<sigma>)(rid \<mapsto> row)"
      "tx_request_id row = rid" "tx_payload row = JObj body" "tx_status row = ''PROCESSING''" by blast
  have "claims_ok (set (sy_accepted \<sigma>))" "set (pre @ post) \<subseteq> set (sy_accepted \<sigma>)"
    using s claim(2) by (auto simp: sys_inv_def)
  then have "sys_inv ledger t0 \<sigma>'" using row b rid
    by (intro sys_inv_quiet [OF s]) (auto simp: claim(1) job_ok_def stage_ok_def row_ok_def split: if_splits)
  then show ?thesis using inv by (simp add: claim(1))
next
  case (discard pre body post now redelivered)
  have "claims_ok (set (sy_accepted \<sigma>))" "set (pre @ body # post) \<subseteq> set (sy_accepted \<sigma>)"
    using s discard(2) by (auto simp: sys_inv_def)
  then have "sys_inv ledger t0 \<sigma>'" by (intro sys_inv_quiet [OF s]) (auto simp: discard(1))
  then show ?thesis using inv by (simp add: discard(1))
next
  case (drop pre body post now e)
  have "claims_ok (set (sy_accepted \<sigma>))" "set (pre @ body # post) \<subseteq> set (sy_accepted \<sigma>)"
    using s drop(3) by (auto simp: sys_inv_def)
  then have "sys_inv ledger t0 \<sigma>'" by (intro sys_inv_quiet [OF s]) (auto simp: drop(1))
  then show ?thesis using inv by (simp add: drop(1))
next
  case (advance pre j post st w)
  note j = sys_inv_job [OF s advance(2)]
  have q: "set (sy_queue \<sigma>) \<subseteq> set (sy_accepted \<sigma>)" using s by (simp add: sys_inv_def)
  from advance_safe [OF inv advance(3)] j have a: "inv w" "paid_step (set (sy_accepted \<sigma>)) (ledger (sy_world \<sigma>)) (ledger w)"
      "job_ok (set (sy_accepted \<sigma>)) (ledger w) (j\<lparr>jb_stage := st\<rparr>)" by (auto simp: job_ok_def)
  from sys_inv_advance [OF s _ a(2) q, of "pre @ post" "[j\<lparr>jb_stage := st\<rparr>]" "pre @ j\<lparr>jb_stage := st\<rparr> # post"] a advance(1,2)
  show ?thesis by auto
next
  case (abort pre j post w redelivered)
  note j = sys_inv_job [OF s abort(2)]
  from advance_safe [OF inv abort(3)] j have a: "inv w" "paid_step (set (sy_accepted \<sigma>)) (ledger (sy_world \<sigma>)) (ledger w)"
    by (auto simp: job_ok_def)
  have q: "set (sy_queue \<sigma> @ (if redelivered then [jb_body j] else [])) \<subseteq> set (sy_accepted \<sigma>)"
    using s j by (auto simp: sys_inv_def)
  have "sys_inv ledger t0 \<sigma>'" unfolding abort(1)
    by (rule sys_inv_advance [OF s _ a(2) q, of "pre @ post" "[]"]) (use abort(2) in auto)
  then show ?thesis using a(1) by (simp add: abort(1))
next
  case (finish pre j post v db_up now how txns redelivered)
  note j = sys_inv_job [OF s finish(2)]
  have q: "claims_ok (set (sy_accepted \<sigma>))" "set (sy_queue \<sigma> @ (if redelivered then [jb_body j] else [])) \<subseteq> set (sy_accepted \<sigma>)"
    using s j by (auto simp: sys_inv_def)
  have "row_ok (set (sy_accepted \<sigma>)) (ledger (sy_world \<sigma>)) rid row \<or> sy_txns \<sigma> rid = Some row" if "txns rid = Some row" for rid row
  proof (cases "sy_txns \<sigma> rid = Some row")
    case False
    with finish_claim_row [OF finish(4)] that obtain old where old: "sy_txns \<sigma> (jb_rid j) = Some old" "rid = jb_rid j"
        "row = old\<lparr>tx_status := vd_status v, tx_judge_trail := vd_trail v, tx_updated_at := now\<rparr>"
      by (auto split: if_splits)
    with s have "row_ok (set (sy_accepted \<sigma>)) (ledger (sy_world \<sigma>)) rid old" by (simp add: sys_inv_def)
    with old j finish(3) show ?thesis by (auto simp: row_ok_def job_ok_def stage_ok_def)
  qed simp
  then have "sys_inv ledger t0 \<sigma>'" using q finish(2) by (intro sys_inv_quiet [OF s]) (auto simp: finish(1))
  then show ?thesis using inv by (simp add: finish(1))
next
  case (crash pre j post)
  note j = sys_inv_job [OF s crash(2)]
  have "claims_ok (set (sy_accepted \<sigma>))" "set (sy_queue \<sigma> @ [jb_body j]) \<subseteq> set (sy_accepted \<sigma>)"
    using s j by (auto simp: sys_inv_def)
  then have "sys_inv ledger t0 \<sigma>'" using crash(2) by (intro sys_inv_quiet [OF s]) (auto simp: crash(1))
  then show ?thesis using inv by (simp add: crash(1))
next
  case (sweep rid row S env body rows)
  from s sweep(2) have "row_ok (set (sy_accepted \<sigma>)) (ledger (sy_world \<sigma>)) rid row" by (simp add: sys_inv_def)
  with sweep_row [OF sweep(3)] have "body \<in> set (sy_accepted \<sigma>)" by (auto simp: row_ok_def)
  then have "claims_ok (set (sy_accepted \<sigma>))" "set (sy_queue \<sigma> @ [body]) \<subseteq> set (sy_accepted \<sigma>)"
    using s by (auto simp: sys_inv_def)
  then have "sys_inv ledger t0 \<sigma>'" by (intro sys_inv_quiet [OF s]) (auto simp: sweep(1) split: if_splits)
  then show ?thesis using inv by (simp add: sweep(1))
qed

lemma reachable_safe:
  assumes "reachable call outage w0 \<sigma>" and "inv w0"
  shows "inv (sy_world \<sigma>) \<and> sys_inv ledger (ledger w0) \<sigma>"
  using assms(1)
proof induction
  case start
  show ?case using assms(2) by (simp add: sys_inv_def claims_ok_def explained_def)
next
  case (step \<sigma> \<sigma>')
  then show ?case using step_safe [of outage \<sigma> \<sigma>'] by blast
qed

end

section \<open>No accepted claim is lost while the database is there\<close>

definition kept_rid :: "'s system \<Rightarrow> string \<Rightarrow> bool" where
  "kept_rid \<sigma> rid \<longleftrightarrow>
     sy_txns \<sigma> rid \<noteq> None \<or> list_ex (\<lambda>body. dget body ''request_id'' = JStr rid) (sy_queue \<sigma>)"

lemma finish_claim_dom:
  "finish_claim db_up now rid (Inr v) txns = (how, txns') \<Longrightarrow> txns' k \<noteq> None \<longleftrightarrow> txns k \<noteq> None"
  by (auto dest!: finish_claim_row split: if_splits)

lemma step_keeps_rid:
  assumes "step call False \<sigma> \<sigma>'" and s: "sys_inv ledger t0 \<sigma>" and rid: "rid \<noteq> []" and kept: "kept_rid \<sigma> rid"
  shows "kept_rid \<sigma>' rid"
  using assms(1)
proof cases
  case (claim pre body post now txns env)
  have "body \<in> set (sy_accepted \<sigma>)" using s claim(2) by (auto simp: sys_inv_def)
  then obtain k where k: "dget body ''request_id'' = JStr k" using s by (auto simp: sys_inv_def claims_ok_def)
  from insert_claim_Claimed [OF claim(4) [unfolded k]] obtain row where "txns = (sy_txns \<sigma>)(k \<mapsto> row)" by blast
  with kept claim(1,2) k show ?thesis by (auto simp: kept_rid_def)
next
  case (discard pre body post now redelivered)
  have "sy_txns \<sigma> rid \<noteq> None" if "dget body ''request_id'' = JStr rid"
    using discard(3) that rid by (auto simp: insert_claim_def split: if_splits)
  with kept discard(1,2) show ?thesis by (auto simp: kept_rid_def)
next
  case (sweep k row S env body rows)
  from s sweep(2) have "row_ok (set (sy_accepted \<sigma>)) (ledger (sy_world \<sigma>)) k row" by (simp add: sys_inv_def)
  with sweep_row [OF sweep(3)] have "dget body ''request_id'' = JStr k" by (auto simp: row_ok_def)
  with kept sweep(1,2) show ?thesis by (auto simp: kept_rid_def)
next
  case (finish pre j post v db_up now how txns redelivered)
  with kept finish_claim_dom [OF finish(4), of rid] show ?thesis by (auto simp: kept_rid_def)
qed (use kept in \<open>auto simp: kept_rid_def\<close>)

context evidence_endpoint
begin

lemma reachable_keeps:
  assumes "reachable call False w0 \<sigma>" and "inv w0"
    and "body \<in> set (sy_accepted \<sigma>)" "dget body ''request_id'' = JStr rid" "rid \<noteq> []"
  shows "kept_rid \<sigma> rid"
  using assms(1,3,4)
proof (induction arbitrary: body)
  case (step \<sigma> \<sigma>')
  note s = conjunct2 [OF reachable_safe [OF step.hyps(1) assms(2)]]
  show ?case
  proof (cases "body \<in> set (sy_accepted \<sigma>)")
    case True
    from step_keeps_rid [OF step.hyps(2) s assms(5) step.IH [OF True step.prems(2)]] show ?thesis .
  next
    case False
    with step.hyps(2) step.prems show ?thesis by cases (auto simp: kept_rid_def)
  qed
qed simp

end

section \<open>One message without interruption is a run\<close>

lemma run_stages_steps:
  assumes "run_stages call n j (sy_world \<sigma>) = (Some st, w)" and "sy_jobs \<sigma> = pre @ j # js"
  shows "(step call outage)\<^sup>*\<^sup>* \<sigma> (\<sigma>\<lparr>sy_jobs := pre @ j\<lparr>jb_stage := st\<rparr> # js, sy_world := w\<rparr>)"
  using assms
proof (induction n arbitrary: j \<sigma>)
  case 0
  then have "\<sigma>\<lparr>sy_jobs := pre @ j\<lparr>jb_stage := st\<rparr> # js, sy_world := w\<rparr> = \<sigma>" by (cases \<sigma>; cases j) auto
  then show ?case by simp
next
  case (Suc n)
  from Suc.prems(1) obtain st1 w1 where a: "advance_stage call j (sy_world \<sigma>) = (Some st1, w1)"
      "run_stages call n (j\<lparr>jb_stage := st1\<rparr>) w1 = (Some st, w)"
    by (auto split: prod.splits option.splits)
  let ?u = "\<sigma>\<lparr>sy_jobs := pre @ j\<lparr>jb_stage := st1\<rparr> # js, sy_world := w1\<rparr>"
  have "step call outage \<sigma> ?u" using step.advance [of \<sigma> pre j js call st1 w1 outage] Suc.prems(2) a(1) by simp
  moreover have "(step call outage)\<^sup>*\<^sup>* ?u (?u\<lparr>sy_jobs := pre @ (j\<lparr>jb_stage := st1\<rparr>)\<lparr>jb_stage := st\<rparr> # js, sy_world := w\<rparr>)"
    using Suc.IH [of "j\<lparr>jb_stage := st1\<rparr>" ?u] a(2) by simp
  ultimately show ?case by (simp add: converse_rtranclp_into_rtranclp)
qed

lemma run_stages_abort:
  assumes "run_stages call n j (sy_world \<sigma>) = (None, w)" and "sy_jobs \<sigma> = j # js"
  shows "(step call outage)\<^sup>*\<^sup>* \<sigma> (\<sigma>\<lparr>sy_jobs := js, sy_world := w\<rparr>)"
  using assms
proof (induction n arbitrary: j \<sigma>)
  case (Suc n)
  show ?case
  proof (cases "fst (advance_stage call j (sy_world \<sigma>))")
    case None
    with Suc.prems(1) have "advance_stage call j (sy_world \<sigma>) = (None, w)"
      by (auto split: prod.splits option.splits)
    then show ?thesis
      using step.abort [of \<sigma> "[]" j js call w outage False] Suc.prems(2) by simp
  next
    case (Some st1)
    then obtain w1 where a: "advance_stage call j (sy_world \<sigma>) = (Some st1, w1)"
        "run_stages call n (j\<lparr>jb_stage := st1\<rparr>) w1 = (None, w)"
      using Suc.prems(1) by (auto split: prod.splits option.splits)
    let ?u = "\<sigma>\<lparr>sy_jobs := j\<lparr>jb_stage := st1\<rparr> # js, sy_world := w1\<rparr>"
    have "step call outage \<sigma> ?u" using step.advance [of \<sigma> "[]" j js call st1 w1 outage] Suc.prems(2) a(1) by simp
    moreover have "(step call outage)\<^sup>*\<^sup>* ?u (?u\<lparr>sy_jobs := js, sy_world := w\<rparr>)"
      using Suc.IH [of "j\<lparr>jb_stage := st1\<rparr>" ?u] a(2) by simp
    ultimately show ?thesis by (simp add: converse_rtranclp_into_rtranclp)
  qed
qed simp

lemma finish_claim_raised: "finish_claim db_up now rid (Inl e) txns = (Nacked False, txns)"
  by (simp add: finish_claim_def)

lemma process_message_run:
  assumes run: "process_message call env now1 now2 (Some (JObj body)) (sy_txns \<sigma>) (sy_world \<sigma>) = (how, txns', w')"
    and db: "ce_claim_db env" and rid: "dget body ''request_id'' = JStr rid" and q: "sy_queue \<sigma> = body # queue"
  shows "(step call outage)\<^sup>*\<^sup>* \<sigma> (\<sigma>\<lparr>sy_queue := queue, sy_txns := txns', sy_world := w'\<rparr>)"
proof (cases "rid = [] \<or> sy_txns \<sigma> rid \<noteq> None")
  case True
  with run db rid have "txns' = sy_txns \<sigma>" "w' = sy_world \<sigma>"
    by (auto simp: process_message_def insert_claim_def Let_def split: if_splits)
  moreover have "step call outage \<sigma> (\<sigma>\<lparr>sy_queue := queue\<rparr>)"
    using step.discard [of \<sigma> "[]" body queue undefined call outage False] True q rid
    by (auto simp: insert_claim_def)
  ultimately show ?thesis by (simp add: r_into_rtranclp)
next
  case False
  define j where "j = \<lparr>jb_env = env, jb_rid = rid, jb_body = body, jb_stage = Fresh\<rparr>"
  define row where "row = \<lparr>tx_request_id = rid, tx_payload = JObj body, tx_status = ''PROCESSING'',
      tx_created_at = now1, tx_updated_at = now1, tx_judge_trail = None\<rparr>"
  let ?t = "(sy_txns \<sigma>)(rid \<mapsto> row)"
  let ?\<sigma>1 = "\<sigma>\<lparr>sy_queue := queue, sy_txns := ?t, sy_jobs := j # sy_jobs \<sigma>\<rparr>"
  have claim: "step call outage \<sigma> ?\<sigma>1"
    using step.claim [of \<sigma> "[]" body queue now1 ?t call outage env] False q rid
    by (simp add: insert_claim_def j_def row_def)
  obtain vd u where d: "decide_claim call env rid body (sy_world \<sigma>) = (vd, u)" by (metis prod.collapse)
  from run db rid False d have f: "finish_claim (ce_final_db env) now2 rid vd ?t = (how, txns')" "w' = u"
    by (auto simp: process_message_def insert_claim_def row_def split: prod.splits)
  note st = advance_decides [of j call "sy_world \<sigma>"]
  show ?thesis
  proof (cases vd)
    case (Inl e)
    with st d have "run_stages call 3 j (sy_world ?\<sigma>1) = (None, u)" by (simp add: j_def)
    from run_stages_abort [OF this, of "sy_jobs \<sigma>" outage] f Inl claim
    show ?thesis by (simp add: finish_claim_raised converse_rtranclp_into_rtranclp)
  next
    case (Inr v)
    with st d have "run_stages call 3 j (sy_world ?\<sigma>1) = (Some (Decided v), u)" by (simp add: j_def)
    from run_stages_steps [OF this, of "[]" "sy_jobs \<sigma>" outage]
    have s: "(step call outage)\<^sup>*\<^sup>* \<sigma> (?\<sigma>1\<lparr>sy_jobs := j\<lparr>jb_stage := Decided v\<rparr> # sy_jobs \<sigma>, sy_world := u\<rparr>)"
      using claim by (simp add: converse_rtranclp_into_rtranclp)
    let ?\<sigma>2 = "?\<sigma>1\<lparr>sy_jobs := j\<lparr>jb_stage := Decided v\<rparr> # sy_jobs \<sigma>, sy_world := u\<rparr>"
    have "step call outage ?\<sigma>2 (\<sigma>\<lparr>sy_queue := queue, sy_txns := txns', sy_world := w'\<rparr>)"
      using step.finish [of ?\<sigma>2 "[]" "j\<lparr>jb_stage := Decided v\<rparr>" "sy_jobs \<sigma>" v "ce_final_db env" now2 how txns' call outage False] f Inr
      by (cases \<sigma>) (simp add: j_def)
    with s show ?thesis by (rule rtranclp.rtrancl_into_rtrancl)
  qed
qed

lemma reachable_steps: "reachable call outage w0 \<sigma> \<Longrightarrow> (step call outage)\<^sup>*\<^sup>* \<sigma> \<sigma>' \<Longrightarrow> reachable call outage w0 \<sigma>'"
  by (rotate_tac, induction rule: rtranclp_induct) (auto intro: reachable.step)

end
