(* ===== verification/Pipeline_Runs.thy ===== *)
theory Pipeline_Runs
  imports System
begin

text \<open>
  Runs of the pipeline: what every run guarantees (properties of reachable states, with the
  tool boundary as the world), that one message processed without interruption is a run, how a
  claim that got stuck is taken up again, and three runs that end where nobody wants to be:
  two claims on one order that are checked before either is paid, a slow worker that writes
  its verdict over that of the worker that replaced it, and a claim dropped in a database
  outage.
\<close>

section \<open>Reachable states of a worked claim\<close>

text \<open>Three requests that are lost: the first worker finds no evidence and asks for a human.\<close>

definition lost_world :: endpoint where
  "lost_world = worker_world\<lparr>ep_schedule := [Lost, Lost, Lost] @ ep_schedule worker_world\<rparr>"

lemma lost_read:
  "(case verify_claim_evidence worker_call (ce_policy demo_claim_env) default_settings demo_body lost_world of
      (Inr (Inl msg), s) \<Rightarrow> s = worker_world | _ \<Rightarrow> False)"
  by code_simp

lemma lost_decided:
  "\<exists>trail. decide_claim worker_call demo_claim_env ''q'' demo_body lost_world =
     (Inr \<lparr>vd_status = ''PENDING_HUMAN_REVIEW'', vd_trail = trail\<rparr>, worker_world)"
proof -
  obtain msg where r: "verify_claim_evidence worker_call (ce_policy demo_claim_env) default_settings demo_body lost_world =
      (Inr (Inl msg), worker_world)"
    using lost_read by (auto split: prod.splits sum.splits)
  have e: "ce_settings demo_claim_env = default_settings" by (simp add: demo_claim_env_def)
  have n: "dget [] k = JNull" for k by (simp add: dget_def)
  show ?thesis
    by (simp add: decide_claim_def guard_claim_def first_proposal_def claim_text_def not_a_refund_def evidence_step_def
        has_refund_def e r unavailable_def judge_step_def Let_def get_llm_def mock_judges execute_step_def approved_def
        deciding_proposal_def review_status_def n)
qed

lemma demo_accepted:
  "post_claims lax_mode default_settings True ''u'' (JObj demo_body) =
     (\<lparr>hr_status = 202, hr_body = [(''status'', JStr ''Accepted''), (''request_id'', JStr ''q'')]\<rparr>, Some demo_body)"
  by code_simp

definition queued :: "'s \<Rightarrow> 's system" where
  "queued w = \<lparr>sy_accepted = [demo_body], sy_queue = [demo_body], sy_txns = Map.empty, sy_jobs = [], sy_world = w\<rparr>"

lemma reachable_queued: "reachable call outage w (queued w)"
  using reachable.step [OF reachable.start, OF step.accept [OF demo_accepted lax_mode_ok], of call outage w]
  by (simp add: queued_def)

section \<open>Two runs that go wrong\<close>

definition demo_job :: "string \<Rightarrow> dict \<Rightarrow> stage \<Rightarrow> job" where
  "demo_job rid body st = \<lparr>jb_env = demo_claim_env, jb_rid = rid, jb_body = body, jb_stage = st\<rparr>"

lemma step_claim_fresh:
  assumes "sy_queue \<sigma> = body # queue" "dget body ''request_id'' = JStr rid" "rid \<noteq> []" "sy_txns \<sigma> rid = None"
  shows "\<exists>row. step call outage \<sigma> (\<sigma>\<lparr>sy_queue := queue, sy_txns := (sy_txns \<sigma>)(rid \<mapsto> row),
      sy_jobs := demo_job rid body Fresh # sy_jobs \<sigma>\<rparr>) \<and> tx_status row = ''PROCESSING'' \<and> tx_updated_at row = 0 \<and>
    tx_payload row = JObj body \<and> tx_request_id row = rid"
  using step.claim [of \<sigma> "[]" body queue 0 _ call outage demo_claim_env] assms
  by (intro exI [of _ "\<lparr>tx_request_id = rid, tx_payload = JObj body, tx_status = ''PROCESSING'',
      tx_created_at = 0, tx_updated_at = 0, tx_judge_trail = None\<rparr>"])
    (simp add: insert_claim_def demo_job_def)

subsection \<open>The sweeper and a slow worker\<close>

definition late_sweep :: sweep_env where
  "late_sweep = \<lparr>sw_now = seconds 1000, sw_locked = (\<lambda>_. False), sw_publish = (\<lambda>_. True), sw_commit = True\<rparr>"

lemma late_sweep_runs:
  assumes "tx_status row = ''PROCESSING''" "tx_updated_at row = 0" "tx_payload row = JObj body"
  shows "run_sweep default_settings late_sweep [row] = ([JObj body], [])"
  using assms
  by (simp add: run_sweep_def late_sweep_def is_zombie_def is_stale_def default_settings_def)

lemma overwritten_run:
  "\<exists>\<sigma> row. reachable worker_call outage lost_world \<sigma> \<and> sy_txns \<sigma> ''q'' = Some row \<and>
     tx_status row = ''PENDING_HUMAN_REVIEW'' \<and> sy_jobs \<sigma> = [] \<and> sy_queue \<sigma> = [] \<and>
     ep_ledger (sy_world \<sigma>) = ep_ledger (snd (snd demo_paid))"
proof -
  let ?S = "\<lambda>queue txns jobs w. \<lparr>sy_accepted = [demo_body], sy_queue = queue, sy_txns = txns, sy_jobs = jobs, sy_world = w\<rparr>"
  obtain trail where d: "decide_claim worker_call demo_claim_env ''q'' demo_body lost_world =
      (Inr \<lparr>vd_status = ''PENDING_HUMAN_REVIEW'', vd_trail = trail\<rparr>, worker_world)"
    using lost_decided by blast
  let ?v = "\<lparr>vd_status = ''PENDING_HUMAN_REVIEW'', vd_trail = trail\<rparr>"
  let ?A = "demo_job ''q'' demo_body (Decided ?v)"
  obtain row where c: "step worker_call outage (queued lost_world)
      (?S [] [''q'' \<mapsto> row] [demo_job ''q'' demo_body Fresh] lost_world)"
    and row: "tx_status row = ''PROCESSING''" "tx_updated_at row = 0" "tx_payload row = JObj demo_body"
    using step_claim_fresh [of "queued lost_world" demo_body "[]" "''q''" worker_call outage] by (auto simp: queued_def)
  have "run_stages worker_call 3 (demo_job ''q'' demo_body Fresh) lost_world = (Some (Decided ?v), worker_world)"
    using advance_decides [of "demo_job ''q'' demo_body Fresh" worker_call lost_world] d by (simp add: demo_job_def)
  with run_stages_steps [of worker_call 3 "demo_job ''q'' demo_body Fresh"
      "?S [] [''q'' \<mapsto> row] [demo_job ''q'' demo_body Fresh] lost_world" "Decided ?v" worker_world "[]" "[]" outage]
  have a: "(step worker_call outage)\<^sup>*\<^sup>* (?S [] [''q'' \<mapsto> row] [demo_job ''q'' demo_body Fresh] lost_world)
      (?S [] [''q'' \<mapsto> row] [?A] worker_world)" by (simp add: demo_job_def)
  have s: "step worker_call outage (?S [] [''q'' \<mapsto> row] [?A] worker_world) (?S [demo_body] Map.empty [?A] worker_world)"
    using step.sweep [of "?S [] [''q'' \<mapsto> row] [?A] worker_world" "''q''" row default_settings late_sweep demo_body "[]"
        worker_call outage] late_sweep_runs [OF row] by simp
  obtain row2 where p: "process_message worker_call demo_claim_env 0 9 (Some (JObj demo_body)) Map.empty worker_world =
      (Acked, [''q'' \<mapsto> row2], snd (snd demo_paid))" using demo_processed by blast
  with process_message_run [of worker_call demo_claim_env 0 9 demo_body "?S [demo_body] Map.empty [?A] worker_world" Acked
      "[''q'' \<mapsto> row2]" "snd (snd demo_paid)" "''q''" "[]" outage]
  have b: "(step worker_call outage)\<^sup>*\<^sup>* (?S [demo_body] Map.empty [?A] worker_world)
      (?S [] [''q'' \<mapsto> row2] [?A] (snd (snd demo_paid)))" by (simp add: demo_claim_env_def)
  have f: "\<exists>row3. step worker_call outage (?S [] [''q'' \<mapsto> row2] [?A] (snd (snd demo_paid)))
      (?S [] [''q'' \<mapsto> row3] [] (snd (snd demo_paid))) \<and> tx_status row3 = ''PENDING_HUMAN_REVIEW''"
    using step.finish [of "?S [] [''q'' \<mapsto> row2] [?A] (snd (snd demo_paid))" "[]" ?A "[]" ?v True 20 Acked _ worker_call outage False]
    by (intro exI [of _ "row2\<lparr>tx_status := ''PENDING_HUMAN_REVIEW'', tx_judge_trail := trail, tx_updated_at := 20\<rparr>"])
      (simp add: demo_job_def finish_claim_def write_final_def)
  then obtain row3 where f: "step worker_call outage (?S [] [''q'' \<mapsto> row2] [?A] (snd (snd demo_paid)))
      (?S [] [''q'' \<mapsto> row3] [] (snd (snd demo_paid)))" "tx_status row3 = ''PENDING_HUMAN_REVIEW''" by blast
  have "(step worker_call outage)\<^sup>*\<^sup>* (queued lost_world) (?S [] [''q'' \<mapsto> row3] [] (snd (snd demo_paid)))"
    using c a s b f(1) by (meson converse_rtranclp_into_rtranclp r_into_rtranclp rtranclp_trans)
  from reachable_steps [OF reachable_queued this] f(2) show ?thesis
    by (intro exI [of _ "?S [] [''q'' \<mapsto> row3] [] (snd (snd demo_paid))"] exI [of _ row3]) simp
qed

subsection \<open>Two claims on one order\<close>

definition two_claim :: "string \<Rightarrow> dict" where
  "two_claim rid = [(''user_id'', JStr ''user-1''), (''claim_text'', JStr ''''), (''request_id'', JStr rid),
     (''order_id'', JStr ''ord-1''), (''amount'', JFloat (Fin (Dec 600 (- 1)))), (''currency'', JStr ''USD'')]"

lemma two_claim_get [simp]:
  "dget (two_claim rid) ''request_id'' = JStr rid" "dget (two_claim rid) ''order_id'' = JStr ''ord-1''"
  "dget (two_claim rid) ''amount'' = JFloat (Fin (Dec 600 (- 1)))" "dget (two_claim rid) ''currency'' = JStr ''USD''"
  "dget_or (two_claim rid) ''claim_text'' v = JStr ''''"
  by (simp_all add: two_claim_def dget_def dget_or_def)

definition two_ec :: evidence_check where
  "two_ec = demo_ec\<lparr>ec_amount_usd := Some (Dec 6000 (- 2))\<rparr>"

definition two_read :: "string \<Rightarrow> endpoint \<Rightarrow> (string + evidence_check) res \<times> endpoint" where
  "two_read rid w = verify_claim_evidence worker_call (ce_policy demo_claim_env) default_settings (two_claim rid) w"

definition two_pay :: "string \<Rightarrow> endpoint \<Rightarrow> (string + dict) \<times> rat list \<times> endpoint" where
  "two_pay rid w = execute_refund_via_mcp worker_call (ce_policy demo_claim_env) rid (JStr ''ord-1'')
     (JFloat (Fin (Dec 600 (- 1)))) (JStr ''USD'') w"

definition two_world1 :: endpoint where "two_world1 = snd (two_read ''q1'' worker_world)"
definition two_world2 :: endpoint where "two_world2 = snd (two_read ''q2'' two_world1)"
definition two_world3 :: endpoint where "two_world3 = snd (snd (two_pay ''q1'' two_world2))"
definition two_world4 :: endpoint where "two_world4 = snd (snd (two_pay ''q2'' two_world3))"

lemma two_reads: "fst (two_read ''q1'' worker_world) = Inr (Inr two_ec)" "fst (two_read ''q2'' two_world1) = Inr (Inr two_ec)"
  by code_simp+

lemma two_paid:
  "map (\<lambda>r. (rf_request_id r, rf_transaction_id r, rf_amount r)) (tb_rows (ep_ledger two_world4)) =
     [(''q1'', ''ord-1'', 6000), (''q2'', ''ord-1'', 6000)]"
  by code_simp

lemma two_accepted:
  "snd (post_claims lax_mode default_settings True ''u'' (JObj (two_claim ''q1''))) = Some (two_claim ''q1'')"
  "snd (post_claims lax_mode default_settings True ''u'' (JObj (two_claim ''q2''))) = Some (two_claim ''q2'')"
  by code_simp+

lemma two_queued:
  "reachable worker_call outage worker_world \<lparr>sy_accepted = [two_claim ''q2'', two_claim ''q1''],
     sy_queue = [two_claim ''q1'', two_claim ''q2''], sy_txns = Map.empty, sy_jobs = [], sy_world = worker_world\<rparr>"
proof -
  obtain a1 a2 where
      "post_claims lax_mode default_settings True ''u'' (JObj (two_claim ''q1'')) = (a1, Some (two_claim ''q1''))"
      "post_claims lax_mode default_settings True ''u'' (JObj (two_claim ''q2'')) = (a2, Some (two_claim ''q2''))"
    using two_accepted by (metis prod.collapse)
  from reachable.step [OF reachable.step [OF reachable.start step.accept [OF this(1) lax_mode_ok]]
      step.accept [OF this(2) lax_mode_ok], of worker_call outage worker_world]
  show ?thesis by simp
qed

lemma two_checked:
  "\<exists>trail summary. checked two_ec = Inr \<lparr>eo_trail = Some trail, eo_failure = None, eo_summary = Some summary\<rparr>"
proof -
  have m: "money (JFloat (Fin (Dec 1000 (- 1)))) = Inr (Dec 10000 (- 2))" by code_simp
  show ?thesis
    by (simp add: checked_def to_trail_def summary_for_judges_def passed_def two_ec_def demo_ec_def order_of_def dindex_def m Let_def)
qed

lemma demo_settings [simp]: "ce_settings demo_claim_env = default_settings"
  by (simp add: demo_claim_env_def)

lemma two_evidence:
  assumes "two_read rid w = (Inr (Inr two_ec), w')"
  shows "\<exists>ev. eo_failure ev = None \<and>
    run_stages worker_call 1 (demo_job rid (two_claim rid) Fresh) w = (Some (Evidenced ev), w')"
proof -
  obtain t u where c: "checked two_ec = Inr \<lparr>eo_trail = Some t, eo_failure = None, eo_summary = Some u\<rparr>"
    using two_checked by blast
  show ?thesis
    using assms c
    by (simp add: advance_stage_def demo_job_def guard_claim_def first_proposal_def claim_text_def not_a_refund_def
        evidence_step_def has_refund_def two_read_def Let_def)
qed

lemma two_execute:
  assumes "eo_failure ev = None"
  shows "\<exists>v. run_stages worker_call 2 (demo_job rid (two_claim rid) (Evidenced ev)) w =
    (Some (Decided v), snd (snd (two_pay rid w)))"
proof -
  obtain r ds w' where x: "two_pay rid w = (r, ds, w')" by (metis prod_cases3)
  show ?thesis
    using assms x
    by (cases r)
      (simp_all add: numeral_2_eq_2 advance_stage_def demo_job_def first_proposal_def claim_text_def not_a_refund_def Let_def
        get_llm_def mock_judges judge_step_def mock_approves execute_step_def approved_def has_refund_def two_pay_def py_or_def)
qed

lemma overrefund_run:
  "\<exists>\<sigma>. reachable worker_call outage worker_world \<sigma> \<and> sy_world \<sigma> = two_world4"
proof -
  let ?b1 = "two_claim ''q1''" and ?b2 = "two_claim ''q2''"
  let ?S = "\<lambda>queue txns jobs w. \<lparr>sy_accepted = [?b2, ?b1], sy_queue = queue, sy_txns = txns, sy_jobs = jobs, sy_world = w\<rparr>"
  let ?J = "\<lambda>rid. demo_job rid (two_claim rid)"
  note r = two_queued [of outage]
  obtain row1 where c1: "step worker_call outage (?S [?b1, ?b2] Map.empty [] worker_world)
      (?S [?b2] [''q1'' \<mapsto> row1] [?J ''q1'' Fresh] worker_world)"
    using step_claim_fresh [of "?S [?b1, ?b2] Map.empty [] worker_world" ?b1 "[?b2]" "''q1''" worker_call outage] by auto
  let ?t1 = "[''q1'' \<mapsto> row1]"
  obtain row2 where c2: "step worker_call outage (?S [?b2] ?t1 [?J ''q1'' Fresh] worker_world)
      (?S [] (?t1(''q2'' \<mapsto> row2)) [?J ''q2'' Fresh, ?J ''q1'' Fresh] worker_world)"
    using step_claim_fresh [of "?S [?b2] ?t1 [?J ''q1'' Fresh] worker_world" ?b2 "[]" "''q2''" worker_call outage] by auto
  let ?t = "?t1(''q2'' \<mapsto> row2)"
  have e1: "two_read ''q1'' worker_world = (Inr (Inr two_ec), two_world1)"
    and e2: "two_read ''q2'' two_world1 = (Inr (Inr two_ec), two_world2)"
    using two_reads by (simp_all add: two_world1_def two_world2_def prod_eq_iff)
  obtain ev1 where ev1: "eo_failure ev1 = None" "run_stages worker_call 1 (?J ''q1'' Fresh) worker_world = (Some (Evidenced ev1), two_world1)"
    using two_evidence [OF e1] by blast
  obtain ev2 where ev2: "eo_failure ev2 = None" "run_stages worker_call 1 (?J ''q2'' Fresh) two_world1 = (Some (Evidenced ev2), two_world2)"
    using two_evidence [OF e2] by blast
  obtain v1 where v1: "run_stages worker_call 2 (?J ''q1'' (Evidenced ev1)) two_world2 = (Some (Decided v1), two_world3)"
    using two_execute [OF ev1(1)] by (auto simp: two_world3_def)
  obtain v2 where v2: "run_stages worker_call 2 (?J ''q2'' (Evidenced ev2)) two_world3 = (Some (Decided v2), two_world4)"
    using two_execute [OF ev2(1)] by (auto simp: two_world4_def)
  note d = demo_job_def
  have s1: "(step worker_call outage)\<^sup>*\<^sup>* (?S [] ?t [?J ''q2'' Fresh, ?J ''q1'' Fresh] worker_world)
      (?S [] ?t [?J ''q2'' Fresh, ?J ''q1'' (Evidenced ev1)] two_world1)"
    using run_stages_steps [of worker_call 1 "?J ''q1'' Fresh" "?S [] ?t [?J ''q2'' Fresh, ?J ''q1'' Fresh] worker_world" "Evidenced ev1"
        two_world1 "[?J ''q2'' Fresh]" "[]" outage] ev1(2) by (simp add: d)
  have s2: "(step worker_call outage)\<^sup>*\<^sup>* (?S [] ?t [?J ''q2'' Fresh, ?J ''q1'' (Evidenced ev1)] two_world1)
      (?S [] ?t [?J ''q2'' (Evidenced ev2), ?J ''q1'' (Evidenced ev1)] two_world2)"
    using run_stages_steps [of worker_call 1 "?J ''q2'' Fresh" "?S [] ?t [?J ''q2'' Fresh, ?J ''q1'' (Evidenced ev1)] two_world1" "Evidenced ev2"
        two_world2 "[]" "[?J ''q1'' (Evidenced ev1)]" outage] ev2(2) by (simp add: d)
  have s3: "(step worker_call outage)\<^sup>*\<^sup>* (?S [] ?t [?J ''q2'' (Evidenced ev2), ?J ''q1'' (Evidenced ev1)] two_world2)
      (?S [] ?t [?J ''q2'' (Evidenced ev2), ?J ''q1'' (Decided v1)] two_world3)"
    using run_stages_steps [of worker_call 2 "?J ''q1'' (Evidenced ev1)" "?S [] ?t [?J ''q2'' (Evidenced ev2), ?J ''q1'' (Evidenced ev1)] two_world2"
        "Decided v1" two_world3 "[?J ''q2'' (Evidenced ev2)]" "[]" outage] v1 by (simp add: d)
  have s4: "(step worker_call outage)\<^sup>*\<^sup>* (?S [] ?t [?J ''q2'' (Evidenced ev2), ?J ''q1'' (Decided v1)] two_world3)
      (?S [] ?t [?J ''q2'' (Decided v2), ?J ''q1'' (Decided v1)] two_world4)"
    using run_stages_steps [of worker_call 2 "?J ''q2'' (Evidenced ev2)" "?S [] ?t [?J ''q2'' (Evidenced ev2), ?J ''q1'' (Decided v1)] two_world3"
        "Decided v2" two_world4 "[]" "[?J ''q1'' (Decided v1)]" outage] v2 by (simp add: d)
  have "reachable worker_call outage worker_world (?S [] ?t [?J ''q2'' (Decided v2), ?J ''q1'' (Decided v1)] two_world4)"
    using reachable_steps [OF r] c1 c2 s1 s2 s3 s4 by (meson converse_rtranclp_into_rtranclp rtranclp_trans)
  then show ?thesis by (intro exI conjI, assumption) simp
qed

section \<open>Properties\<close>


text \<open>The worked claim of \<open>Worker\<close>, end to end.\<close>

definition paid_state :: "transaction_row \<Rightarrow> endpoint system" where
  "paid_state row = (queued worker_world)\<lparr>sy_queue := [], sy_txns := [''q'' \<mapsto> row], sy_world := snd (snd demo_paid)\<rparr>"

lemma reachable_paid: "\<exists>row. reachable worker_call outage worker_world (paid_state row) \<and> tx_status row = ''COMPLETED''"
proof -
  obtain row where p: "process_message worker_call demo_claim_env 0 9 (Some (JObj demo_body)) Map.empty worker_world =
      (Acked, [''q'' \<mapsto> row], snd (snd demo_paid))" "tx_status row = ''COMPLETED''" using demo_processed by blast
  with process_message_run [of worker_call demo_claim_env 0 9 demo_body "queued worker_world" Acked
      "[''q'' \<mapsto> row]" "snd (snd demo_paid)" "''q''" "[]" outage]
  have "(step worker_call outage)\<^sup>*\<^sup>* (queued worker_world) (paid_state row)"
    by (simp add: queued_def demo_claim_env_def paid_state_def)
  from reachable_steps [OF reachable_queued this] p(2) show ?thesis by blast
qed




text \<open>
  An outage of the database when a message is claimed does lose it: the message is rejected
  without requeueing and no row says it ever existed, though the gateway answered 202.
\<close>

theorem outage_loses_claim:
  "\<exists>\<sigma>. reachable call True w \<sigma> \<and> sy_accepted \<sigma> = [demo_body] \<and> sy_queue \<sigma> = [] \<and> sy_txns \<sigma> = Map.empty \<and> sy_jobs \<sigma> = []"
proof -
  have "step call True (queued w) (queued w\<lparr>sy_queue := []\<rparr>)"
    using step.drop [of True "queued w" "[]" demo_body "[]" 0 _ call] by (simp add: queued_def insert_claim_def)
  from reachable.step [OF reachable_queued this] show ?thesis by (intro exI conjI, assumption) (simp_all add: queued_def)
qed

text \<open>
  C10. \<open>process_message\<close> refines to the steps of the pipeline: for a queued claim, processing it
  in one go leads to the state that claiming it, running its stages and writing its verdict lead
  to, one step after the other, whatever the outcome and whoever else is at work.
\<close>

theorem message_is_a_run:
  assumes "process_message call env now1 now2 (Some (JObj body)) (sy_txns \<sigma>) (sy_world \<sigma>) = (how, txns', w')"
    and "ce_claim_db env" and "dget body ''request_id'' = JStr rid" and "sy_queue \<sigma> = body # queue"
  shows "(step call outage)\<^sup>*\<^sup>* \<sigma> (\<sigma>\<lparr>sy_queue := queue, sy_txns := txns', sy_world := w'\<rparr>)"
  by (rule process_message_run [OF assms])

theorem message_is_a_run_witness:
  "\<exists>row. (step worker_call False)\<^sup>*\<^sup>* (queued worker_world)
     (queued worker_world\<lparr>sy_queue := [], sy_txns := [''q'' \<mapsto> row], sy_world := snd (snd demo_paid)\<rparr>)"
proof -
  obtain row where "process_message worker_call demo_claim_env 0 9 (Some (JObj demo_body)) Map.empty worker_world =
      (Acked, [''q'' \<mapsto> row], snd (snd demo_paid))" using demo_processed by blast
  with message_is_a_run [of worker_call demo_claim_env 0 9 demo_body "queued worker_world" Acked
      "[''q'' \<mapsto> row]" "snd (snd demo_paid)" "''q''" "[]" False]
  have "(step worker_call False)\<^sup>*\<^sup>* (queued worker_world)
      (queued worker_world\<lparr>sy_queue := [], sy_txns := [''q'' \<mapsto> row], sy_world := snd (snd demo_paid)\<rparr>)"
    by (simp add: queued_def demo_claim_env_def)
  then show ?thesis by blast
qed

text \<open>
  C14. A stuck claim is taken up again: when a row has been in PROCESSING for longer than the
  threshold and the queue is empty, the sweep and one worker lead to the state that processing
  the row's payload afresh leads to, and the claim has a row again.
\<close>

theorem stuck_claim_recovers:
  assumes "sy_txns \<sigma> rid = Some row" and "tx_payload row = JObj body" and "dget body ''request_id'' = JStr rid"
    and "rid \<noteq> []" and "is_stale S now row" and "sy_queue \<sigma> = []" and "ce_claim_db env"
    and "process_message call env now1 now2 (Some (JObj body)) ((sy_txns \<sigma>)(rid := None)) (sy_world \<sigma>) = (how, txns', w')"
  shows "(step call outage)\<^sup>*\<^sup>* \<sigma> (\<sigma>\<lparr>sy_txns := txns', sy_world := w'\<rparr>) \<and> txns' rid \<noteq> None"
proof
  let ?e = "\<lparr>sw_now = now, sw_locked = (\<lambda>_. False), sw_publish = (\<lambda>_. True), sw_commit = True\<rparr>"
  let ?s = "\<sigma>\<lparr>sy_queue := [body], sy_txns := (sy_txns \<sigma>)(rid := None)\<rparr>"
  have "run_sweep S ?e [row] = ([JObj body], [])" using assms(2,5) by (simp add: run_sweep_def is_zombie_def)
  from step.sweep [OF assms(1) this, of call outage] assms(6) have s: "step call outage \<sigma> ?s" by simp
  have "(step call outage)\<^sup>*\<^sup>* ?s (?s\<lparr>sy_queue := [], sy_txns := txns', sy_world := w'\<rparr>)"
    by (rule process_message_run [of call env now1 now2 body ?s how txns' w' rid]) (use assms in simp_all)
  moreover have "?s\<lparr>sy_queue := [], sy_txns := txns', sy_world := w'\<rparr> = \<sigma>\<lparr>sy_txns := txns', sy_world := w'\<rparr>"
    using assms(6) by (cases \<sigma>) simp
  ultimately show "(step call outage)\<^sup>*\<^sup>* \<sigma> (\<sigma>\<lparr>sy_txns := txns', sy_world := w'\<rparr>)"
    using s by (simp add: converse_rtranclp_into_rtranclp)
  show "txns' rid \<noteq> None"
    using assms(8,3,4,7)
    by (auto simp: process_message_def insert_claim_def case_prod_beta Let_def prod_eq_iff finish_claim_def
        write_final_def bindR_def split: sum.splits if_splits)
qed

definition stuck_state :: "endpoint system" where
  "stuck_state = (queued worker_world)\<lparr>sy_queue := [], sy_txns := [''q'' \<mapsto> (stuck_row ''q'' 0)\<lparr>tx_payload := JObj demo_body\<rparr>]\<rparr>"

theorem stuck_claim_recovers_witness:
  "\<exists>row. (step worker_call False)\<^sup>*\<^sup>* stuck_state
     (stuck_state\<lparr>sy_txns := [''q'' \<mapsto> row], sy_world := snd (snd demo_paid)\<rparr>) \<and> tx_status row = ''COMPLETED''"
proof -
  obtain row where p: "process_message worker_call demo_claim_env 0 9 (Some (JObj demo_body)) Map.empty worker_world =
      (Acked, [''q'' \<mapsto> row], snd (snd demo_paid))" "tx_status row = ''COMPLETED''" using demo_processed by blast
  let ?r = "(stuck_row ''q'' 0)\<lparr>tx_payload := JObj demo_body\<rparr>"
  have st: "sy_txns stuck_state ''q'' = Some ?r" "sy_queue stuck_state = []" "sy_world stuck_state = worker_world"
      "(sy_txns stuck_state)(''q'' := None) = Map.empty"
    by (simp_all add: stuck_state_def queued_def)
  have "is_stale default_settings (seconds 1000) ?r"
    by (simp add: is_stale_def stuck_row_def default_settings_def)
  from stuck_claim_recovers [OF st(1) _ _ _ this st(2), of demo_body demo_claim_env worker_call 0 9 Acked "[''q'' \<mapsto> row]"
      "snd (snd demo_paid)" False] p st
  show ?thesis by (simp add: demo_claim_env_def) blast
qed

text \<open>
  C25. Workers that run at the same time can refund more than the order: two claims of 60.00 on
  one order of 100.00, both checked before either is paid, both pass the evidence check and both
  are paid, though every claim has the gateway's shape and the order was within its amount.
\<close>

theorem concurrent_claims_overrefund:
  "\<exists>\<sigma> ord. reachable worker_call False worker_world \<sigma> \<and> ep_inv worker_world \<and>
     within_orders (ep_orders worker_world) (ep_ledger worker_world) \<and>
     ord \<in> set (tb_rows (ep_orders (sy_world \<sigma>))) \<and>
     or_amount ord < refunded_on (or_order_id ord) (ep_ledger (sy_world \<sigma>))"
proof -
  obtain \<sigma> where s: "reachable worker_call False worker_world \<sigma>" "sy_world \<sigma> = two_world4"
    using overrefund_run by blast
  have o: "map (\<lambda>ord. (or_order_id ord, or_amount ord)) (tb_rows (ep_orders two_world4)) = [(''ord-1'', 10000), (''ord-2'', 5000)]"
    by code_simp
  then obtain ord where "ord \<in> set (tb_rows (ep_orders two_world4))" "or_order_id ord = ''ord-1''" "or_amount ord = 10000"
    by (cases "tb_rows (ep_orders two_world4)") auto
  moreover have "refunded_on ''ord-1'' (ep_ledger two_world4) = 12000"
  proof -
    have "(\<Sum>(a, b, c) \<leftarrow> filter (\<lambda>(a, b, c). b = ''ord-1'')
        (map (\<lambda>r. (rf_request_id r, rf_transaction_id r, rf_amount r)) rows). c) =
        (\<Sum>r \<leftarrow> filter (\<lambda>r. rf_transaction_id r = ''ord-1'') rows. rf_amount r)" for rows
      by (induction rows) auto
    from this [of "tb_rows (ep_ledger two_world4)"] show ?thesis unfolding two_paid by (simp add: refunded_on_def)
  qed
  ultimately show ?thesis using s worker_world_inv by (intro exI [of _ \<sigma>] exI [of _ ord]) simp
qed

text \<open>
  C26. A slow worker overwrites the verdict of the one that replaced it: the sweeper gives its
  claim to a second worker, which refunds it and writes COMPLETED, and then the first writes its
  own PENDING_HUMAN_REVIEW over it; the refund is on file, the transaction asks for a human.
\<close>

theorem late_verdict_overwrites:
  "\<exists>\<sigma> row. reachable worker_call False lost_world \<sigma> \<and> sy_txns \<sigma> ''q'' = Some row \<and>
     tx_status row = ''PENDING_HUMAN_REVIEW'' \<and> sy_jobs \<sigma> = [] \<and> sy_queue \<sigma> = [] \<and>
     map rf_request_id (tb_rows (ep_ledger (sy_world \<sigma>))) = [''q'']"
proof -
  have "map rf_request_id (tb_rows (ep_ledger (snd (snd demo_paid)))) =
      map fst (map (\<lambda>r. (rf_request_id r, rf_amount r)) (tb_rows (ep_ledger (snd (snd demo_paid)))))" by simp
  then have "map rf_request_id (tb_rows (ep_ledger (snd (snd demo_paid)))) = [''q'']"
    unfolding conjunct2 [OF demo_paid_runs] by simp
  with overwritten_run [of False] show ?thesis by metis
qed

end
