(* ===== verification/Chunking.thy ===== *)
theory Chunking
  imports Prelude "HOL-Library.Sublist"
begin

text \<open>
  Chunking for ingestion (\<open>src/core/services/chunking.py\<close>): Markdown is cut at blank lines, the
  paragraphs are packed into chunks greedily, a heading moves on with what follows it, and each
  chunk after the first opens with the tail of the one before. The lemmas follow the paragraphs
  through the packing loop: none is lost, cut or moved.
\<close>

section \<open>chunk_markdown\<close>

definition newline :: char where
  "newline = CHR 0x0A"

definition is_heading :: "string \<Rightarrow> bool" where
  "is_heading paragraph \<longleftrightarrow> prefix ''#'' paragraph \<and> newline \<notin> set paragraph"

text \<open>\<open>text.split("\n\n")\<close>: from left to right, no overlaps.\<close>

fun split_blank :: "string \<Rightarrow> string \<Rightarrow> string list" where
  "split_blank acc (a # b # s) =
     (if a = newline \<and> b = newline then rev acc # split_blank [] s else split_blank (a # acc) (b # s))"
| "split_blank acc s = [rev acc @ s]"

definition paragraphs_of :: "string \<Rightarrow> string list" where
  "paragraphs_of text = filter (\<lambda>p. p \<noteq> []) (map strip (split_blank [] text))"

abbreviation blank_line :: string where
  "blank_line \<equiv> [CHR 0x0A, CHR 0x0A]"

text \<open>\<open>finished[-n:]\<close>, with the special case of an overlap of zero.\<close>

definition overlap_tail :: "nat \<Rightarrow> string \<Rightarrow> string" where
  "overlap_tail n s = (if n = 0 then [] else drop (length s - n) s)"

definition lead_in :: "string \<Rightarrow> string list" where
  "lead_in tail = (if tail = [] then [] else [tail])"

text \<open>The loop over the paragraphs, with the chunks finished so far and the open one.\<close>

definition step_out :: "nat \<Rightarrow> string list \<Rightarrow> string \<Rightarrow> string \<times> string list" where
  "step_out overlap current paragraph =
     (let (kept, carried) =
            (if 1 < length current \<and> is_heading (last current) then (butlast current, [last current])
             else (current, []));
          finished = join blank_line kept
      in (finished, lead_in (overlap_tail overlap finished) @ carried @ [paragraph]))"

fun pack :: "nat \<Rightarrow> nat \<Rightarrow> string list \<Rightarrow> string list \<Rightarrow> string list" where
  "pack limit overlap current [] = (if current = [] then [] else [join blank_line current])"
| "pack limit overlap current (paragraph # rest) =
     (if current = [] \<or> length (join blank_line (current @ [paragraph])) \<le> limit
      then pack limit overlap (current @ [paragraph]) rest
      else (let (finished, next) = step_out overlap current paragraph in finished # pack limit overlap next rest))"

text \<open>The sizes are natural numbers here; the callers use the defaults or positive ones.\<close>

definition chunk_markdown :: "string \<Rightarrow> nat \<Rightarrow> nat \<Rightarrow> string list res" where
  "chunk_markdown text chunk_size chunk_overlap =
     (if chunk_size \<le> chunk_overlap
      then Inl (Exn ''ValueError'' ''chunk_overlap must be smaller than chunk_size'')
      else Inr (pack chunk_size chunk_overlap [] (paragraphs_of text)))"

section \<open>The chunks as lists of paragraphs\<close>

text \<open>
  The same loop with its paragraphs kept apart from the overlap: a chunk is the overlap it opens
  with and the paragraphs it adds.
\<close>

definition chunk_text :: "string \<times> string list \<Rightarrow> string" where
  "chunk_text c = join blank_line (lead_in (fst c) @ snd c)"

fun pack_parts :: "nat \<Rightarrow> nat \<Rightarrow> string \<times> string list \<Rightarrow> string list \<Rightarrow> (string \<times> string list) list" where
  "pack_parts limit overlap cur [] = [cur]"
| "pack_parts limit overlap cur (p # rest) =
     (if length (chunk_text (fst cur, snd cur @ [p])) \<le> limit
      then pack_parts limit overlap (fst cur, snd cur @ [p]) rest
      else if 1 < length (lead_in (fst cur) @ snd cur) \<and> is_heading (last (snd cur))
      then (fst cur, butlast (snd cur)) #
           pack_parts limit overlap (overlap_tail overlap (chunk_text (fst cur, butlast (snd cur))), [last (snd cur), p]) rest
      else cur # pack_parts limit overlap (overlap_tail overlap (chunk_text cur), [p]) rest)"

lemma pack_is_parts:
  assumes "snd cur \<noteq> []"
  shows "pack limit overlap (lead_in (fst cur) @ snd cur) rest =
    map chunk_text (pack_parts limit overlap cur rest)"
  using assms
proof (induction rest arbitrary: cur)
  case Nil
  then show ?case by (simp add: chunk_text_def)
next
  case (Cons p rest)
  obtain t ps where cur: "cur = (t, ps)" by (cases cur)
  with Cons.prems have ne: "ps \<noteq> []" by simp
  show ?case
  proof (cases "length (chunk_text (t, ps @ [p])) \<le> limit")
    case True
    then have "length (join blank_line ((lead_in t @ ps) @ [p])) \<le> limit" by (simp add: chunk_text_def)
    with True Cons.IH [of "(t, ps @ [p])"] cur show ?thesis by simp
  next
    case False
    then have f: "pack limit overlap (lead_in t @ ps) (p # rest) =
        (let (finished, next) = step_out overlap (lead_in t @ ps) p in finished # pack limit overlap next rest)"
      using ne by (simp add: chunk_text_def)
    show ?thesis
    proof (cases "1 < length (lead_in t @ ps) \<and> is_heading (last ps)")
      case True
      then have "step_out overlap (lead_in t @ ps) p = (chunk_text (t, butlast ps),
          lead_in (overlap_tail overlap (chunk_text (t, butlast ps))) @ [last ps, p])"
        using ne by (simp add: step_out_def chunk_text_def Let_def butlast_append)
      with f Cons.IH [of "(overlap_tail overlap (chunk_text (t, butlast ps)), [last ps, p])"] False True cur
      show ?thesis by simp
    next
      case no: False
      then have "step_out overlap (lead_in t @ ps) p = (chunk_text (t, ps), lead_in (overlap_tail overlap (chunk_text (t, ps))) @ [p])"
        using ne by (auto simp: step_out_def chunk_text_def Let_def)
      with f Cons.IH [of "(overlap_tail overlap (chunk_text (t, ps)), [p])"] False no cur show ?thesis by auto
    qed
  qed
qed

lemma parts_paragraphs:
  "concat (map snd (pack_parts limit overlap cur rest)) = snd cur @ rest"
  if "snd cur \<noteq> []"
  using that
proof (induction limit overlap cur rest rule: pack_parts.induct)
  case (2 limit overlap cur p rest)
  then show ?case by (cases "snd cur" rule: rev_cases) auto
qed simp

text \<open>Each chunk opens with the tail of the one before.\<close>

fun chained :: "nat \<Rightarrow> string \<Rightarrow> (string \<times> string list) list \<Rightarrow> bool" where
  "chained overlap lead [] = True"
| "chained overlap lead (c # cs) = (fst c = lead \<and> chained overlap (overlap_tail overlap (chunk_text c)) cs)"

lemma parts_chained: "chained overlap (fst cur) (pack_parts limit overlap cur rest)"
  by (induction limit overlap cur rest rule: pack_parts.induct) simp_all

lemma join_butlast_length: "length (join sep (xs @ ys)) \<le> length (join sep (xs @ ys @ [y]))"
proof (induction xs)
  case Nil
  show ?case
  proof (induction ys)
    case (Cons z zs)
    then show ?case by (cases zs) simp_all
  qed simp
next
  case (Cons x xs)
  show ?case
  proof (cases "xs @ ys")
    case Nil
    then show ?thesis by simp
  next
    case (Cons z zs)
    then have "xs @ ys \<noteq> []" "xs @ ys @ [y] \<noteq> []" by auto
    with Cons.IH show ?thesis by (simp add: join_Cons)
  qed
qed

lemma chunk_text_butlast: "ps \<noteq> [] \<Longrightarrow> length (chunk_text (t, butlast ps)) \<le> length (chunk_text (t, ps))"
  using join_butlast_length [of blank_line "lead_in t" "butlast ps" "last ps"] by (simp add: chunk_text_def)

definition fits :: "nat \<Rightarrow> string \<times> string list \<Rightarrow> bool" where
  "fits limit c \<longleftrightarrow> length (chunk_text c) \<le> limit \<or> length (snd c) \<le> 2"

lemma parts_fit:
  "snd cur \<noteq> [] \<Longrightarrow> fits limit cur \<Longrightarrow> list_all (fits limit) (pack_parts limit overlap cur rest)"
proof (induction limit overlap cur rest rule: pack_parts.induct)
  case (2 limit overlap cur p rest)
  have "fits limit (fst cur, butlast (snd cur))"
    using 2(4,5) chunk_text_butlast [of "snd cur" "fst cur"] by (cases cur) (auto simp: fits_def)
  with 2 show ?case by (auto simp: fits_def)
qed simp

lemma tail_suffix: "suffix (overlap_tail n s) s \<and> length (overlap_tail n s) = min n (length s)"
  by (auto simp: overlap_tail_def suffix_drop)

section \<open>Properties\<close>

text \<open>
  C28. Chunking keeps the document: the chunks' own paragraphs, one after the other, are exactly
  the document's non-blank paragraphs in their order, none cut or lost; each chunk after the
  first opens with the last characters of the one before, as many as the overlap asks for; a
  chunk over the size has at most two paragraphs of its own; there is no chunk exactly when the
  document is blank, and an overlap that is not smaller than the size raises \<open>ValueError\<close>.
\<close>

theorem chunks_keep_document:
  "(case chunk_markdown text chunk_size chunk_overlap of
      Inl e \<Rightarrow> chunk_size \<le> chunk_overlap \<and> exn_class e = ''ValueError''
    | Inr chunks \<Rightarrow> chunk_overlap < chunk_size \<and> (chunks = [] \<longleftrightarrow> paragraphs_of text = []) \<and>
       (\<exists>parts. chunks = map chunk_text parts \<and> concat (map snd parts) = paragraphs_of text \<and>
          chained chunk_overlap [] parts \<and>
          list_all (\<lambda>c. length (chunk_text c) \<le> chunk_size \<or> length (snd c) \<le> 2) parts))"
proof (cases "chunk_size \<le> chunk_overlap")
  case True
  then show ?thesis by (simp add: chunk_markdown_def)
next
  case False
  show ?thesis
  proof (cases "paragraphs_of text")
    case Nil
    with False show ?thesis by (simp add: chunk_markdown_def)
  next
    case (Cons p ps)
    let ?parts = "pack_parts chunk_size chunk_overlap ([], [p]) ps"
    have "pack chunk_size chunk_overlap [] (p # ps) = map chunk_text ?parts"
      using pack_is_parts [of "([], [p])" chunk_size chunk_overlap ps] by (simp add: lead_in_def)
    moreover have c: "concat (map snd ?parts) = p # ps" using parts_paragraphs [of "([], [p])"] by simp
    moreover have "chained chunk_overlap [] ?parts" using parts_chained [of chunk_overlap "([], [p])"] by simp
    moreover have "list_all (fits chunk_size) ?parts" by (rule parts_fit) (simp_all add: fits_def)
    then have "list_all (\<lambda>c. length (chunk_text c) \<le> chunk_size \<or> length (snd c) \<le> 2) ?parts"
      by (simp add: list_all_iff fits_def)
    moreover have "?parts \<noteq> []" using c by (metis concat.simps(1) list.distinct(1) list.simps(8))
    ultimately show ?thesis using False Cons
      by (simp add: chunk_markdown_def) (intro exI [of _ ?parts], simp)
  qed
qed

text \<open>
  What the documentation of the function rules out does happen: a heading that fills a chunk
  alone stays at its end when the paragraph under it is too long, a chunk of the tail, a heading
  and a short paragraph can exceed the maximum, and a heading that is carried on can leave a
  chunk that only repeats the tail of the one before.
\<close>

theorem chunk_heading_stranded:
  "chunk_markdown (''# H'' @ blank_line @ ''abcdefgh'') 8 2 = Inr [''# H'', '' H'' @ blank_line @ ''abcdefgh''] \<and>
   is_heading ''# H'' \<and>
   chunk_markdown (''abcdefgh'' @ blank_line @ ''# H'' @ blank_line @ ''ijklmnop'') 9 2 =
     Inr [''abcdefgh'', ''gh'', ''gh'' @ blank_line @ ''# H'' @ blank_line @ ''ijklmnop'']"
  by code_simp

end
