(* ===== verification/Knowledge.thy ===== *)
theory Knowledge
  imports Llm Tables Chunking
begin

text \<open>
  The policy knowledge base: its repository (\<open>src/core/repositories/knowledge_base_repository.py\<close>),
  the service over it (\<open>src/core/services/retrieval_service.py\<close>) and the ingestion script
  (\<open>scripts/ingest_knowledge_base.py\<close>). The embeddings client and pgvector's cosine distance are
  not part of the repository: an embedding function that may raise, and a distance, are
  arguments. A transaction that is rolled back gives the rows back, not the sequence values.
\<close>

section \<open>knowledge_base_repository\<close>

type_synonym vector = "pyfloat list"
type_synonym kb_table = "knowledge_row table"

text \<open>The \<open>vector(768)\<close> column takes no other dimension.\<close>

definition insert_chunk ::
  "time \<Rightarrow> string \<Rightarrow> string \<Rightarrow> string \<Rightarrow> vector \<Rightarrow> kb_table \<Rightarrow> kb_table res" where
  "insert_chunk now source tier content embedding t =
     (if length embedding = EMBEDDING_DIM
      then Inr (insert_row (\<lambda>i. \<lparr>kb_id = i, kb_source = source, kb_source_tier = tier, kb_content = content,
                  kb_embedding = embedding, kb_created_at = now, kb_updated_at = now\<rparr>) t)
      else raise_exn ''DBAPIError'')"

definition delete_by_source :: "string \<Rightarrow> kb_table \<Rightarrow> int \<times> kb_table" where
  "delete_by_source source t =
     (let keep = filter (\<lambda>r. kb_source r \<noteq> source) (tb_rows t)
      in (int (length (tb_rows t)) - int (length keep), t\<lparr>tb_rows := keep\<rparr>))"

definition find_most_similar :: "(vector \<Rightarrow> vector \<Rightarrow> rat) \<Rightarrow> vector \<Rightarrow> nat \<Rightarrow> kb_table \<Rightarrow> knowledge_row list" where
  "find_most_similar distance embedding limit t =
     take limit (sort_key (\<lambda>r. distance (kb_embedding r) embedding) (tb_rows t))"

section \<open>retrieval_service\<close>

text \<open>The inserts of the loop; \<open>zip(..., strict=True)\<close> raises when one side is longer.\<close>

fun insert_chunks ::
  "time \<Rightarrow> string \<Rightarrow> string \<Rightarrow> string list \<Rightarrow> vector list \<Rightarrow> kb_table \<Rightarrow> unit res \<times> kb_table" where
  "insert_chunks now source tier [] [] t = (Inr (), t)"
| "insert_chunks now source tier (c # cs) (v # vs) t =
     (case insert_chunk now source tier c v t of
        Inl e \<Rightarrow> (Inl e, t) | Inr t' \<Rightarrow> insert_chunks now source tier cs vs t')"
| "insert_chunks now source tier cs vs t = (raise_exn ''ValueError'', t)"

definition ingest_document ::
  "(string list \<Rightarrow> vector list res) \<Rightarrow> time \<Rightarrow> string \<Rightarrow> string \<Rightarrow> string list \<Rightarrow> kb_table \<Rightarrow> nat res \<times> kb_table" where
  "ingest_document aembed_documents now source tier chunks t =
     (if chunks = [] then (Inr 0, t)
      else case aembed_documents chunks of
             Inl e \<Rightarrow> (Inl e, t)
           | Inr vectors \<Rightarrow>
               (case insert_chunks now source tier chunks vectors (snd (delete_by_source source t)) of
                  (Inl e, t') \<Rightarrow> (Inl e, t\<lparr>tb_seq := tb_seq t'\<rparr>)
                | (Inr _, t') \<Rightarrow> (Inr (length chunks), t')))"

definition retrieve_relevant_policy ::
  "(vector \<Rightarrow> vector \<Rightarrow> rat) \<Rightarrow> (string \<Rightarrow> vector res) \<Rightarrow> string \<Rightarrow> kb_table \<Rightarrow> string option res" where
  "retrieve_relevant_policy distance aembed_query claim_text t =
     (if strip claim_text = [] then Inr None
      else bindR (aembed_query claim_text) (\<lambda>vector.
             Inr (case find_most_similar distance vector 1 t of [] \<Rightarrow> None | r # _ \<Rightarrow> Some (kb_content r))))"

section \<open>ingest_knowledge_base\<close>

text \<open>\<open>run\<close> on a file's text and name: the defaults of \<open>chunk_markdown\<close>, then the ingestion.\<close>

definition ingest_file ::
  "(string list \<Rightarrow> vector list res) \<Rightarrow> time \<Rightarrow> string \<Rightarrow> string \<Rightarrow> string \<Rightarrow> kb_table \<Rightarrow> nat res \<times> kb_table" where
  "ingest_file aembed_documents now name tier text t =
     (case chunk_markdown text 800 100 of
        Inl e \<Rightarrow> (Inl e, t)
      | Inr chunks \<Rightarrow> ingest_document aembed_documents now name tier chunks t)"

section \<open>Lemmas\<close>

definition stored :: "string \<Rightarrow> kb_table \<Rightarrow> (string \<times> string \<times> vector) list" where
  "stored source t =
     map (\<lambda>r. (kb_source_tier r, kb_content r, kb_embedding r)) (filter (\<lambda>r. kb_source r = source) (tb_rows t))"

definition other_rows :: "string \<Rightarrow> kb_table \<Rightarrow> knowledge_row list" where
  "other_rows source t = filter (\<lambda>r. kb_source r \<noteq> source) (tb_rows t)"

lemma insert_chunks_Inr:
  "insert_chunks now source tier cs vs t = (Inr u, t') \<Longrightarrow>
   length vs = length cs \<and> stored source t' = stored source t @ map (\<lambda>(c, v). (tier, c, v)) (zip cs vs) \<and>
   other_rows source t' = other_rows source t"
  by (induction now source tier cs vs t rule: insert_chunks.induct)
    (auto simp: insert_chunk_def stored_def other_rows_def split: sum.splits if_splits)

lemma insert_chunks_total:
  "length vs = length cs \<Longrightarrow> list_all (\<lambda>v. length v = EMBEDDING_DIM) vs \<Longrightarrow>
   fst (insert_chunks now source tier cs vs t) = Inr ()"
  by (induction now source tier cs vs t rule: insert_chunks.induct) (auto simp: insert_chunk_def)

lemma delete_by_source_rows:
  "stored source (snd (delete_by_source source t)) = []" "other_rows source (snd (delete_by_source source t)) = other_rows source t"
  by (auto simp: delete_by_source_def stored_def other_rows_def Let_def)

lemma nearest_is_least:
  assumes "find_most_similar distance q 1 t = r # rs"
  shows "r \<in> set (tb_rows t) \<and> rs = [] \<and> (\<forall>x \<in> set (tb_rows t). distance (kb_embedding r) q \<le> distance (kb_embedding x) q)"
proof -
  let ?k = "\<lambda>r. distance (kb_embedding r) q"
  obtain ys where y: "sort_key ?k (tb_rows t) = r # ys" "rs = []"
    using assms by (cases "sort_key ?k (tb_rows t)") (auto simp: find_most_similar_def)
  have "sorted (map ?k (r # ys))" unfolding y(1) [symmetric] by simp
  moreover have "set (tb_rows t) = set (r # ys)" unfolding y(1) [symmetric] by simp
  ultimately show ?thesis using y(2) by auto
qed

section \<open>Properties\<close>

text \<open>
  C27. Ingestion replaces a document: when it succeeds, the source's rows are exactly the
  chunks, in order, each with its vector and the tier, none left from before, and the rows of
  other sources are untouched; when it fails no row has changed; and it succeeds whenever the
  embedding returns one vector of the column's dimension per chunk.
\<close>

theorem ingest_replaces:
  assumes "chunks \<noteq> []"
  shows "(case ingest_document aembed_documents now source tier chunks t of
      (Inl e, t') \<Rightarrow> tb_rows t' = tb_rows t
    | (Inr n, t') \<Rightarrow> n = length chunks \<and> other_rows source t' = other_rows source t \<and>
        (\<exists>vs. aembed_documents chunks = Inr vs \<and> length vs = length chunks \<and>
           stored source t' = map (\<lambda>(c, v). (tier, c, v)) (zip chunks vs))) \<and>
    ((\<exists>vs. aembed_documents chunks = Inr vs \<and> length vs = length chunks \<and> list_all (\<lambda>v. length v = EMBEDDING_DIM) vs) \<longrightarrow>
      fst (ingest_document aembed_documents now source tier chunks t) = Inr (length chunks))"
proof (cases "aembed_documents chunks")
  case (Inl e)
  with assms show ?thesis by (simp add: ingest_document_def)
next
  case (Inr vs)
  let ?t = "snd (delete_by_source source t)"
  obtain r t' where i: "insert_chunks now source tier chunks vs ?t = (r, t')" by (metis prod.collapse)
  show ?thesis
  proof (cases r)
    case (Inl e)
    then have "length vs = length chunks \<and> list_all (\<lambda>v. length v = EMBEDDING_DIM) vs \<longrightarrow> False"
      using insert_chunks_total [of vs chunks now source tier ?t] i by auto
    with assms Inr i Inl show ?thesis by (auto simp: ingest_document_def)
  next
    case ok: (Inr u)
    from insert_chunks_Inr [OF i [unfolded ok]] delete_by_source_rows [of source t] assms Inr i ok
    show ?thesis by (auto simp: ingest_document_def)
  qed
qed

definition unit_vector :: "string \<Rightarrow> vector" where
  "unit_vector s = replicate EMBEDDING_DIM (Fin (Dec (int (length s)) 0))"

definition old_base :: kb_table where
  "old_base = \<lparr>tb_rows = [\<lparr>kb_id = 1, kb_source = ''policy.md'', kb_source_tier = ''official'', kb_content = ''old'',
     kb_embedding = unit_vector ''old'', kb_created_at = 0, kb_updated_at = 0\<rparr>], tb_seq = 2\<rparr>"

theorem ingest_replaces_witness:
  "\<exists>t'. ingest_document (\<lambda>cs. Inr (map unit_vector cs)) 5 ''policy.md'' ''official'' [''a'', ''bc''] old_base = (Inr 2, t') \<and>
     stored ''policy.md'' t' = [(''official'', ''a'', unit_vector ''a''), (''official'', ''bc'', unit_vector ''bc'')]"
proof -
  let ?i = "ingest_document (\<lambda>cs. Inr (map unit_vector cs)) 5 ''policy.md'' ''official'' [''a'', ''bc''] old_base"
  have ne: "[''a'', ''bc''] \<noteq> []" by simp
  note r = ingest_replaces [OF ne, where aembed_documents = "\<lambda>cs. Inr (map unit_vector cs)" and now = 5
    and source = "''policy.md''" and tier = "''official''" and t = old_base]
  have "fst ?i = Inr 2" using conjunct2 [OF r] by (simp add: unit_vector_def)
  then obtain t' where t': "?i = (Inr 2, t')" by (metis prod.collapse)
  with conjunct1 [OF r] show ?thesis by auto
qed

text \<open>
  Retrieval is the nearest chunk: a blank text or an empty base gives nothing, a failing
  embedding raises, and otherwise the result is the content of a stored row no other row is
  nearer than.
\<close>

theorem retrieval_nearest:
  "(case retrieve_relevant_policy distance aembed_query claim_text t of
      Inl e \<Rightarrow> strip claim_text \<noteq> [] \<and> aembed_query claim_text = Inl e
    | Inr None \<Rightarrow> strip claim_text = [] \<or> tb_rows t = [] \<and> (\<exists>v. aembed_query claim_text = Inr v)
    | Inr (Some content) \<Rightarrow> strip claim_text \<noteq> [] \<and>
        (\<exists>v r. aembed_query claim_text = Inr v \<and> r \<in> set (tb_rows t) \<and> kb_content r = content \<and>
           Min ((\<lambda>x. distance (kb_embedding x) v) ` set (tb_rows t)) = distance (kb_embedding r) v))"
proof (cases "strip claim_text = []")
  case True
  then show ?thesis by (simp add: retrieve_relevant_policy_def)
next
  case False
  show ?thesis
  proof (cases "aembed_query claim_text")
    case (Inl e)
    with False show ?thesis by (simp add: retrieve_relevant_policy_def)
  next
    case (Inr v)
    show ?thesis
    proof (cases "find_most_similar distance v 1 t")
      case Nil
      then have "sort_key (\<lambda>r. distance (kb_embedding r) v) (tb_rows t) = []" by (simp add: find_most_similar_def)
      then have "tb_rows t = []" by (metis set_empty set_sort)
      with False Inr Nil show ?thesis by (simp add: retrieve_relevant_policy_def)
    next
      case (Cons r rs)
      from nearest_is_least [OF this] have n: "r \<in> set (tb_rows t)"
          "\<forall>x \<in> set (tb_rows t). distance (kb_embedding r) v \<le> distance (kb_embedding x) v" by auto
      then have "Min ((\<lambda>x. distance (kb_embedding x) v) ` set (tb_rows t)) = distance (kb_embedding r) v"
        by (intro Min_eqI) auto
      with False Inr Cons n(1) show ?thesis by (auto simp: retrieve_relevant_policy_def)
    qed
  qed
qed

end
