(* ===== verification/Mock_Retrieval.thy ===== *)
theory Mock_Retrieval
  imports Knowledge
begin

text \<open>
  The development's embeddings (\<open>_DeterministicHashEmbeddings\<close> of \<open>src/agents/llm_factory.py\<close>)
  behind the policy base: every document can be ingested with them, and a text that is stored
  word for word is what a query with that text retrieves. SHA-256 and the rounding of a byte over
  255 to a float are arguments.
\<close>

definition embed_query :: "(string \<Rightarrow> nat list) \<Rightarrow> (rat \<Rightarrow> pyfloat) \<Rightarrow> nat \<Rightarrow> string \<Rightarrow> vector res" where
  "embed_query digest fl dimension text = Inr (map fl (hash_vector digest dimension text))"

definition embed_documents :: "(string \<Rightarrow> nat list) \<Rightarrow> (rat \<Rightarrow> pyfloat) \<Rightarrow> nat \<Rightarrow> string list \<Rightarrow> vector list res" where
  "embed_documents digest fl dimension texts = Inr (map (\<lambda>t. map fl (hash_vector digest dimension t)) texts)"

text \<open>A base that was filled with these embeddings, and a digest that keeps its texts apart.\<close>

definition hashed_base :: "(string \<Rightarrow> nat list) \<Rightarrow> (rat \<Rightarrow> pyfloat) \<Rightarrow> kb_table \<Rightarrow> bool" where
  "hashed_base digest fl t \<longleftrightarrow>
     list_all (\<lambda>r. embed_query digest fl EMBEDDING_DIM (kb_content r) = Inr (kb_embedding r)) (tb_rows t)"

lemma mock_client: "resolve_provider S provider = ''mock'' \<Longrightarrow> get_embeddings S pk provider = Inr (HashEmbeddings EMBEDDING_DIM)"
  by (simp add: get_embeddings_def Let_def EMBEDDING_DIM_def)

lemma hash_dimension: "length (hash_vector digest dimension text) = dimension"
  by (simp add: hash_vector_def)

text \<open>The base stays of this kind when a document is ingested.\<close>

lemma insert_chunks_hashed:
  "insert_chunks now source tier cs (map (\<lambda>c. map fl (hash_vector digest EMBEDDING_DIM c)) cs) t = (r, t') \<Longrightarrow>
   hashed_base digest fl t \<Longrightarrow> hashed_base digest fl t' \<and> kb_content ` set (tb_rows t') = kb_content ` set (tb_rows t) \<union> set cs"
proof (induction cs arbitrary: t)
  case (Cons c cs)
  obtain u where u: "insert_chunk now source tier c (map fl (hash_vector digest EMBEDDING_DIM c)) t = Inr u"
    by (simp add: insert_chunk_def hash_dimension)
  then have "hashed_base digest fl u" "kb_content ` set (tb_rows u) = insert c (kb_content ` set (tb_rows t))"
    using Cons.prems(2) by (auto simp: insert_chunk_def hash_dimension insert_row_def hashed_base_def embed_query_def)
  with Cons.IH [of u] Cons.prems(1) u show ?case by simp
qed simp

lemma mock_ingest:
  assumes "chunks \<noteq> []" "hashed_base digest fl t"
  shows "\<exists>t'. ingest_document (embed_documents digest fl EMBEDDING_DIM) now source tier chunks t = (Inr (length chunks), t') \<and>
    hashed_base digest fl t' \<and> set chunks \<subseteq> kb_content ` set (tb_rows t')"
proof -
  let ?vs = "map (\<lambda>c. map fl (hash_vector digest EMBEDDING_DIM c)) chunks"
  let ?t = "snd (delete_by_source source t)"
  obtain r t' where i: "insert_chunks now source tier chunks ?vs ?t = (r, t')" by (metis prod.collapse)
  have "hashed_base digest fl ?t" using assms(2) by (auto simp: hashed_base_def delete_by_source_def Let_def list_all_iff)
  note h = insert_chunks_hashed [OF i this]
  have "r = Inr ()" using insert_chunks_total [of ?vs chunks now source tier ?t] i
    by (auto simp: list_all_iff hash_dimension)
  with assms(1) i h show ?thesis by (auto simp: ingest_document_def embed_documents_def)
qed

text \<open>
  A query with a stored text finds that text, for a distance that is least between equal
  vectors only, and a digest whose vectors tell the stored texts apart.
\<close>

lemma mock_retrieves:
  assumes base: "hashed_base digest fl t" and q: "q \<in> kb_content ` set (tb_rows t)" "strip q \<noteq> []"
    and metric: "\<And>u v. 0 \<le> distance u v" "\<And>u v. distance u v = 0 \<longleftrightarrow> u = v"
    and apart: "inj_on (embed_query digest fl EMBEDDING_DIM) (kb_content ` set (tb_rows t))"
  shows "retrieve_relevant_policy distance (embed_query digest fl EMBEDDING_DIM) q t = Inr (Some q)"
proof -
  obtain v where v: "embed_query digest fl EMBEDDING_DIM q = Inr v" by (simp add: embed_query_def)
  from q(1) obtain x where x: "x \<in> set (tb_rows t)" "kb_content x = q" by auto
  with base v have xv: "kb_embedding x = v" by (auto simp: hashed_base_def list_all_iff)
  show ?thesis
  proof (cases "find_most_similar distance v 1 t")
    case Nil
    then have "sort_key (\<lambda>r. distance (kb_embedding r) v) (tb_rows t) = []" by (simp add: find_most_similar_def)
    then have "tb_rows t = []" by (metis set_empty set_sort)
    with x show ?thesis by simp
  next
    case (Cons r rs)
    from nearest_is_least [OF this] have n: "r \<in> set (tb_rows t)" "distance (kb_embedding r) v \<le> distance (kb_embedding x) v"
      using x(1) by auto
    moreover have "distance (kb_embedding x) v = 0" using xv metric(2) by simp
    ultimately have "kb_embedding r = v" using metric by (metis antisym)
    with base n(1) v have "embed_query digest fl EMBEDDING_DIM (kb_content r) = embed_query digest fl EMBEDDING_DIM q"
      by (auto simp: hashed_base_def list_all_iff)
    then have "kb_content r = q" using apart n(1) x by (auto dest: inj_onD)
    with q(2) v Cons show ?thesis by (simp add: retrieve_relevant_policy_def bindR_def)
  qed
qed

end
