(* ===== verification/Benchmark.thy ===== *)
theory Benchmark
  imports Json_Wire
begin

text \<open>
  The benchmark reports (\<open>evals/promptfoo/summarize.py\<close> and \<open>summarize_front_desk.py\<close>): result
  rows are grouped by model and scored against their labels. The two scripts are copies of one
  another but for the field of the reply they read, the field of the label and what they count;
  here the common steps take the fields as arguments. Means, shares and costs are exact rational
  numbers, the source's are floats; the index of the percentile is the same, since the float
  product \<open>0.95 * (n - 1)\<close> falls on a half exactly when the exact one does. Formatting the table
  is left out. Infinite and undefined latencies, which a JSON file of promptfoo cannot hold, are
  refused.
\<close>

section \<open>Reading a row\<close>

text \<open>\<open>j[k]\<close> and the conversions to a number.\<close>

definition jindex :: "json \<Rightarrow> string \<Rightarrow> json res" where
  "jindex j k = (case j of JObj d \<Rightarrow> dindex d k | _ \<Rightarrow> raise_exn ''TypeError'')"

definition hashable :: "json \<Rightarrow> json res" where
  "hashable j = (case j of JList _ \<Rightarrow> raise_exn ''TypeError'' | JObj _ \<Rightarrow> raise_exn ''TypeError'' | _ \<Rightarrow> Inr j)"

definition rat_of_float :: "pyfloat \<Rightarrow> rat res" where
  "rat_of_float f = (case f of Fin d \<Rightarrow> Inr (dec_val d) | _ \<Rightarrow> raise_exn ''OverflowError'')"

definition json_number :: "json \<Rightarrow> rat res" where
  "json_number j =
     (case j of JInt n \<Rightarrow> Inr (of_int n) | JBool b \<Rightarrow> Inr (if b then 1 else 0) | JFloat f \<Rightarrow> rat_of_float f
      | _ \<Rightarrow> raise_exn ''TypeError'')"

definition json_float :: "json \<Rightarrow> rat res" where
  "json_float j =
     (case j of JStr s \<Rightarrow> (case py_float s of None \<Rightarrow> raise_exn ''ValueError'' | Some f \<Rightarrow> rat_of_float f)
      | _ \<Rightarrow> json_number j)"

definition provider_label :: "dict \<Rightarrow> json res" where
  "provider_label result =
     bindR (dindex result ''provider'') (\<lambda>p.
     bindR (as_dict p) (\<lambda>d.
       if truthy (dget d ''label'') then Inr (dget d ''label'') else dindex d ''id''))"

text \<open>The field of the model's reply, or \<open>None\<close> when the call errored.\<close>

definition reply_field :: "string \<Rightarrow> dict \<Rightarrow> string option res" where
  "reply_field field result =
     bindR (as_dict (py_or (dget result ''response'') (JObj []))) (\<lambda>response.
       let output = dget response ''output''
       in Inr (if \<not> truthy output then None
               else case output of
                      JStr s \<Rightarrow> (case json_loads s of
                                    Some (JObj d) \<Rightarrow> map_option py_str (map_of d field)
                                  | _ \<Rightarrow> None)
                    | _ \<Rightarrow> None))"

definition intent_of_reply :: "dict \<Rightarrow> string option res" where
  "intent_of_reply = reply_field ''intent''"

definition row_var :: "string \<Rightarrow> dict \<Rightarrow> json res" where
  "row_var k result = bindR (dindex result ''vars'') (\<lambda>v. jindex v k)"

text \<open>The label of a row, after the relabels of the command line.\<close>

definition expected :: "string \<Rightarrow> (string \<times> string) list \<Rightarrow> dict \<Rightarrow> string res" where
  "expected key relabels result =
     bindR (row_var ''request_id'' result) (\<lambda>i.
     bindR (row_var key result) (\<lambda>e.
     bindR (hashable i) (\<lambda>i.
       Inr (py_str (case i of JStr s \<Rightarrow> (case map_of relabels s of None \<Rightarrow> e | Some l \<Rightarrow> JStr l) | _ \<Rightarrow> e)))))"

definition tokens :: "string \<Rightarrow> dict \<Rightarrow> rat res" where
  "tokens k result =
     bindR (dindex result ''response'') (\<lambda>p.
     bindR (as_dict p) (\<lambda>response.
     bindR (as_dict (py_or (dget response ''tokenUsage'') (JObj []))) (\<lambda>usage.
       json_number (dget_or usage k (JInt 0)))))"

definition latency :: "dict \<Rightarrow> rat res" where
  "latency result = json_float (py_or (dget result ''latencyMs'') (JInt 0))"

section \<open>Statistics\<close>

text \<open>\<open>round\<close>: a half goes to the even neighbour.\<close>

definition py_round :: "rat \<Rightarrow> int" where
  "py_round q =
     (let f = \<lfloor>q\<rfloor>; r = q - of_int f
      in if r < 1 / 2 then f else if 1 / 2 < r then f + 1 else if even f then f else f + 1)"

definition percentile :: "rat list \<Rightarrow> rat \<Rightarrow> rat" where
  "percentile values share =
     sort values ! min (length values - 1) (nat (py_round (share * of_nat (length values - 1))))"

definition median :: "rat list \<Rightarrow> rat" where
  "median values =
     (let xs = sort values; n = length xs
      in if odd n then xs ! (n div 2) else (xs ! (n div 2 - 1) + xs ! (n div 2)) / 2)"

definition fmean :: "rat list \<Rightarrow> rat" where
  "fmean xs = (if xs = [] then 0 else sum_list xs / of_nat (length xs))"

definition share_of :: "nat \<Rightarrow> nat \<Rightarrow> rat" where
  "share_of k n = (if n = 0 then 0 else of_nat k / of_nat n)"

section \<open>The summaries\<close>

record price =
  input_per_million :: rat
  output_per_million :: rat

text \<open>The fields both reports have, and those of each.\<close>

record run_summary =
  sm_provider :: json
  sm_cases :: nat
  sm_runs :: nat
  sm_errors :: nat
  sm_correct :: nat
  sm_stability :: rat
  sm_median_latency_ms :: rat
  sm_p95_latency_ms :: rat
  sm_mean_input_tokens :: rat
  sm_mean_output_tokens :: rat
  sm_cost_per_judgment :: "rat option"

record model_summary = run_summary +
  false_approvals :: nat
  false_rejections :: nat
  reject_runs :: nat

record desk_summary = run_summary +
  false_refunds :: nat
  missed_refunds :: nat
  refund_runs :: nat
  non_refund_runs :: nat

definition accuracy :: "'a run_summary_scheme \<Rightarrow> rat" where
  "accuracy s = share_of (sm_correct s) (sm_runs s)"

definition false_approval_rate :: "model_summary \<Rightarrow> rat" where
  "false_approval_rate s = share_of (false_approvals s) (reject_runs s)"

definition false_refund_rate :: "desk_summary \<Rightarrow> rat" where
  "false_refund_rate s = share_of (false_refunds s) (non_refund_runs s)"

definition missed_refund_rate :: "desk_summary \<Rightarrow> rat" where
  "missed_refund_rate s = share_of (missed_refunds s) (refund_runs s)"

text \<open>\<open>by_provider\<close>: the rows of each label, in first-seen order.\<close>

definition add_to :: "'k \<Rightarrow> 'v \<Rightarrow> ('k \<times> 'v list) list \<Rightarrow> ('k \<times> 'v list) list" where
  "add_to k v g = AList.update k ((case map_of g k of None \<Rightarrow> [] | Some vs \<Rightarrow> vs) @ [v]) g"

fun by_provider :: "(json \<times> dict list) list \<Rightarrow> dict list \<Rightarrow> (json \<times> dict list) list res" where
  "by_provider g [] = Inr g"
| "by_provider g (result # results) =
     bindR (provider_label result) (\<lambda>p. bindR (hashable p) (\<lambda>p. by_provider (add_to p result g) results))"

text \<open>The rows with an answer, and the answers of each case.\<close>

definition scored_rows :: "string \<Rightarrow> dict list \<Rightarrow> (dict \<times> string) list res" where
  "scored_rows field rows =
     bindR (mapR (\<lambda>r. bindR (reply_field field r) (\<lambda>v. Inr (map_option (Pair r) v))) rows) (\<lambda>os.
       Inr (List.map_filter id os))"

fun answers_per_case :: "(json \<times> string list) list \<Rightarrow> (dict \<times> string) list \<Rightarrow> (json \<times> string list) list res" where
  "answers_per_case g [] = Inr g"
| "answers_per_case g ((r, v) # scored) =
     bindR (row_var ''request_id'' r) (\<lambda>i. bindR (hashable i) (\<lambda>i. answers_per_case (add_to i v g) scored))"

definition is_stable :: "string list \<Rightarrow> bool" where
  "is_stable answers \<longleftrightarrow> length (remdups answers) = 1"

text \<open>What one model's rows give; the second part pairs each label with the answer.\<close>

definition run_stats ::
  "string \<Rightarrow> string \<Rightarrow> (string \<times> price) list \<Rightarrow> (string \<times> string) list \<Rightarrow> json \<times> dict list
   \<Rightarrow> (run_summary \<times> (string \<times> string) list) res" where
  "run_stats field key prices relabels grp =
     (let (provider, rows) = grp in
      bindR (scored_rows field rows) (\<lambda>scored.
      bindR (answers_per_case [] scored) (\<lambda>cases.
      bindR (mapR (\<lambda>(r, _). tokens ''prompt'' r) scored) (\<lambda>ins.
      bindR (mapR (\<lambda>(r, _). tokens ''completion'' r) scored) (\<lambda>outs.
      bindR (mapR (\<lambda>(r, _). latency r) scored) (\<lambda>ls.
      bindR (mapR (\<lambda>(r, v). bindR (expected key relabels r) (\<lambda>e. Inr (e, v))) scored) (\<lambda>pairs.
        let latencies = (if ls = [] then [0] else ls)
        in Inr (\<lparr>sm_provider = provider, sm_cases = length cases, sm_runs = length scored,
                 sm_errors = length rows - length scored,
                 sm_correct = length (filter (\<lambda>(e, v). v = e) pairs),
                 sm_stability = share_of (length (filter (\<lambda>c. is_stable (snd c)) cases)) (length cases),
                 sm_median_latency_ms = median latencies, sm_p95_latency_ms = percentile latencies (95 / 100),
                 sm_mean_input_tokens = fmean ins, sm_mean_output_tokens = fmean outs,
                 sm_cost_per_judgment = map_option (\<lambda>p.
                   (fmean ins * input_per_million p + fmean outs * output_per_million p) / 1000000)
                   (case provider of JStr l \<Rightarrow> map_of prices l | _ \<Rightarrow> None)\<rparr>, pairs))))))))"

definition count_pairs :: "(string \<Rightarrow> string \<Rightarrow> bool) \<Rightarrow> (string \<times> string) list \<Rightarrow> nat" where
  "count_pairs P ps = length (filter (\<lambda>(e, v). P e v) ps)"

definition summarize ::
  "dict list \<Rightarrow> (string \<times> price) list \<Rightarrow> (string \<times> string) list \<Rightarrow> model_summary list res" where
  "summarize results prices relabels =
     bindR (by_provider [] results) (\<lambda>groups.
       mapR (\<lambda>g. bindR (run_stats ''verdict'' ''expected'' prices relabels g) (\<lambda>(s, ps).
               Inr (run_summary.extend s (model_summary.fields
                      (count_pairs (\<lambda>e v. e = ''REJECT'' \<and> v = ''APPROVE'') ps)
                      (count_pairs (\<lambda>e v. e = ''APPROVE'' \<and> v = ''REJECT'') ps)
                      (count_pairs (\<lambda>e v. e = ''REJECT'') ps))))) groups)"

definition summarize_desk ::
  "dict list \<Rightarrow> (string \<times> price) list \<Rightarrow> (string \<times> string) list \<Rightarrow> desk_summary list res" where
  "summarize_desk results prices relabels =
     bindR (by_provider [] results) (\<lambda>groups.
       mapR (\<lambda>g. bindR (run_stats ''intent'' ''expected_intent'' prices relabels g) (\<lambda>(s, ps).
               Inr (run_summary.extend s (desk_summary.fields
                      (count_pairs (\<lambda>e v. e \<noteq> ''refund'' \<and> v = ''refund'') ps)
                      (count_pairs (\<lambda>e v. e = ''refund'' \<and> v \<noteq> ''refund'') ps)
                      (count_pairs (\<lambda>e v. e = ''refund'') ps)
                      (count_pairs (\<lambda>e v. e \<noteq> ''refund'') ps))))) groups)"

section \<open>The command line\<close>

definition LABELS :: "string list" where
  "LABELS = [''APPROVE'', ''REJECT'']"

definition DESK_LABELS :: "string list" where
  "DESK_LABELS = [''refund'', ''clarify'', ''out_of_scope'']"

text \<open>\<open>pair.partition("=")\<close>, and the dictionary of the pairs; a repeated case keeps the last label.\<close>

definition partition_eq :: "string \<Rightarrow> string \<times> string" where
  "partition_eq pair = (takeWhile (\<lambda>c. c \<noteq> CHR ''='') pair, tl (dropWhile (\<lambda>c. c \<noteq> CHR ''='') pair))"

fun parse_pairs :: "string list \<Rightarrow> (string \<times> string) list \<Rightarrow> string list \<Rightarrow> (string \<times> string) list res" where
  "parse_pairs labels acc [] = Inr acc"
| "parse_pairs labels acc (pair # pairs) =
     (let (case_id, label) = partition_eq pair
      in if label \<in> set labels then parse_pairs labels (AList.update case_id label acc) pairs
         else raise_exn ''ValueError'')"

definition parse_relabel :: "string list \<Rightarrow> (string \<times> string) list res" where
  "parse_relabel = parse_pairs LABELS []"

definition parse_desk_relabel :: "string list \<Rightarrow> (string \<times> string) list res" where
  "parse_desk_relabel = parse_pairs DESK_LABELS []"

text \<open>A row reduced to what the report reads.\<close>

definition COMPACT_RESPONSE_KEYS :: "string list" where
  "COMPACT_RESPONSE_KEYS = [''output'', ''tokenUsage'']"

definition keep_keys :: "string list \<Rightarrow> dict \<Rightarrow> dict" where
  "keep_keys ks d = List.map_filter (\<lambda>k. map_option (Pair k) (map_of d k)) ks"

definition compact_row :: "string \<Rightarrow> dict \<Rightarrow> dict res" where
  "compact_row key result =
     bindR (provider_label result) (\<lambda>label.
     bindR (as_dict (py_or (dget result ''testCase'') (JObj []))) (\<lambda>test_case.
     bindR (row_var ''request_id'' result) (\<lambda>i.
     bindR (row_var key result) (\<lambda>e.
     bindR (if truthy (dget result ''response'')
            then bindR (as_dict (dget result ''response'')) (\<lambda>r. Inr (JObj (keep_keys COMPACT_RESPONSE_KEYS r)))
            else Inr JNull) (\<lambda>response.
       Inr [(''provider'', JObj [(''label'', label)]),
            (''description'', dget test_case ''description''),
            (''vars'', JObj [(''request_id'', i), (key, e)]),
            (''response'', response),
            (''latencyMs'', dget result ''latencyMs'')])))))"

definition compact_result :: "dict \<Rightarrow> dict res" where
  "compact_result = compact_row ''expected''"

definition compact_desk :: "dict \<Rightarrow> dict res" where
  "compact_desk = compact_row ''expected_intent''"

definition row_dict :: "json \<Rightarrow> dict res" where
  "row_dict j = (case j of JObj d \<Rightarrow> Inr d | _ \<Rightarrow> raise_exn ''TypeError'')"

text \<open>The rows of a results file: promptfoo nests them, a compact file does not.\<close>

definition result_rows :: "json \<Rightarrow> dict list res" where
  "result_rows data =
     bindR (jindex data ''results'') (\<lambda>r.
     bindR (case r of JObj d \<Rightarrow> dindex d ''results'' | _ \<Rightarrow> Inr r) (\<lambda>rows.
     bindR (py_list rows) (mapR row_dict)))"

definition load_prices :: "json \<Rightarrow> (string \<times> price) list res" where
  "load_prices data =
     bindR (as_dict data) (\<lambda>d.
     bindR (as_dict (py_or (dget d ''models'') (JObj []))) (\<lambda>models.
       mapR (\<lambda>(label, p).
         bindR (jindex p ''input_per_million'') (\<lambda>i. bindR (json_float i) (\<lambda>i.
         bindR (jindex p ''output_per_million'') (\<lambda>out. bindR (json_float out) (\<lambda>out.
           Inr (label, \<lparr>input_per_million = i, output_per_million = out\<rparr>)))))) models))"

definition report :: "json \<Rightarrow> (string \<times> price) list \<Rightarrow> string list \<Rightarrow> model_summary list res" where
  "report data prices relabel =
     bindR (result_rows data) (\<lambda>rows. bindR (parse_relabel relabel) (summarize rows prices))"

definition desk_report :: "json \<Rightarrow> (string \<times> price) list \<Rightarrow> string list \<Rightarrow> desk_summary list res" where
  "desk_report data prices relabel =
     bindR (result_rows data) (\<lambda>rows. bindR (parse_desk_relabel relabel) (summarize_desk rows prices))"

text \<open>What \<open>--save-compact\<close> writes.\<close>

definition saved :: "(dict \<Rightarrow> dict res) \<Rightarrow> json \<Rightarrow> json res" where
  "saved f data =
     bindR (result_rows data) (\<lambda>rows. bindR (mapR f rows) (\<lambda>cs. Inr (JObj [(''results'', JList (map JObj cs))])))"

section \<open>Lemmas on the statistics\<close>

lemma py_round_near: "q - 1 / 2 \<le> of_int (py_round q)" "of_int (py_round q) \<le> q + 1 / 2"
proof -
  define f where "f = \<lfloor>q\<rfloor>"
  then have "of_int f \<le> q" "q < of_int f + 1" by linarith+
  moreover have "py_round q = (if q - of_int f < 1 / 2 then f else if 1 / 2 < q - of_int f then f + 1
      else if even f then f else f + 1)"
    by (simp add: py_round_def f_def Let_def)
  ultimately show "q - 1 / 2 \<le> of_int (py_round q)" "of_int (py_round q) \<le> q + 1 / 2"
    by (simp_all split: if_splits)
qed

lemma percentile_index:
  assumes "0 < n"
  shows "n div 2 \<le> min (n - 1) (nat (py_round (95 / 100 * of_nat (n - 1))))"
proof (cases "n = 1")
  case False
  with assms have n: "2 \<le> n" by simp
  have gap: "95 / 100 * (x - 1) - 1 / 2 \<le> m \<Longrightarrow> d \<le> x / 2 \<Longrightarrow> 2 \<le> x \<Longrightarrow> d - 1 < m" for x m d :: rat
    by (simp add: field_simps)
  let ?m = "py_round (95 / 100 * rat_of_nat (n - 1))"
  have "95 / 100 * rat_of_nat (n - 1) - 1 / 2 \<le> of_int ?m"
    by (rule py_round_near)
  then have "95 / 100 * (rat_of_nat n - 1) - 1 / 2 \<le> of_int ?m" using n by (simp add: of_nat_diff)
  moreover have "rat_of_nat (n div 2) \<le> rat_of_nat n / 2"
    by (metis (mono_tags) div_mult_self_is_m of_nat_div_le_of_nat of_nat_numeral)
  moreover have "2 \<le> rat_of_nat n" using n by simp
  ultimately have "rat_of_nat (n div 2) - 1 < of_int ?m" by (rule gap)
  then have "of_int (int (n div 2) - 1) < (of_int ?m :: rat)" by simp
  then have "int (n div 2) \<le> ?m" by (simp only: of_int_less_iff)
  then have "n div 2 \<le> nat ?m" by linarith
  moreover have "n div 2 \<le> n - 1" using n by linarith
  ultimately show ?thesis by (rule min.boundedI [rotated])
qed simp

lemma median_le_p95:
  assumes "values \<noteq> []"
  shows "median values \<le> percentile values (95 / 100)"
proof -
  let ?xs = "sort values"
  let ?n = "length values"
  let ?k = "min (?n - 1) (nat (py_round (95 / 100 * of_nat (?n - 1))))"
  have n: "0 < ?n" using assms by simp
  have k1: "?n div 2 \<le> ?k" by (rule percentile_index [OF n])
  have "?k \<le> ?n - 1" by (rule min.cobounded1)
  then have k2: "?k < length ?xs" using n by (simp only: length_sort)
  note k = k1 k2
  have up: "?xs ! (?n div 2) \<le> ?xs ! ?k" using k by (intro sorted_nth_mono) simp_all
  have "?xs ! (?n div 2 - 1) \<le> ?xs ! (?n div 2)" using k by (intro sorted_nth_mono) simp_all
  with up show ?thesis by (simp add: median_def percentile_def Let_def)
qed

lemma share_bounds: "k \<le> n \<Longrightarrow> 0 \<le> share_of k n \<and> share_of k n \<le> 1"
  by (auto simp: share_of_def divide_le_eq)

section \<open>Lemmas on the groups\<close>

definition rows_of :: "'k \<Rightarrow> ('k \<times> 'v list) list \<Rightarrow> 'v list" where
  "rows_of k g = (case map_of g k of None \<Rightarrow> [] | Some vs \<Rightarrow> vs)"

lemma add_to_keys: "distinct (map fst g) \<Longrightarrow> distinct (map fst (add_to k v g))"
  by (simp add: add_to_def distinct_update)

lemma rows_of_add_to: "rows_of p (add_to k v g) = rows_of p g @ (if p = k then [v] else [])"
  by (simp add: rows_of_def add_to_def update_conv')

lemma total_add_to: "distinct (map fst g) \<Longrightarrow> (\<Sum>x \<leftarrow> add_to k v g. length (snd x)) = (\<Sum>x \<leftarrow> g. length (snd x)) + 1"
proof (induction g)
  case (Cons kv g)
  show ?case
  proof (cases "fst kv = k")
    case True
    then show ?thesis by (cases kv) (simp add: add_to_def)
  next
    case False
    with Cons show ?thesis by (cases kv) (simp add: add_to_def)
  qed
qed (simp add: add_to_def)

lemma by_provider_groups:
  "by_provider g results = Inr g' \<Longrightarrow> distinct (map fst g) \<Longrightarrow>
   distinct (map fst g') \<and> (\<Sum>x \<leftarrow> g'. length (snd x)) = (\<Sum>x \<leftarrow> g. length (snd x)) + length results \<and>
   (\<forall>p. rows_of p g' = rows_of p g @ filter (\<lambda>r. provider_label r = Inr p) results)"
proof (induction g results rule: by_provider.induct)
  case (2 g result results)
  from 2(2) obtain p q where p: "provider_label result = Inr p" "hashable p = Inr q"
    "by_provider (add_to q result g) results = Inr g'"
    by (auto simp: res_simps)
  then have "q = p" by (auto simp: hashable_def split: json.splits)
  with p have r: "provider_label result = Inr p" "by_provider (add_to p result g) results = Inr g'" by simp_all
  from 2(1) [OF r(2) add_to_keys [OF 2(3)]] r(1) 2(3) show ?case
    by (auto simp: total_add_to rows_of_add_to)
qed simp

section \<open>Lemmas on the summaries\<close>

lemma mapR_list_all2: "mapR f xs = Inr ys \<longleftrightarrow> list_all2 (\<lambda>x y. f x = Inr y) xs ys"
  by (induction xs arbitrary: ys) (auto simp: res_simps list_all2_Cons1)

lemma scored_length: "scored_rows field rows = Inr scored \<Longrightarrow> length scored \<le> length rows"
proof -
  assume "scored_rows field rows = Inr scored"
  then obtain os where "length os = length rows" "scored = List.map_filter id os"
    by (auto simp: scored_rows_def res_simps dest: mapR_length)
  then show ?thesis by (simp add: List.map_filter_def order_trans [OF length_filter_le])
qed

lemma count_pairs_disjoint:
  "(\<And>e v. \<not> (P e v \<and> Q e v)) \<Longrightarrow> (\<And>e v. P e v \<or> Q e v \<Longrightarrow> R e v) \<Longrightarrow>
   count_pairs P ps + count_pairs Q ps \<le> count_pairs R ps"
  by (induction ps) (auto simp: count_pairs_def)

lemma count_pairs_mono: "(\<And>e v. P e v \<Longrightarrow> Q e v) \<Longrightarrow> count_pairs P ps \<le> count_pairs Q ps"
  by (induction ps) (auto simp: count_pairs_def)

lemma count_pairs_all: "count_pairs P ps \<le> length ps"
  by (simp add: count_pairs_def)

definition stats_ok :: "run_summary \<Rightarrow> (string \<times> string) list \<Rightarrow> json \<times> dict list \<Rightarrow> bool" where
  "stats_ok s ps g \<longleftrightarrow>
     sm_provider s = fst g \<and> length ps = sm_runs s \<and> sm_runs s + sm_errors s = length (snd g) \<and>
     sm_correct s = count_pairs (\<lambda>e v. v = e) ps \<and> 0 \<le> sm_stability s \<and> sm_stability s \<le> 1 \<and>
     sm_median_latency_ms s \<le> sm_p95_latency_ms s"

lemma run_stats_ok: "run_stats field key prices relabels g = Inr (s, ps) \<Longrightarrow> stats_ok s ps g"
proof -
  assume r: "run_stats field key prices relabels g = Inr (s, ps)"
  obtain provider rows where g: "g = (provider, rows)" by (cases g)
  have m: "median (if ls = [] then [0] else ls) \<le> percentile (if ls = [] then [0] else ls) (19 / 20)" for ls
    using median_le_p95 [of "if ls = [] then [0] else ls"] by simp
  show ?thesis using r unfolding g run_stats_def Let_def split
    by (auto simp: res_simps stats_ok_def count_pairs_def m share_bounds dest: scored_length mapR_length)
qed

definition accounts :: "dict list \<Rightarrow> 'a run_summary_scheme list \<Rightarrow> bool" where
  "accounts results ss \<longleftrightarrow>
     distinct (map sm_provider ss) \<and> (\<Sum>s \<leftarrow> ss. sm_runs s + sm_errors s) = length results \<and>
     list_all (\<lambda>s. sm_runs s + sm_errors s = length (filter (\<lambda>r. provider_label r = Inr (sm_provider s)) results) \<and>
       0 \<le> accuracy s \<and> accuracy s \<le> 1 \<and> 0 \<le> sm_stability s \<and> sm_stability s \<le> 1 \<and>
       sm_median_latency_ms s \<le> sm_p95_latency_ms s) ss"

lemma summaries_account:
  assumes g: "by_provider [] results = Inr groups"
    and ss: "list_all2 (\<lambda>g s. \<exists>b ps. run_stats field key prices relabels g = Inr (b, ps) \<and> s = run_summary.extend b (f ps)) groups ss"
  shows "accounts results ss"
proof -
  from by_provider_groups [OF g] have d: "distinct (map fst groups)"
    "(\<Sum>x \<leftarrow> groups. length (snd x)) = length results"
    "\<And>p. rows_of p groups = filter (\<lambda>r. provider_label r = Inr p) results"
    by (simp_all add: rows_of_def)
  have ok: "list_all2 (\<lambda>g s. sm_provider s = fst g \<and> sm_runs s + sm_errors s = length (snd g) \<and>
      0 \<le> accuracy s \<and> accuracy s \<le> 1 \<and> 0 \<le> sm_stability s \<and> sm_stability s \<le> 1 \<and>
      sm_median_latency_ms s \<le> sm_p95_latency_ms s) groups ss"
    using ss
  proof (rule list_all2_mono)
    fix g s assume "\<exists>b ps. run_stats field key prices relabels g = Inr (b, ps) \<and> s = run_summary.extend b (f ps)"
    then obtain b ps where "stats_ok b ps g" "s = run_summary.extend b (f ps)" using run_stats_ok by blast
    moreover from this have "sm_correct b \<le> sm_runs b"
      using count_pairs_all [of "\<lambda>e v. v = e" ps] by (simp add: stats_ok_def)
    ultimately show "sm_provider s = fst g \<and> sm_runs s + sm_errors s = length (snd g) \<and>
      0 \<le> accuracy s \<and> accuracy s \<le> 1 \<and> 0 \<le> sm_stability s \<and> sm_stability s \<le> 1 \<and>
      sm_median_latency_ms s \<le> sm_p95_latency_ms s"
      using share_bounds [of "sm_correct b" "sm_runs b"]
      by (simp add: stats_ok_def run_summary.defs accuracy_def)
  qed
  have k: "map sm_provider ss = map fst groups" and
    t: "(\<Sum>s \<leftarrow> ss. sm_runs s + sm_errors s) = (\<Sum>x \<leftarrow> groups. length (snd x))"
    using ok by (induction rule: list_all2_induct) simp_all
  have "length (snd g) = length (filter (\<lambda>r. provider_label r = Inr (fst g)) results)" if "g \<in> set groups" for g
    using d(1) d(3) [of "fst g"] that by (cases g) (simp add: rows_of_def)
  then show ?thesis
    using ok d(1,2) k t by (auto simp: accounts_def list_all2_conv_all_nth list_all_length)
qed

text \<open>The extension of the base summary by the counts of each report.\<close>

lemma summarize_extends:
  assumes "summarize results prices relabels = Inr ss"
  shows "\<exists>groups. by_provider [] results = Inr groups \<and>
    list_all2 (\<lambda>g s. \<exists>b ps. run_stats ''verdict'' ''expected'' prices relabels g = Inr (b, ps) \<and>
      s = run_summary.extend b (model_summary.fields
        (count_pairs (\<lambda>e v. e = ''REJECT'' \<and> v = ''APPROVE'') ps)
        (count_pairs (\<lambda>e v. e = ''APPROVE'' \<and> v = ''REJECT'') ps)
        (count_pairs (\<lambda>e v. e = ''REJECT'') ps))) groups ss"
  using assms unfolding summarize_def
  by (simp add: bindR_eq_Inr mapR_list_all2) (auto simp: bindR_eq_Inr elim!: list_all2_mono)

lemma summarize_desk_extends:
  assumes "summarize_desk results prices relabels = Inr ss"
  shows "\<exists>groups. by_provider [] results = Inr groups \<and>
    list_all2 (\<lambda>g s. \<exists>b ps. run_stats ''intent'' ''expected_intent'' prices relabels g = Inr (b, ps) \<and>
      s = run_summary.extend b (desk_summary.fields
        (count_pairs (\<lambda>e v. e \<noteq> ''refund'' \<and> v = ''refund'') ps)
        (count_pairs (\<lambda>e v. e = ''refund'' \<and> v \<noteq> ''refund'') ps)
        (count_pairs (\<lambda>e v. e = ''refund'') ps)
        (count_pairs (\<lambda>e v. e \<noteq> ''refund'') ps))) groups ss"
  using assms unfolding summarize_desk_def
  by (simp add: bindR_eq_Inr mapR_list_all2) (auto simp: bindR_eq_Inr elim!: list_all2_mono)

lemma list_all2_right: "list_all2 R xs ys \<Longrightarrow> (\<And>x y. R x y \<Longrightarrow> P y) \<Longrightarrow> list_all P ys"
  by (induction rule: list_all2_induct) auto

lemma judge_counts_ok:
  "count_pairs (\<lambda>e v. v = e) ps + count_pairs (\<lambda>e v. e = ''REJECT'' \<and> v = ''APPROVE'') ps +
     count_pairs (\<lambda>e v. e = ''APPROVE'' \<and> v = ''REJECT'') ps \<le> length ps"
  "count_pairs (\<lambda>e v. e = ''REJECT'' \<and> v = ''APPROVE'') ps \<le> count_pairs (\<lambda>e v. e = ''REJECT'') ps"
  "count_pairs (\<lambda>e v. e = ''REJECT'') ps + count_pairs (\<lambda>e v. e = ''APPROVE'' \<and> v = ''REJECT'') ps \<le> length ps"
  by (induction ps) (auto simp: count_pairs_def)

lemma desk_counts_ok:
  "count_pairs (\<lambda>e v. v = e) ps + count_pairs (\<lambda>e v. e \<noteq> ''refund'' \<and> v = ''refund'') ps +
     count_pairs (\<lambda>e v. e = ''refund'' \<and> v \<noteq> ''refund'') ps \<le> length ps"
  "count_pairs (\<lambda>e v. e \<noteq> ''refund'' \<and> v = ''refund'') ps \<le> count_pairs (\<lambda>e v. e \<noteq> ''refund'') ps"
  "count_pairs (\<lambda>e v. e = ''refund'' \<and> v \<noteq> ''refund'') ps \<le> count_pairs (\<lambda>e v. e = ''refund'') ps"
  "count_pairs (\<lambda>e v. e = ''refund'') ps + count_pairs (\<lambda>e v. e \<noteq> ''refund'') ps = length ps"
  by (induction ps) (auto simp: count_pairs_def)

section \<open>Lemmas on compact rows\<close>

lemma bindR_rel:
  "rel_sum (=) R m m' \<Longrightarrow> (\<And>x y. R x y \<Longrightarrow> rel_sum (=) S (f x) (g y)) \<Longrightarrow> rel_sum (=) S (bindR m f) (bindR m' g)"
  by (cases m; cases m') auto

lemma mapR_rel:
  "list_all2 (\<lambda>x y. rel_sum (=) R (f x) (g y)) xs ys \<Longrightarrow> rel_sum (=) (list_all2 R) (mapR f xs) (mapR g ys)"
proof (induction rule: list_all2_induct)
  case (Cons x xs y ys)
  then show ?case by (auto intro!: bindR_rel)
qed simp

lemma mapR_eq: "list_all2 (\<lambda>x y. f x = g y) xs ys \<Longrightarrow> mapR f xs = mapR g ys"
  by (induction rule: list_all2_induct) auto

text \<open>Two rows the report cannot tell apart.\<close>

definition same_row :: "string \<Rightarrow> dict \<Rightarrow> dict \<Rightarrow> bool" where
  "same_row key r c \<longleftrightarrow>
     provider_label r = provider_label c \<and> (\<forall>field. reply_field field r = reply_field field c) \<and>
     row_var ''request_id'' r = row_var ''request_id'' c \<and> row_var key r = row_var key c \<and> latency r = latency c \<and>
     (\<forall>k. truthy (dget r ''response'') \<longrightarrow> tokens k r = tokens k c)"

definition labelled :: "dict \<Rightarrow> bool" where
  "labelled r \<longleftrightarrow> (case provider_label r of Inl _ \<Rightarrow> True | Inr l \<Rightarrow> truthy l)"

lemma compact_same_row:
  assumes "compact_row key r = Inr c" "labelled r" "key \<noteq> ''request_id''"
  shows "same_row key r c"
proof -
  obtain l t i e where l: "provider_label r = Inr l" and i: "row_var ''request_id'' r = Inr i" and e: "row_var key r = Inr e"
    and c: "\<exists>resp. (if truthy (dget r ''response'')
            then bindR (as_dict (dget r ''response'')) (\<lambda>r. Inr (JObj (keep_keys COMPACT_RESPONSE_KEYS r)))
            else Inr JNull) = Inr resp \<and>
          c = [(''provider'', JObj [(''label'', l)]), (''description'', t), (''vars'', JObj [(''request_id'', i), (key, e)]),
            (''response'', resp), (''latencyMs'', dget r ''latencyMs'')]"
    using assms(1) by (auto simp: compact_row_def res_simps)
  then obtain resp where resp: "(if truthy (dget r ''response'')
            then bindR (as_dict (dget r ''response'')) (\<lambda>r. Inr (JObj (keep_keys COMPACT_RESPONSE_KEYS r)))
            else Inr JNull) = Inr resp"
    and c: "c = [(''provider'', JObj [(''label'', l)]), (''description'', t), (''vars'', JObj [(''request_id'', i), (key, e)]),
            (''response'', resp), (''latencyMs'', dget r ''latencyMs'')]" by blast
  have lt: "truthy l" using assms(2) l by (simp add: labelled_def)
  have "provider_label c = Inr l" using lt by (simp add: provider_label_def c dindex_def as_dict_def dget_def)
  moreover have "row_var ''request_id'' c = Inr i" "row_var key c = Inr e"
    using assms(3) by (simp_all add: row_var_def jindex_def c dindex_def)
  moreover have "latency r = latency c" by (simp add: latency_def c dget_def)
  moreover have "reply_field field r = reply_field field c \<and> (truthy (dget r ''response'') \<longrightarrow> tokens k r = tokens k c)" for field k
  proof (cases "truthy (dget r ''response'')")
    case True
    then obtain d where d: "dget r ''response'' = JObj d" "resp = JObj (keep_keys COMPACT_RESPONSE_KEYS d)"
      using resp by (auto simp: res_simps)
    then have m: "map_of r ''response'' = Some (JObj d)" using truthy_mapD [OF True] by simp
    have g: "map_of (keep_keys COMPACT_RESPONSE_KEYS d) ''output'' = map_of d ''output''"
      "map_of (keep_keys COMPACT_RESPONSE_KEYS d) ''tokenUsage'' = map_of d ''tokenUsage''"
      by (auto simp: keep_keys_def COMPACT_RESPONSE_KEYS_def List.map_filter_def split: option.split)
    have "dget [] ''output'' = dget d ''output''" if "keep_keys COMPACT_RESPONSE_KEYS d = []"
      using g(1) that by (simp add: dget_def)
    with True d g m show ?thesis
      by (auto simp: reply_field_def tokens_def c dget_def dindex_def as_dict_def py_or_def Let_def)
  next
    case False
    then have "resp = JNull" using resp by simp
    with False show ?thesis by (simp add: reply_field_def c dget_def py_or_def)
  qed
  ultimately show ?thesis using l i e by (simp add: same_row_def)
qed

section \<open>Rows that are the same give the same report\<close>

abbreviation same_group :: "string \<Rightarrow> json \<times> dict list \<Rightarrow> json \<times> dict list \<Rightarrow> bool" where
  "same_group key g h \<equiv> fst g = fst h \<and> list_all2 (same_row key) (snd g) (snd h)"

lemma same_rows_of: "list_all2 (same_group key) g h \<Longrightarrow> list_all2 (same_row key) (rows_of p g) (rows_of p h)"
  by (induction rule: list_all2_induct) (auto simp: rows_of_def)

lemma same_update:
  "list_all2 (same_group key) g h \<Longrightarrow> list_all2 (same_row key) xs ys \<Longrightarrow>
   list_all2 (same_group key) (AList.update p xs g) (AList.update p ys h)"
proof (induction rule: list_all2_induct)
  case (Cons a as b bs)
  then show ?case by (cases a; cases b) auto
qed simp

lemma same_add_to:
  assumes "list_all2 (same_group key) g h" "same_row key r c"
  shows "list_all2 (same_group key) (add_to p r g) (add_to p c h)"
proof -
  have "list_all2 (same_row key) (rows_of p g @ [r]) (rows_of p h @ [c])"
    using same_rows_of [OF assms(1)] assms(2) by (intro list_all2_appendI) auto
  from same_update [OF assms(1) this, of p] show ?thesis by (simp add: add_to_def rows_of_def)
qed

lemma same_by_provider:
  "list_all2 (same_row key) rs cs \<Longrightarrow> list_all2 (same_group key) g h \<Longrightarrow>
   rel_sum (=) (list_all2 (same_group key)) (by_provider g rs) (by_provider h cs)"
proof (induction arbitrary: g h rule: list_all2_induct)
  case (Cons r rs c cs)
  have "provider_label r = provider_label c" using Cons.hyps by (simp add: same_row_def)
  then show ?case
    using Cons by (auto intro!: bindR_rel [where R = "(=)"] same_add_to simp: sum.rel_eq)
qed simp

abbreviation same_scored :: "string \<Rightarrow> dict \<times> string \<Rightarrow> dict \<times> string \<Rightarrow> bool" where
  "same_scored key a b \<equiv> snd a = snd b \<and> same_row key (fst a) (fst b) \<and> truthy (dget (fst a) ''response'')"

lemma reply_field_truthy: "reply_field field r = Inr (Some v) \<Longrightarrow> truthy (dget r ''response'')"
  by (auto simp: reply_field_def res_simps py_or_def Let_def dget_def split: if_splits)

lemma same_map_filter:
  "list_all2 (rel_option S) xs ys \<Longrightarrow> list_all2 S (List.map_filter id xs) (List.map_filter id ys)"
proof (induction rule: list_all2_induct)
  case (Cons x xs y ys)
  then show ?case by (cases x; cases y) (auto simp: List.map_filter_def)
qed (simp add: List.map_filter_def)

lemma same_scored_rows:
  assumes "list_all2 (same_row key) rs cs"
  shows "rel_sum (=) (list_all2 (same_scored key)) (scored_rows field rs) (scored_rows field cs)"
proof -
  have "rel_sum (=) (rel_option (same_scored key))
      (bindR (reply_field field r) (\<lambda>v. Inr (map_option (Pair r) v)))
      (bindR (reply_field field c) (\<lambda>v. Inr (map_option (Pair c) v)))" if "same_row key r c" for r c
  proof -
    have "reply_field field r = reply_field field c" using that by (simp add: same_row_def)
    then show ?thesis
      using that reply_field_truthy [of field r]
      by (cases "reply_field field c") (auto simp: option.rel_map split: option.splits intro!: option.rel_refl_strong)
  qed
  then have "rel_sum (=) (list_all2 (rel_option (same_scored key)))
      (mapR (\<lambda>r. bindR (reply_field field r) (\<lambda>v. Inr (map_option (Pair r) v))) rs)
      (mapR (\<lambda>r. bindR (reply_field field r) (\<lambda>v. Inr (map_option (Pair r) v))) cs)"
    using assms by (intro mapR_rel) (auto elim: list_all2_mono)
  then show ?thesis unfolding scored_rows_def by (rule bindR_rel) (simp add: same_map_filter)
qed

lemma same_answers:
  "list_all2 (same_scored key) xs ys \<Longrightarrow> answers_per_case g xs = answers_per_case g ys"
proof (induction arbitrary: g rule: list_all2_induct)
  case (Cons a as b bs)
  then show ?case by (cases a; cases b) (simp add: same_row_def)
qed simp

lemma same_run_stats:
  assumes "same_group key g h"
  shows "run_stats field key prices relabels g = run_stats field key prices relabels h"
proof -
  obtain p rs cs where gh: "g = (p, rs)" "h = (p, cs)" "list_all2 (same_row key) rs cs"
    using assms by (cases g; cases h) auto
  have len: "length cs = length rs" using gh(3) by (simp add: list_all2_lengthD)
  show ?thesis
  proof (cases "scored_rows field rs")
    case (Inl e)
    with same_scored_rows [OF gh(3), of field] show ?thesis
      by (cases "scored_rows field cs") (auto simp: gh run_stats_def)
  next
    case (Inr xs)
    with same_scored_rows [OF gh(3), of field] obtain ys where ys: "scored_rows field cs = Inr ys"
      "list_all2 (same_scored key) xs ys" by (cases "scored_rows field cs") auto
    then have s: "list_all2 (same_scored key) xs ys" by simp
    have t: "mapR (\<lambda>(r, _). tokens k r) xs = mapR (\<lambda>(r, _). tokens k r) ys" for k
      using s by (intro mapR_eq) (auto simp: same_row_def elim: list_all2_mono)
    have l: "mapR (\<lambda>(r, _). latency r) xs = mapR (\<lambda>(r, _). latency r) ys"
      using s by (intro mapR_eq) (auto simp: same_row_def elim: list_all2_mono)
    have e: "mapR (\<lambda>(r, v). bindR (expected key relabels r) (\<lambda>e. Inr (e, v))) xs =
        mapR (\<lambda>(r, v). bindR (expected key relabels r) (\<lambda>e. Inr (e, v))) ys"
      using s by (intro mapR_eq) (auto simp: same_row_def expected_def elim: list_all2_mono)
    have "length ys = length xs" using s by (simp add: list_all2_lengthD)
    then show ?thesis
      unfolding run_stats_def Let_def gh split Inr ys(1) bindR_Inr same_answers [OF s] t l e len by simp
  qed
qed

lemma same_summaries:
  assumes "list_all2 (same_row ''expected'') rs cs"
  shows "summarize cs prices relabels = summarize rs prices relabels"
proof -
  have "rel_sum (=) (=) (summarize rs prices relabels) (summarize cs prices relabels)"
    unfolding summarize_def
    by (rule bindR_rel [OF same_by_provider [OF assms list.rel_refl_strong]])
      (simp_all add: sum.rel_eq, rule mapR_eq, erule list_all2_mono,
        drule same_run_stats [of _ _ _ "''verdict''" prices relabels], simp only:)
  then show ?thesis by (simp add: sum.rel_eq)
qed

lemma same_desk_summaries:
  assumes "list_all2 (same_row ''expected_intent'') rs cs"
  shows "summarize_desk cs prices relabels = summarize_desk rs prices relabels"
proof -
  have "rel_sum (=) (=) (summarize_desk rs prices relabels) (summarize_desk cs prices relabels)"
    unfolding summarize_desk_def
    by (rule bindR_rel [OF same_by_provider [OF assms list.rel_refl_strong]])
      (simp_all add: sum.rel_eq, rule mapR_eq, erule list_all2_mono,
        drule same_run_stats [of _ _ _ "''intent''" prices relabels], simp only:)
  then show ?thesis by (simp add: sum.rel_eq)
qed

lemma saved_rows:
  assumes "saved (compact_row key) data = Inr d" "result_rows data = Inr rows" "list_all labelled rows" "key \<noteq> ''request_id''"
  shows "\<exists>cs. result_rows d = Inr cs \<and> list_all2 (same_row key) rows cs"
proof -
  obtain cs where cs: "mapR (compact_row key) rows = Inr cs" "d = JObj [(''results'', JList (map JObj cs))]"
    using assms(1,2) by (auto simp: saved_def res_simps)
  have "mapR row_dict (map JObj cs) = Inr cs" by (induction cs) (simp_all add: row_dict_def)
  then have "result_rows d = Inr cs" by (simp add: result_rows_def cs(2) jindex_def dindex_def py_list_def)
  moreover have "list_all2 (same_row key) rows cs"
    using cs(1) assms(3,4) unfolding mapR_list_all2
    by (auto simp: list_all2_conv_all_nth list_all_length intro: compact_same_row)
  ultimately show ?thesis by blast
qed

section \<open>Properties\<close>

text \<open>
  The reports account for every row: each model appears once, its runs and errors are exactly
  its rows and all of them together are the file's rows; no run is counted twice among the
  correct ones, the dangerous errors and the safe errors; the dangerous errors are among the
  runs that could be one; shares lie between 0 and 1 and the median is at most the 95th percentile.
\<close>

theorem reports_account:
  "(case summarize results prices relabels of
      Inl _ \<Rightarrow> True
    | Inr ss \<Rightarrow> accounts results ss \<and>
        list_all (\<lambda>s. sm_correct s + false_approvals s + false_rejections s \<le> sm_runs s \<and>
          false_approvals s \<le> reject_runs s \<and> reject_runs s + false_rejections s \<le> sm_runs s) ss) \<and>
   (case summarize_desk results prices relabels of
      Inl _ \<Rightarrow> True
    | Inr ss \<Rightarrow> accounts results ss \<and>
        list_all (\<lambda>s. sm_correct s + false_refunds s + missed_refunds s \<le> sm_runs s \<and>
          false_refunds s \<le> non_refund_runs s \<and> missed_refunds s \<le> refund_runs s \<and>
          refund_runs s + non_refund_runs s = sm_runs s) ss)"
proof (intro conjI)
  show "case summarize results prices relabels of
      Inl _ \<Rightarrow> True
    | Inr ss \<Rightarrow> accounts results ss \<and>
        list_all (\<lambda>s. sm_correct s + false_approvals s + false_rejections s \<le> sm_runs s \<and>
          false_approvals s \<le> reject_runs s \<and> reject_runs s + false_rejections s \<le> sm_runs s) ss"
  proof (cases "summarize results prices relabels")
    case (Inr ss)
    from summarize_extends [OF this] obtain groups where g: "by_provider [] results = Inr groups"
      and x: "list_all2 (\<lambda>g s. \<exists>b ps. run_stats ''verdict'' ''expected'' prices relabels g = Inr (b, ps) \<and>
      s = run_summary.extend b (model_summary.fields
        (count_pairs (\<lambda>e v. e = ''REJECT'' \<and> v = ''APPROVE'') ps)
        (count_pairs (\<lambda>e v. e = ''APPROVE'' \<and> v = ''REJECT'') ps)
        (count_pairs (\<lambda>e v. e = ''REJECT'') ps))) groups ss" by blast
    have "list_all (\<lambda>s. sm_correct s + false_approvals s + false_rejections s \<le> sm_runs s \<and>
          false_approvals s \<le> reject_runs s \<and> reject_runs s + false_rejections s \<le> sm_runs s) ss"
      by (rule list_all2_right [OF x])
        (elim exE conjE, drule run_stats_ok, simp add: stats_ok_def run_summary.defs model_summary.defs,
         metis judge_counts_ok)
    with summaries_account [OF g x] Inr show ?thesis by simp
  qed simp
  show "case summarize_desk results prices relabels of
      Inl _ \<Rightarrow> True
    | Inr ss \<Rightarrow> accounts results ss \<and>
        list_all (\<lambda>s. sm_correct s + false_refunds s + missed_refunds s \<le> sm_runs s \<and>
          false_refunds s \<le> non_refund_runs s \<and> missed_refunds s \<le> refund_runs s \<and>
          refund_runs s + non_refund_runs s = sm_runs s) ss"
  proof (cases "summarize_desk results prices relabels")
    case (Inr ss)
    from summarize_desk_extends [OF this] obtain groups where g: "by_provider [] results = Inr groups"
      and x: "list_all2 (\<lambda>g s. \<exists>b ps. run_stats ''intent'' ''expected_intent'' prices relabels g = Inr (b, ps) \<and>
      s = run_summary.extend b (desk_summary.fields
        (count_pairs (\<lambda>e v. e \<noteq> ''refund'' \<and> v = ''refund'') ps)
        (count_pairs (\<lambda>e v. e = ''refund'' \<and> v \<noteq> ''refund'') ps)
        (count_pairs (\<lambda>e v. e = ''refund'') ps)
        (count_pairs (\<lambda>e v. e \<noteq> ''refund'') ps))) groups ss" by blast
    have "list_all (\<lambda>s. sm_correct s + false_refunds s + missed_refunds s \<le> sm_runs s \<and>
          false_refunds s \<le> non_refund_runs s \<and> missed_refunds s \<le> refund_runs s \<and>
          refund_runs s + non_refund_runs s = sm_runs s) ss"
      by (rule list_all2_right [OF x])
        (elim exE conjE, drule run_stats_ok, simp add: stats_ok_def run_summary.defs desk_summary.defs,
         metis desk_counts_ok)
    with summaries_account [OF g x] Inr show ?thesis by simp
  qed simp
qed

text \<open>
  C31. A saved compact file gives the same report: when the rows of a results file have labels and
  compacting them does not fail, the report on what \<open>--save-compact\<close> wrote equals the report on the
  file it was made from, for every price list and every relabelling, in both scripts.
\<close>

theorem compact_same_report:
  assumes "result_rows data = Inr rows" "list_all labelled rows"
  shows "(saved compact_result data = Inr d \<longrightarrow> report d prices relabel = report data prices relabel) \<and>
    (saved compact_desk data = Inr d \<longrightarrow> desk_report d prices relabel = desk_report data prices relabel)"
proof (intro conjI impI)
  assume "saved compact_result data = Inr d"
  then obtain cs where "result_rows d = Inr cs" "list_all2 (same_row ''expected'') rows cs"
    using saved_rows [OF _ assms, of "''expected''" d] by (auto simp: compact_result_def)
  then show "report d prices relabel = report data prices relabel"
    using same_summaries assms(1) by (cases "parse_relabel relabel") (simp_all add: report_def)
next
  assume "saved compact_desk data = Inr d"
  then obtain cs where "result_rows d = Inr cs" "list_all2 (same_row ''expected_intent'') rows cs"
    using saved_rows [OF _ assms, of "''expected_intent''" d] by (auto simp: compact_desk_def)
  then show "desk_report d prices relabel = desk_report data prices relabel"
    using same_desk_summaries assms(1) by (cases "parse_desk_relabel relabel") (simp_all add: desk_report_def)
qed

definition sample_results :: json where
  "sample_results = JObj [(''evalId'', JStr ''e1''), (''results'', JObj [(''results'', JList [JObj
     [(''provider'', JObj [(''id'', JStr ''judge_provider.py''), (''label'', JStr ''m'')]),
      (''prompt'', JStr ''...''), (''testCase'', JObj [(''description'', JStr ''reject-01'')]),
      (''vars'', JObj [(''request_id'', JStr ''r1''), (''expected'', JStr ''REJECT''), (''claim'', JStr ''...'')]),
      (''response'', JObj [(''output'', JStr ''{\"verdict\": \"APPROVE\"}''), (''cached'', JBool False),
         (''tokenUsage'', JObj [(''prompt'', JInt 900), (''completion'', JInt 40)])]),
      (''latencyMs'', JInt 1200)]])])]"

theorem compact_same_report_witness:
  "\<exists>d. saved compact_result sample_results = Inr d \<and> d \<noteq> sample_results \<and>
     report d [] [''r1=APPROVE''] = report sample_results [] [''r1=APPROVE'']"
proof -
  obtain rows where r: "result_rows sample_results = Inr rows" "list_all labelled rows"
    by (simp add: sample_results_def result_rows_def jindex_def dindex_def py_list_def row_dict_def
        labelled_def provider_label_def as_dict_def dget_def)
  obtain d where d: "saved compact_result sample_results = Inr d" "d \<noteq> sample_results"
    by (simp add: sample_results_def saved_def result_rows_def jindex_def dindex_def py_list_def row_dict_def
        compact_result_def compact_row_def provider_label_def as_dict_def dget_def py_or_def row_var_def)
  with compact_same_report [OF r, of d "[]" "[''r1=APPROVE'']"] show ?thesis by blast
qed

lemma sample_report:
  "(case report sample_results [] [] of
      Inr [s] \<Rightarrow> sm_runs s = 1 \<and> false_approvals s = 1 \<and> sm_correct s = 0 \<and> sm_median_latency_ms s = 1200
    | _ \<Rightarrow> False)"
  by code_simp

end
