(* ===== verification/Dashboard.thy ===== *)
theory Dashboard
  imports Worker Benchmark "HOL-Library.Log_Nat" "HOL-Library.Sublist"
begin

text \<open>
  The operations dashboard (\<open>src/ui/\<close>): the statistics over the listed transactions, the lines made
  from a transaction's trail, the body of a submitted claim, and what the page shows. A call of
  Streamlit is a widget in a list; layout, caching, refreshing and the style sheet are left out.
  Timestamps are exact here and floats in the source.
\<close>

section \<open>Formatting a float\<close>

text \<open>The double nearest to a number, and its text with \<open>n\<close> decimals, as in \<open>f"{x:.3f}"\<close>.\<close>

definition double_of :: "rat \<Rightarrow> rat" where
  "double_of q =
     (if q = 0 then 0
      else let (a, b) = quotient_of \<bar>q\<bar>; e0 = bitlen a - bitlen b - 53;
               e = (if 2 ^ 53 \<le> \<bar>q\<bar> / 2 powi e0 then e0 + 1 else e0)
           in sgn q * of_int (py_round (\<bar>q\<bar> / 2 powi e)) * 2 powi e)"

definition fixed :: "nat \<Rightarrow> rat \<Rightarrow> string" where
  "fixed n q =
     (let k = nat (py_round (\<bar>double_of q\<bar> * 10 ^ n)); frac = show_nat (k mod 10 ^ n)
      in (if q < 0 then ''-'' else '''') @ show_nat (k div 10 ^ n) @ ''.'' @
         replicate (n - length frac) (CHR ''0'') @ frac)"

definition format_float :: "nat \<Rightarrow> json \<Rightarrow> string res" where
  "format_float n j =
     (case j of
        JFloat (Fin d) \<Rightarrow> Inr (fixed n (dec_val d))
      | JFloat PInf \<Rightarrow> Inr ''inf'' | JFloat NInf \<Rightarrow> Inr ''-inf'' | JFloat NaN \<Rightarrow> Inr ''nan''
      | JInt i \<Rightarrow> Inr (fixed n (of_int i))
      | JBool b \<Rightarrow> Inr (fixed n (if b then 1 else 0))
      | JStr _ \<Rightarrow> raise_exn ''ValueError''
      | _ \<Rightarrow> raise_exn ''TypeError'')"

lemma fixed_examples: "fixed 3 (99895 / 100000) = ''0.999''" "fixed 2 (1 / 8) = ''0.12''" "fixed 3 (1 / 2000) = ''0.001''"
  by code_simp+

section \<open>Statistics\<close>

definition compute_throughput :: "time \<Rightarrow> int \<Rightarrow> transaction_summary list \<Rightarrow> nat" where
  "compute_throughput now window_seconds rows =
     length (filter (\<lambda>row. now - seconds window_seconds \<le> ts_created_at row) rows)"

definition row_seconds :: "transaction_summary \<Rightarrow> rat" where
  "row_seconds row = of_int (ts_updated_at row - ts_created_at row) / 1000000"

definition compute_p95_latency :: "transaction_summary list \<Rightarrow> rat option" where
  "compute_p95_latency rows =
     (if rows = [] then None
      else let latencies = sort (map row_seconds rows);
               index = min (py_round (95 / 100 * of_int (int (length latencies) - 1))) (int (length latencies) - 1)
           in Some (latencies ! nat index))"

section \<open>The trail\<close>

definition describe_prompt_guard :: "json \<Rightarrow> string option res" where
  "describe_prompt_guard entry =
     (if \<not> truthy entry then Inr None
      else bindR (as_dict entry) (\<lambda>d.
        let status = dget d ''status''
        in if status = JStr ''skipped''
           then Inr (Some (''SKIPPED -- input was not scanned (failed open): '' @ py_str (dget d ''reason'')))
           else bindR (format_float 3 (dget_or d ''score'' (JFloat (Fin (Dec 0 0))))) (\<lambda>score.
                  Inr (Some ((if status = JStr ''blocked'' then ''BLOCKED'' else py_str status) @
                    '' (score '' @ score @ '')'')))))"

definition describe_clarification_question :: "dict option \<Rightarrow> string option res" where
  "describe_clarification_question jt =
     (case jt of
        None \<Rightarrow> Inr None
      | Some trail \<Rightarrow>
          let entry = py_or (dget trail ''front_desk_retry'') (dget trail ''front_desk'')
          in if \<not> truthy entry then Inr None
             else bindR (as_dict entry) (\<lambda>d.
               Inr (if dget d ''intent'' = JStr ''clarify''
                    then (case dget d ''reason'' of JNull \<Rightarrow> None | reason \<Rightarrow> Some (py_str reason))
                    else None)))"

section \<open>The theme\<close>

definition ALERT_STATUSES :: "string list" where
  "ALERT_STATUSES = [''PENDING_HUMAN_REVIEW'', ''NEEDS_CLARIFICATION'', ''BLOCKED_MALICIOUS_PROMPT'', ''EXECUTION_FAILED'']"

definition status_css_class :: "string \<Rightarrow> string" where
  "status_css_class status =
     (if status \<in> set ALERT_STATUSES then ''dashboard-status-alert'' else ''dashboard-status-ok'')"

section \<open>Submitting a claim\<close>

text \<open>The body of \<open>post_claim\<close>: refund details left blank are not sent.\<close>

definition blank :: "json \<Rightarrow> bool" where
  "blank v \<longleftrightarrow> v = JNull \<or> v = JStr ''''"

definition claim_fields :: "string \<Rightarrow> string \<Rightarrow> string option \<Rightarrow> pyfloat option \<Rightarrow> string option \<Rightarrow> dict" where
  "claim_fields user_id claim_txt order_id amount currency =
     [(''user_id'', JStr user_id), (''claim_text'', JStr claim_txt)] @
     filter (\<lambda>kv. \<not> blank (snd kv))
       [(''order_id'', opt_json JStr order_id), (''amount'', opt_json JFloat amount), (''currency'', opt_json JStr currency)]"

datatype submitted = EmptyText | Rejected nat dict | Accepted json json

text \<open>The submit button: nothing is sent for a blank text; any answer but a 2xx is an error message.\<close>

definition submit_claim ::
  "(dict \<Rightarrow> http_reply) \<Rightarrow> string \<Rightarrow> string \<Rightarrow> string \<Rightarrow> pyfloat option \<Rightarrow> string \<Rightarrow> submitted" where
  "submit_claim gateway user_id claim_txt order_id amount currency =
     (if strip claim_txt = [] then EmptyText
      else let reply = gateway (claim_fields user_id claim_txt (Some (strip order_id)) amount (Some currency))
           in if 200 \<le> hr_status reply \<and> hr_status reply < 300
              then Accepted (dget (hr_body reply) ''status'') (dget (hr_body reply) ''request_id'')
              else Rejected (hr_status reply) (hr_body reply))"

section \<open>The page\<close>

datatype widget =
    Markdown string
  | Metric string string
  | DataFrame "(string \<times> string \<times> time \<times> time) list"
  | ShowJson dict
  | Expander string "widget list"

definition health_item :: "dict \<Rightarrow> string \<times> string \<Rightarrow> string" where
  "health_item health lk =
     (let up = truthy (dget_or health (snd lk) (JBool False))
      in ''<span class='' @ [CHR 0x22] @ ''dashboard-health-item'' @ (if up then '''' else '' down'') @ [CHR 0x22] @ ''>'' @
         fst lk @ '': '' @ (if up then ''UP'' else ''DOWN'') @ ''</span>'')"

definition render_health_strip :: "dict \<Rightarrow> widget list" where
  "render_health_strip health =
     [Markdown (''<div class='' @ [CHR 0x22] @ ''dashboard-health-strip'' @ [CHR 0x22] @ ''>'' @
        concat (map (health_item health) [(''Gateway'', ''gateway''), (''PostgreSQL'', ''db''), (''MCP Server'', ''mcp'')]) @
        ''</div>'')]"

definition muted :: "string \<Rightarrow> widget" where
  "muted s = Markdown (''<span class='' @ [CHR 0x22] @ ''dashboard-muted'' @ [CHR 0x22] @ ''>'' @ s @ ''</span>'')"

definition verdict_line :: "dict \<Rightarrow> string \<times> string \<Rightarrow> widget list res" where
  "verdict_line trail lk =
     (let entry = dget trail (snd lk)
      in if \<not> truthy entry then Inr []
         else bindR (as_dict entry) (\<lambda>d. Inr [Markdown (''**'' @ fst lk @ '':** '' @ py_str (dget d ''verdict'') @ '' -- '' @
                py_str (dget d ''reason''))]))"

definition titled :: "string \<Rightarrow> string option \<Rightarrow> widget list" where
  "titled title line =
     (case line of None \<Rightarrow> [] | Some s \<Rightarrow> if s = [] then [] else [Markdown (''**'' @ title @ '':** '' @ s)])"

definition render_judge_trail :: "dict option \<Rightarrow> widget list res" where
  "render_judge_trail jt =
     (if jt = None \<or> jt = Some []
      then Inr [muted ''Reasoning trail not recorded (transaction processed before this was tracked).'']
      else let trail = the jt in
           bindR (describe_prompt_guard (dget trail ''prompt_guard'')) (\<lambda>guard.
           bindR (describe_clarification_question jt) (\<lambda>question.
           bindR (mapR (verdict_line trail) [(''Judge 1 (Gemini)'', ''judge1''), (''Judge 2 (Groq)'', ''judge2''),
                    (''Supreme Court'', ''supreme_court'')]) (\<lambda>verdicts.
             Inr (titled ''Prompt Guard'' guard @ titled ''Front-Desk needs clarification'' question @ concat verdicts @
                  [muted ''Belief Rule Base (Phase 2): not yet implemented.''])))))"

definition render_row :: "transaction_summary \<Rightarrow> widget res" where
  "render_row row =
     bindR (render_judge_trail (ts_judge_trail row)) (\<lambda>trail.
       Inr (Expander (ts_request_id row @ '' -- '' @ ts_status row)
         (Markdown (''<span class='' @ [CHR 0x22] @ status_css_class (ts_status row) @ [CHR 0x22] @ ''>Status: '' @
            ts_status row @ ''</span>'') #
          ShowJson (ts_payload row) # trail)))"

definition render_transaction_monitor :: "time \<Rightarrow> transaction_summary list \<Rightarrow> widget list res" where
  "render_transaction_monitor now rows =
     bindR (mapR render_row rows) (\<lambda>expanders.
       Inr ([Metric ''Throughput (last 60s)'' (show_nat (compute_throughput now 60 rows)),
             Metric ''P95 Latency (s)'' (case compute_p95_latency rows of None \<Rightarrow> ''N/A'' | Some p \<Rightarrow> fixed 2 p)] @
            (if rows = [] then [muted ''No transactions yet.'']
             else DataFrame (map (\<lambda>r. (ts_request_id r, ts_status r, ts_created_at r, ts_updated_at r)) rows) # expanders)))"

section \<open>Lemmas\<close>

text \<open>The dashboard's percentile is the benchmark's.\<close>

lemma p95_is_percentile:
  "rows \<noteq> [] \<Longrightarrow> compute_p95_latency rows = Some (percentile (map row_seconds rows) (95 / 100))"
proof -
  assume ne: "rows \<noteq> []"
  then have n: "int (length rows) - 1 = int (length rows - 1)" by (cases rows) auto
  have m: "nat (min a (int b)) = min b (nat a)" for a b by linarith
  have r: "rat_of_nat (length rows - Suc 0) = rat_of_nat (length rows) - 1" using ne by (cases rows) auto
  show ?thesis using ne m [of _ "length rows - Suc 0"] by (simp add: compute_p95_latency_def percentile_def Let_def n r)
qed

lemma throughput_le: "compute_throughput now w rows \<le> length rows"
  by (simp add: compute_throughput_def)

definition tget :: "dict option \<Rightarrow> string \<Rightarrow> json" where
  "tget t k = (case t of None \<Rightarrow> JNull | Some d \<Rightarrow> dget d k)"

lemma tget_add_entry:
  "tget (add_entry k v t) k' = (if k' = k \<and> v \<noteq> None then JObj (the v) else tget t k')"
  by (cases v; cases t) (auto simp: tget_def add_entry_def dget_def dset_def update_conv')

lemma clarification_tget:
  "describe_clarification_question t =
     (let entry = py_or (tget t ''front_desk_retry'') (tget t ''front_desk'')
      in if \<not> truthy entry then Inr None
         else bindR (as_dict entry) (\<lambda>d.
           Inr (if dget d ''intent'' = JStr ''clarify''
                then (case dget d ''reason'' of JNull \<Rightarrow> None | reason \<Rightarrow> Some (py_str reason))
                else None)))"
  by (cases t) (simp_all add: describe_clarification_question_def tget_def py_or_def)

text \<open>What the judges put into the trail.\<close>

definition judge_keys :: "json \<Rightarrow> bool" where
  "judge_keys t \<longleftrightarrow> (\<exists>d. t = JObj d \<and> list_all (\<lambda>(k, v). k \<in> {''judge1'', ''judge2'', ''supreme_court''} \<and>
     (v = JNull \<or> (\<exists>r. v = trail_entry r))) d)"

lemma evaluate_trail: "judge_keys (dget (evaluate_decision S w a args ctx) ''trail'')"
  by (auto simp: judge_keys_def evaluate_decision_def supreme_decision_def decision_def dget_def Let_def)

lemma judge_step_trail:
  "judge_step env rid body other policy ev = Inr jg \<Longrightarrow>
   dget (jg_result jg) ''trail'' = JNull \<or> judge_keys (dget (jg_result jg) ''trail'')"
  by (auto simp: judge_step_def Let_def res_simps dget_def [of "[]"] evaluate_trail split: if_splits)

lemma judge_keys_get:
  assumes "judge_keys (JObj d)"
  shows "k \<notin> {''judge1'', ''judge2'', ''supreme_court''} \<Longrightarrow> dget d k = JNull"
    and "dget d k = JNull \<or> (\<exists>r. dget d k = trail_entry r)"
proof -
  have l: "list_all (\<lambda>(k, v). k \<in> {''judge1'', ''judge2'', ''supreme_court''} \<and> (v = JNull \<or> (\<exists>r. v = trail_entry r))) d"
    using assms by (simp add: judge_keys_def)
  show "k \<notin> {''judge1'', ''judge2'', ''supreme_court''} \<Longrightarrow> dget d k = JNull"
    using l map_of_SomeD [of d k] by (auto simp: dget_def list_all_iff split: option.split)
  show "dget d k = JNull \<or> (\<exists>r. dget d k = trail_entry r)"
    using l map_of_SomeD [of d k] by (auto simp: dget_def list_all_iff split: option.split)
qed

lemma judge_trail_get:
  assumes "judge_step env rid body other policy ev = Inr jg"
  shows "tget (judge_trail guard proposal ev' jg execution) ''front_desk_retry'' =
      (case jg_retry jg of None \<Rightarrow> JNull | Some p \<Rightarrow> JObj (proposal_dump p))"
    and "tget (judge_trail guard proposal ev' jg execution) ''front_desk'' =
      (case proposal of None \<Rightarrow> JNull | Some p \<Rightarrow> JObj (proposal_dump p))"
    and "tget (judge_trail guard proposal ev' jg execution) ''prompt_guard'' =
      (case guard of None \<Rightarrow> JNull | Some g \<Rightarrow> JObj (guard_trail g))"
    and "k \<in> {''judge1'', ''judge2'', ''supreme_court''} \<Longrightarrow>
      tget (judge_trail guard proposal ev' jg execution) k = JNull \<or>
      (\<exists>r. tget (judge_trail guard proposal ev' jg execution) k = trail_entry r)"
proof -
  let ?t = "case dget (jg_result jg) ''trail'' of JObj t \<Rightarrow> Some t | _ \<Rightarrow> None"
  have b: "k \<notin> {''judge1'', ''judge2'', ''supreme_court''} \<Longrightarrow> tget ?t k = JNull"
    "tget ?t k = JNull \<or> (\<exists>r. tget ?t k = trail_entry r)" for k
  proof -
    have "?t = None \<or> (\<exists>d. ?t = Some d \<and> judge_keys (JObj d))"
      using judge_step_trail [OF assms] by (auto split: json.splits)
    then show "k \<notin> {''judge1'', ''judge2'', ''supreme_court''} \<Longrightarrow> tget ?t k = JNull"
      by (elim disjE exE conjE) (simp_all add: tget_def judge_keys_get(1))
    from \<open>?t = None \<or> (\<exists>d. ?t = Some d \<and> judge_keys (JObj d))\<close>
    show "tget ?t k = JNull \<or> (\<exists>r. tget ?t k = trail_entry r)"
      by (elim disjE exE conjE) (simp_all add: tget_def judge_keys_get(2))
  qed
  show "tget (judge_trail guard proposal ev' jg execution) ''front_desk_retry'' =
      (case jg_retry jg of None \<Rightarrow> JNull | Some p \<Rightarrow> JObj (proposal_dump p))"
    "tget (judge_trail guard proposal ev' jg execution) ''front_desk'' =
      (case proposal of None \<Rightarrow> JNull | Some p \<Rightarrow> JObj (proposal_dump p))"
    "tget (judge_trail guard proposal ev' jg execution) ''prompt_guard'' =
      (case guard of None \<Rightarrow> JNull | Some g \<Rightarrow> JObj (guard_trail g))"
    using b(1) by (simp_all add: judge_trail_def tget_add_entry split: option.split)
  show "k \<in> {''judge1'', ''judge2'', ''supreme_court''} \<Longrightarrow>
      tget (judge_trail guard proposal ev' jg execution) k = JNull \<or>
      (\<exists>r. tget (judge_trail guard proposal ev' jg execution) k = trail_entry r)"
    using b(2) [of k] by (auto simp: judge_trail_def tget_add_entry)
qed

text \<open>The guard's line and the question of an entry.\<close>

lemma guard_line:
  assumes "guard_claim env body = Some g"
  shows "\<exists>line. describe_prompt_guard (JObj (guard_trail g)) = Inr (Some line) \<and> (prefix ''BLOCKED'' line \<longleftrightarrow> is_injection g)"
proof -
  have "gr_status g = Skipped \<or> (\<exists>f. gr_score g = Some f)"
    using assms by (auto simp: guard_claim_def scan_for_injection_def scan_def guard_verdict_def guard_skip_def
        split: if_splits json.splits sum.splits option.splits)
  then consider "gr_status g = Skipped" | f where "gr_status g \<noteq> Skipped" "gr_score g = Some f" by blast
  then show ?thesis
  proof cases
    case 1
    then show ?thesis by (simp add: describe_prompt_guard_def guard_trail_def dget_def is_injection_def as_dict_def)
  next
    case (2 f)
    obtain t where "format_float 3 (JFloat f) = Inr t" by (cases f) (simp_all add: format_float_def)
    with 2 show ?thesis
      by (cases "gr_status g")
        (simp_all add: describe_prompt_guard_def guard_trail_def dget_def dget_or_def is_injection_def opt_json_def as_dict_def)
  qed
qed

lemma question_of_dump:
  "describe_clarification_question t = Inr (if cp_intent p = Clarify then Some (cp_reason p) else None)"
  if "py_or (tget t ''front_desk_retry'') (tget t ''front_desk'') = JObj (proposal_dump p)"
  using that by (cases "cp_intent p") (simp_all add: clarification_tget proposal_dump_def dget_def as_dict_def Let_def)

lemma question_of_none:
  "describe_clarification_question t = Inr None"
  if "py_or (tget t ''front_desk_retry'') (tget t ''front_desk'') = JNull"
  using that by (simp add: clarification_tget)

text \<open>A page can be made from every trail whose entries the worker wrote.\<close>

lemma render_total:
  assumes "describe_prompt_guard (tget t ''prompt_guard'') = Inr a" "describe_clarification_question t = Inr b"
    and "list_all (\<lambda>k. tget t k = JNull \<or> (\<exists>r. tget t k = trail_entry r)) [''judge1'', ''judge2'', ''supreme_court'']"
  shows "\<exists>ws. render_judge_trail t = Inr ws"
proof (cases "t = None \<or> t = Some []")
  case False
  then obtain d where d: "t = Some d" by (cases t) auto
  have v: "\<exists>w. verdict_line d (l, k) = Inr w" if "k \<in> {''judge1'', ''judge2'', ''supreme_court''}" for l k
    using assms(3) that by (auto simp: verdict_line_def d tget_def trail_entry_def as_dict_def Let_def)
  obtain w1 w2 w3 where "verdict_line d (''Judge 1 (Gemini)'', ''judge1'') = Inr w1"
    "verdict_line d (''Judge 2 (Groq)'', ''judge2'') = Inr w2" "verdict_line d (''Supreme Court'', ''supreme_court'') = Inr w3"
    using v [where l = "''Judge 1 (Gemini)''" and k = "''judge1''"]
      v [where l = "''Judge 2 (Groq)''" and k = "''judge2''"]
      v [where l = "''Supreme Court''" and k = "''supreme_court''"] by auto
  with False assms(1,2) d show ?thesis by (simp add: render_judge_trail_def tget_def)
qed (simp add: render_judge_trail_def)

text \<open>What decides the question is what decides the status.\<close>

lemma judge_step_retry:
  assumes "judge_step env rid body (not_a_refund proposal) policy ev = Inr jg"
  shows "(case jg_retry jg of None \<Rightarrow> True | Some p \<Rightarrow> cp_intent p \<noteq> Refund \<and> not_a_refund proposal = None \<and> \<not> approved jg) \<and>
    (not_a_refund proposal \<noteq> None \<longrightarrow> \<not> approved jg)"
  using assms
  by (auto simp: judge_step_def Let_def res_simps not_a_refund_def approved_def dget_def [of "[]"] split: if_splits option.splits)

lemma question_decides:
  assumes "judge_step env rid body (not_a_refund proposal) policy ev = Inr jg"
    and "execute_step call env rid body (not_a_refund proposal) jg s = ((status, execution), s')"
  shows "\<exists>q. describe_clarification_question (judge_trail guard proposal ev' jg execution) = Inr q \<and>
    (q \<noteq> None \<longleftrightarrow> status = ''NEEDS_CLARIFICATION'')"
proof -
  let ?t = "judge_trail guard proposal ev' jg execution"
  let ?e = "py_or (tget ?t ''front_desk_retry'') (tget ?t ''front_desk'')"
  note get = judge_trail_get [OF assms(1), where guard = guard and proposal = proposal and ev' = ev' and execution = execution]
  note r = judge_step_retry [OF assms(1)]
  have st: "status = ''NEEDS_CLARIFICATION'' \<longleftrightarrow>
      (case deciding_proposal (not_a_refund proposal) jg of None \<Rightarrow> False | Some p \<Rightarrow> cp_intent p = Clarify)"
    using assms(2)
  proof (cases rule: execute_step_cases)
    case review
    then show ?thesis by (simp add: review_status_def split: option.split)
  next
    case (refund x ds)
    have "deciding_proposal (not_a_refund proposal) jg = None"
      using r refund(1) by (cases "jg_retry jg"; cases "not_a_refund proposal") (auto simp: deciding_proposal_def)
    with refund(4) show ?thesis by (auto split: sum.splits)
  qed
  show ?thesis
  proof (cases "jg_retry jg")
    case (Some p)
    then have "?e = JObj (proposal_dump p)" using get by (simp add: py_or_def proposal_dump_def)
    from question_of_dump [OF this] st Some show ?thesis by (simp add: deciding_proposal_def)
  next
    case None
    show ?thesis
    proof (cases proposal)
      case None
      with \<open>jg_retry jg = None\<close> have "?e = JNull" using get by (simp add: py_or_def)
      from question_of_none [OF this] st \<open>jg_retry jg = None\<close> None show ?thesis
        by (simp add: deciding_proposal_def not_a_refund_def)
    next
      case (Some p)
      with None have "?e = JObj (proposal_dump p)" using get by (simp add: py_or_def)
      from question_of_dump [OF this] st None Some show ?thesis
        by (auto simp: deciding_proposal_def not_a_refund_def)
    qed
  qed
qed

lemma decide_claim_Inr:
  assumes "decide_claim call env rid body s = (Inr v, s')"
  obtains (blocked) g where "guard_claim env body = Some g" "is_injection g"
      "v = \<lparr>vd_status = ''BLOCKED_MALICIOUS_PROMPT'', vd_trail = add_entry ''prompt_guard'' (Some (guard_trail g)) None\<rparr>"
  | (judged) proposal ev s1 jg status execution where
      "\<not> (case guard_claim env body of None \<Rightarrow> False | Some g \<Rightarrow> is_injection g)"
      "judge_step env rid body (not_a_refund proposal) (retrieved_policy env body) ev = Inr jg"
      "execute_step call env rid body (not_a_refund proposal) jg s1 = ((status, execution), s')"
      "v = \<lparr>vd_status = status, vd_trail = judge_trail (guard_claim env body) proposal ev jg execution\<rparr>"
proof (cases "case guard_claim env body of None \<Rightarrow> False | Some g \<Rightarrow> is_injection g")
  case True
  then obtain g where "guard_claim env body = Some g" "is_injection g" by (cases "guard_claim env body") auto
  with assms show thesis by (intro blocked [of g]) (auto simp: decide_claim_def)
next
  case False
  from assms show thesis
    using False by (auto simp: decide_claim_def Let_def res_simps split: sum.splits prod.splits intro: judged)
qed

lemma blocked_trail:
  "tget (add_entry ''prompt_guard'' (Some d) None) ''prompt_guard'' = JObj d"
  "k \<noteq> ''prompt_guard'' \<Longrightarrow> tget (add_entry ''prompt_guard'' (Some d) None) k = JNull"
  by (simp_all add: tget_add_entry) (simp add: tget_def)

lemma execute_step_status:
  assumes "execute_step call env rid body other jg s = ((status, execution), s')"
  shows "status \<noteq> ''BLOCKED_MALICIOUS_PROMPT'' \<and> (status_css_class status = ''dashboard-status-ok'' \<longleftrightarrow> status = ''COMPLETED'')"
  using assms
proof (cases rule: execute_step_cases)
  case review
  then show ?thesis
    using review_status_cases [of "deciding_proposal other jg"] by (auto simp: status_css_class_def ALERT_STATUSES_def)
next
  case (refund r ds)
  then show ?thesis by (auto simp: status_css_class_def ALERT_STATUSES_def split: sum.splits)
qed

section \<open>Properties\<close>

text \<open>
  C29. The dashboard tells what the worker decided: from every trail the worker writes the page can
  be made; it shows a clarifying question exactly for \<open>NEEDS_CLARIFICATION\<close>, a guard line
  exactly when the guard looked at the claim, which says blocked exactly for a blocked claim; and
  every final status but \<open>COMPLETED\<close> is an alert.
\<close>

theorem dashboard_tells:
  "(case decide_claim call env rid body s of
      (Inl _, _) \<Rightarrow> True
    | (Inr v, _) \<Rightarrow>
        (\<exists>ws. render_judge_trail (vd_trail v) = Inr ws) \<and>
        (\<exists>q. describe_clarification_question (vd_trail v) = Inr q \<and> (q \<noteq> None \<longleftrightarrow> vd_status v = ''NEEDS_CLARIFICATION'')) \<and>
        (\<exists>line. describe_prompt_guard (tget (vd_trail v) ''prompt_guard'') = Inr line \<and>
           (line = None \<longleftrightarrow> guard_claim env body = None) \<and>
           ((\<exists>t. line = Some (''BLOCKED'' @ t)) \<longleftrightarrow> vd_status v = ''BLOCKED_MALICIOUS_PROMPT'')) \<and>
        (status_css_class (vd_status v) = ''dashboard-status-ok'' \<longleftrightarrow> vd_status v = ''COMPLETED''))"
proof (cases "decide_claim call env rid body s")
  case (Pair vd s')
  show ?thesis
  proof (cases vd)
    case (Inr v)
    with Pair have "decide_claim call env rid body s = (Inr v, s')" by simp
    then show ?thesis
    proof (cases rule: decide_claim_Inr)
      case (blocked g)
      obtain line where line: "describe_prompt_guard (JObj (guard_trail g)) = Inr (Some line)"
        "prefix ''BLOCKED'' line" using guard_line [OF blocked(1)] blocked(2) by blast
      have q: "describe_clarification_question (vd_trail v) = Inr None"
        by (rule question_of_none) (simp add: blocked(3) blocked_trail py_or_def)
      moreover have "\<exists>ws. render_judge_trail (vd_trail v) = Inr ws"
        by (rule render_total [OF _ q]) (simp_all add: blocked(3) blocked_trail line)
      ultimately show ?thesis using Pair Inr blocked line
        by (auto simp: blocked_trail status_css_class_def ALERT_STATUSES_def prefix_def)
    next
      case (judged proposal ev s1 jg status execution)
      note get = judge_trail_get [OF judged(2), where guard = "guard_claim env body" and proposal = proposal
          and ev' = ev and execution = execution]
      obtain q where q: "describe_clarification_question (vd_trail v) = Inr q" "q \<noteq> None \<longleftrightarrow> status = ''NEEDS_CLARIFICATION''"
        using question_decides [OF judged(2,3), of "guard_claim env body" ev] judged(4) by auto
      have line: "\<exists>line. describe_prompt_guard (tget (vd_trail v) ''prompt_guard'') = Inr line \<and>
          (line = None \<longleftrightarrow> guard_claim env body = None) \<and> (\<nexists>t. line = Some (''BLOCKED'' @ t))"
      proof (cases "guard_claim env body")
        case None
        then show ?thesis using get(3) judged(4) by (simp add: describe_prompt_guard_def)
      next
        case (Some g)
        with judged(1) guard_line [OF Some] show ?thesis using get(3) judged(4) by (auto simp: prefix_def)
      qed
      then obtain a where a: "describe_prompt_guard (tget (vd_trail v) ''prompt_guard'') = Inr a" by blast
      have "\<exists>ws. render_judge_trail (vd_trail v) = Inr ws"
        by (rule render_total [OF a q(1)]) (use get(4) judged(4) in simp)
      then show ?thesis using Pair Inr q line judged(4) execute_step_status [OF judged(3)] by auto
    qed
  qed (simp add: Pair)
qed

text \<open>
  What the form sends through the gateway: the published claim has a refund to execute exactly when
  both the order and the amount were filled in, and it carries them unchanged.
\<close>

lemma form_claim_refund:
  assumes "pydantic_ok P"
    and "post_claims P S up uuid (JObj (claim_fields u txt (Some oid) amount (Some cur))) = (reply, Some body)"
  shows "dget body ''claim_text'' = JStr txt \<and> dget body ''user_id'' = JStr u \<and>
    dget body ''order_id'' = (if oid = [] then JNull else JStr oid) \<and> dget body ''amount'' = opt_json JFloat amount \<and>
    (has_refund body \<longleftrightarrow> oid \<noteq> [] \<and> amount \<noteq> None)"
proof -
  let ?d = "claim_fields u txt (Some oid) amount (Some cur)"
  obtain d cr where cr: "?d = d" "ClaimRequest P S uuid d = Some cr" "body = claim_dump cr"
    using assms(2) by (rule post_claims_202) auto
  have get: "map_of ?d ''user_id'' = Some (JStr u)" "map_of ?d ''claim_text'' = Some (JStr txt)"
    "map_of ?d ''order_id'' = (if oid = [] then None else Some (JStr oid))"
    "map_of ?d ''amount'' = map_option JFloat amount"
    by (cases amount; simp add: claim_fields_def blank_def opt_json_def)+
  have "cr_user_id cr = u" "cr_claim_text cr = txt" "cr_order_id cr = (if oid = [] then None else Some oid)"
    "cr_amount cr = amount"
    using cr(2) get pydantic_ok_str [OF assms(1)] pydantic_ok_float [OF assms(1)] unfolding cr(1) [symmetric]
    by (auto simp: ClaimRequest_def res_simps required_def nullable_def defaulted_def str_min1_def float_in_def
        split: if_splits option.splits)
  moreover have "truthy (JFloat f)" if "cr_amount cr = Some f" for f
    using ClaimRequest_fields(3) [OF cr(2) that]
    by (cases f) (auto simp: pf_gt_def dec_le_iff dec_less_iff dec_val_def)
  ultimately show ?thesis
    using cr(3) by (auto simp: has_refund_def opt_json_def split: option.split)
qed

end
