(* ===== verification/Regex.thy ===== *)
theory Regex
  imports Prelude
begin

text \<open>
  Regular expressions of Python's library \<open>re\<close>, as far as the sources use them
  (\<open>src/core/trace_masking.py\<close>, \<open>.agents/hooks/safety_guard.py\<close>): a backtracking matcher that lists the
  ways to match in the order in which \<open>re\<close> tries them, a search and a substitution. The lemmas
  relate the matcher to the words of an expression.
\<close>

section \<open>Regular expressions\<close>

text \<open>
  A class of characters, a sequence, a choice, and greedy repetition with its bounds (\<open>None\<close>: no
  upper one).
\<close>

datatype rx = Eps | Cls "char \<Rightarrow> bool" | Cat rx rx | Alt rx rx | Rep nat "nat option" rx

fun rep :: "nat \<Rightarrow> nat \<Rightarrow> (string \<Rightarrow> (string \<times> string) list) \<Rightarrow> string \<Rightarrow> (string \<times> string) list" where
  "rep lo 0 f s = (if lo = 0 then [([], s)] else [])"
| "rep lo (Suc hi) f s =
     concat (map (\<lambda>(u, t). map (\<lambda>(v, w). (u @ v, w)) (rep (lo - 1) hi f t)) (f s)) @
     (if lo = 0 then [([], s)] else [])"

text \<open>
  All ways to match at the start of a text: what is matched, and the rest. A body that matches
  at least one character repeats at most as often as the text is long.
\<close>

primrec ways :: "rx \<Rightarrow> string \<Rightarrow> (string \<times> string) list" where
  "ways Eps = (\<lambda>s. [([], s)])"
| "ways (Cls P) = (\<lambda>s. case s of [] \<Rightarrow> [] | c # r \<Rightarrow> if P c then [([c], r)] else [])"
| "ways (Cat a b) = (\<lambda>s. concat (map (\<lambda>(u, t). map (\<lambda>(v, w). (u @ v, w)) (ways b t)) (ways a s)))"
| "ways (Alt a b) = (\<lambda>s. ways a s @ ways b s)"
| "ways (Rep lo hi a) = (\<lambda>s. rep lo (case hi of None \<Rightarrow> length s | Some h \<Rightarrow> h) (ways a) s)"

fun ways_parts :: "rx list \<Rightarrow> string \<Rightarrow> (string list \<times> string) list" where
  "ways_parts [] s = [([], s)]"
| "ways_parts (r # rs) s = concat (map (\<lambda>(u, t). map (\<lambda>(us, w). (u # us, w)) (ways_parts rs t)) (ways r s))"

text \<open>
  A pattern: the character that may not precede it, its consecutive parts (the groups), and the
  text that may not follow.
\<close>

record pattern =
  pt_behind :: "char \<Rightarrow> bool"
  pt_parts :: "rx list"
  pt_ahead :: "string \<Rightarrow> bool"

definition match_at :: "pattern \<Rightarrow> char option \<Rightarrow> string \<Rightarrow> (string list \<times> string) option" where
  "match_at p prev s =
     (if (case prev of None \<Rightarrow> False | Some c \<Rightarrow> pt_behind p c) then None
      else find (\<lambda>(us, r). \<not> pt_ahead p r) (ways_parts (pt_parts p) s))"

text \<open>\<open>pattern.search(text)\<close>, as a truth value, and \<open>pattern.sub(f, text)\<close>, for patterns that match no empty text.\<close>

fun search :: "pattern \<Rightarrow> char option \<Rightarrow> string \<Rightarrow> bool" where
  "search p prev [] = False"
| "search p prev (c # s) = (match_at p prev (c # s) \<noteq> None \<or> search p (Some c) s)"

function sub :: "pattern \<Rightarrow> (string list \<Rightarrow> string) \<Rightarrow> char option \<Rightarrow> string \<Rightarrow> string" where
  "sub p f prev [] = []"
| "sub p f prev (c # s) =
     (case match_at p prev (c # s) of
        None \<Rightarrow> c # sub p f (Some c) s
      | Some (us, r) \<Rightarrow> f us @ sub p f (Some (last (concat us))) (drop (length (concat us) - 1) s))"
  by pat_completeness auto
termination by (relation "measure (\<lambda>(p, f, prev, s). length s)") auto

text \<open>The classes \<open>\d\<close>, \<open>\w\<close> and \<open>\s\<close> on characters below 256.\<close>

definition is_decimal :: "char \<Rightarrow> bool" where
  "is_decimal c = (let n = (of_char c :: nat) in 48 \<le> n \<and> n \<le> 57)"

definition is_word :: "char \<Rightarrow> bool" where
  "is_word c =
     (let n = (of_char c :: nat)
      in 48 \<le> n \<and> n \<le> 57 \<or> 65 \<le> n \<and> n \<le> 90 \<or> n = 95 \<or> 97 \<le> n \<and> n \<le> 122 \<or>
         n \<in> {170, 178, 179, 181, 185, 186, 188, 189, 190} \<or> 192 \<le> n \<and> n \<noteq> 215 \<and> n \<noteq> 247)"

definition is_white :: "char \<Rightarrow> bool" where
  "is_white c = (let n = (of_char c :: nat) in 9 \<le> n \<and> n \<le> 13 \<or> 28 \<le> n \<and> n \<le> 32 \<or> n = 133 \<or> n = 160)"

definition is_hex :: "char \<Rightarrow> bool" where
  "is_hex c = (let n = (of_char c :: nat) in 48 \<le> n \<and> n \<le> 57 \<or> 97 \<le> n \<and> n \<le> 102)"

abbreviation chr :: "char \<Rightarrow> rx" where
  "chr c \<equiv> Cls (\<lambda>x. x = c)"

abbreviation many :: "rx \<Rightarrow> rx" where
  "many r \<equiv> Rep 0 None r"

abbreviation some :: "rx \<Rightarrow> rx" where
  "some r \<equiv> Rep 1 None r"

abbreviation seq :: "rx list \<Rightarrow> rx" where
  "seq rs \<equiv> foldr Cat rs Eps"

section \<open>What matches\<close>

text \<open>The words of an expression, and the expressions whose repeated bodies take a character each time.\<close>

primrec words :: "rx \<Rightarrow> string \<Rightarrow> bool" where
  "words Eps u = (u = [])"
| "words (Cls P) u = (\<exists>c. u = [c] \<and> P c)"
| "words (Cat a b) u = (\<exists>v w. u = v @ w \<and> words a v \<and> words b w)"
| "words (Alt a b) u = (words a u \<or> words b u)"
| "words (Rep lo hi a) u =
     (\<exists>us. u = concat us \<and> list_all (words a) us \<and> lo \<le> length us \<and>
       (case hi of None \<Rightarrow> True | Some h \<Rightarrow> length us \<le> h))"

primrec solid :: "rx \<Rightarrow> bool" where
  "solid Eps = True"
| "solid (Cls P) = True"
| "solid (Cat a b) = (solid a \<and> solid b)"
| "solid (Alt a b) = (solid a \<and> solid b)"
| "solid (Rep lo hi a) = (solid a \<and> \<not> words a [])"

lemma rep_iff:
  assumes "\<And>s u w. (u, w) \<in> set (f s) \<longleftrightarrow> s = u @ w \<and> P u"
  shows "(u, w) \<in> set (rep lo hi f s) \<longleftrightarrow>
    s = u @ w \<and> (\<exists>us. u = concat us \<and> list_all P us \<and> lo \<le> length us \<and> length us \<le> hi)"
proof (induction hi arbitrary: lo s u)
  case 0
  then show ?case by auto
next
  case (Suc hi)
  have "(u, w) \<in> set (rep lo (Suc hi) f s) \<longleftrightarrow>
      (\<exists>x v. u = x @ v \<and> s = x @ v @ w \<and> P x \<and>
        (\<exists>us. v = concat us \<and> list_all P us \<and> lo - 1 \<le> length us \<and> length us \<le> hi)) \<or>
      lo = 0 \<and> u = [] \<and> w = s"
    by (fastforce simp: assms Suc.IH)
  also have "\<dots> \<longleftrightarrow> s = u @ w \<and> (\<exists>us. u = concat us \<and> list_all P us \<and> lo \<le> length us \<and> length us \<le> Suc hi)"
    (is "?l \<longleftrightarrow> ?r")
  proof
    assume ?l
    then show ?r
    proof
      assume "\<exists>x v. u = x @ v \<and> s = x @ v @ w \<and> P x \<and>
        (\<exists>us. v = concat us \<and> list_all P us \<and> lo - 1 \<le> length us \<and> length us \<le> hi)"
      then obtain x us where "u = x @ concat us" "s = u @ w" "P x" "list_all P us" "lo - 1 \<le> length us" "length us \<le> hi"
        by auto
      then show ?r by (intro conjI exI [of _ "x # us"]) auto
    qed (auto intro: exI [of _ "[]"])
  next
    assume r: ?r
    then obtain us where us: "s = u @ w" "u = concat us" "list_all P us" "lo \<le> length us" "length us \<le> Suc hi" by blast
    then show ?l by (cases us) auto
  qed
  finally show ?case .
qed

lemma length_concat_nonempty: "list_all (\<lambda>u. u \<noteq> []) us \<Longrightarrow> length us \<le> length (concat us)"
proof (induction us)
  case (Cons u us)
  then show ?case by (cases u) auto
qed simp

lemma ways_iff: "solid r \<Longrightarrow> (u, w) \<in> set (ways r s) \<longleftrightarrow> s = u @ w \<and> words r u"
proof (induction r arbitrary: u w s)
  case (Cls P)
  then show ?case by (cases s) auto
next
  case (Cat a b)
  have "(u, w) \<in> set (ways (Cat a b) s) \<longleftrightarrow>
      (\<exists>x t v. u = x @ v \<and> (x, t) \<in> set (ways a s) \<and> (v, w) \<in> set (ways b t))"
    by force
  also have "\<dots> \<longleftrightarrow> (\<exists>x v. u = x @ v \<and> s = x @ v @ w \<and> words a x \<and> words b v)"
    using Cat.IH Cat.prems by simp
  also have "\<dots> \<longleftrightarrow> s = u @ w \<and> words (Cat a b) u"
    by auto blast
  finally show ?case .
next
  case (Rep lo hi a)
  then have f: "\<And>s u w. (u, w) \<in> set (ways a s) \<longleftrightarrow> s = u @ w \<and> words a u" and ne: "\<not> words a []" by auto
  have le: "list_all (words a) us \<Longrightarrow> length us \<le> length (concat us)" for us
    using ne by (intro length_concat_nonempty) (auto simp: list_all_iff)
  show ?case
  proof (cases hi)
    case None
    have "(\<exists>us. u = concat us \<and> list_all (words a) us \<and> lo \<le> length us \<and> length us \<le> length (u @ w)) \<longleftrightarrow>
        (\<exists>us. u = concat us \<and> list_all (words a) us \<and> lo \<le> length us)"
      using le by (metis length_append trans_le_add1)
    then show ?thesis by (auto simp: None rep_iff [OF f])
  next
    case (Some h)
    then show ?thesis by (simp add: rep_iff [OF f])
  qed
qed auto

lemma ways_parts_iff:
  "list_all solid rs \<Longrightarrow> (us, w) \<in> set (ways_parts rs s) \<longleftrightarrow> s = concat us @ w \<and> list_all2 words rs us"
proof (induction rs arbitrary: us s)
  case (Cons r rs)
  have "(us, w) \<in> set (ways_parts (r # rs) s) \<longleftrightarrow>
      (\<exists>u t vs. us = u # vs \<and> (u, t) \<in> set (ways r s) \<and> (vs, w) \<in> set (ways_parts rs t))"
    by force
  also have "\<dots> \<longleftrightarrow> (\<exists>u vs. us = u # vs \<and> s = u @ concat vs @ w \<and> words r u \<and> list_all2 words rs vs)"
    using Cons by (auto simp: ways_iff)
  also have "\<dots> \<longleftrightarrow> s = concat us @ w \<and> list_all2 words (r # rs) us"
    by (cases us) auto
  finally show ?case .
qed auto

definition blocked :: "pattern \<Rightarrow> char option \<Rightarrow> bool" where
  "blocked p prev = (case prev of None \<Rightarrow> False | Some c \<Rightarrow> pt_behind p c)"

lemma match_at_Some:
  assumes "list_all solid (pt_parts p)" "match_at p prev s = Some (us, r)"
  shows "s = concat us @ r" "list_all2 words (pt_parts p) us" "\<not> pt_ahead p r" "\<not> blocked p prev"
proof -
  have f: "find (\<lambda>(us, r). \<not> pt_ahead p r) (ways_parts (pt_parts p) s) = Some (us, r)" "\<not> blocked p prev"
    using assms(2) by (auto simp: match_at_def blocked_def split: if_splits)
  then show "\<not> blocked p prev" by simp
  from find_SomeD [OF f(1)] show "s = concat us @ r" "list_all2 words (pt_parts p) us" "\<not> pt_ahead p r"
    by (simp_all add: ways_parts_iff [OF assms(1)])
qed

lemma match_at_None:
  assumes "list_all solid (pt_parts p)" "match_at p prev (concat us @ r) = None"
    "list_all2 words (pt_parts p) us" "\<not> blocked p prev"
  shows "pt_ahead p r"
proof -
  have f: "find (\<lambda>(us, r). \<not> pt_ahead p r) (ways_parts (pt_parts p) (concat us @ r)) = None"
    using assms(2,4) by (auto simp: match_at_def blocked_def split: if_splits)
  have "(us, r) \<in> set (ways_parts (pt_parts p) (concat us @ r))"
    using assms(3) by (simp add: ways_parts_iff [OF assms(1)])
  from find_NoneD [OF f this] show ?thesis by simp
qed

text \<open>The characters of an expression's words.\<close>

primrec letters :: "rx \<Rightarrow> char \<Rightarrow> bool" where
  "letters Eps c = False"
| "letters (Cls P) c = P c"
| "letters (Cat a b) c = (letters a c \<or> letters b c)"
| "letters (Alt a b) c = (letters a c \<or> letters b c)"
| "letters (Rep lo hi a) c = letters a c"

lemma words_letters: "words r u \<Longrightarrow> c \<in> set u \<Longrightarrow> letters r c"
proof (induction r arbitrary: u)
  case (Rep lo hi a)
  from Rep.prems obtain us where "u = concat us" "list_all (words a) us" by auto
  with Rep.prems(2) obtain v where "words a v" "c \<in> set v" by (auto simp: list_all_iff)
  with Rep.IH show ?case by simp
next
  case (Cat a b)
  from Cat.prems obtain v w where "c \<in> set v \<or> c \<in> set w" "words a v" "words b w" by auto
  with Cat.IH show ?case by auto
qed auto

lemma match_one_Some:
  assumes "pt_parts p = [r]" "solid r" "match_at p prev s = Some (us, w)"
  shows "\<exists>u. us = [u] \<and> s = u @ w \<and> words r u \<and> \<not> pt_ahead p w \<and> \<not> blocked p prev"
proof -
  have l: "list_all solid (pt_parts p)" using assms by simp
  from match_at_Some [OF l assms(3)] assms(1) show ?thesis by (cases us) auto
qed

lemma match_one:
  assumes "pt_parts p = [r]" "solid r"
  shows "match_at p prev s = None \<longleftrightarrow>
    blocked p prev \<or> (\<forall>u w. s = u @ w \<longrightarrow> words r u \<longrightarrow> pt_ahead p w)"
proof (cases "match_at p prev s")
  case None
  have l: "list_all solid (pt_parts p)" using assms by simp
  from match_at_None [OF l, of prev "[u]" w for u w] assms(1) None show ?thesis by auto
next
  case (Some m)
  with match_one_Some [OF assms, of prev s] show ?thesis by (cases m) fastforce
qed

text \<open>
  After a substitution by bracketed text, a text without an opening bracket at its start was kept
  and stands in the original.
\<close>

lemma sub_prefix:
  assumes "\<And>us. \<exists>x. f us = CHR ''['' # x" "CHR ''['' \<notin> set u" "u @ w = sub p f prev s"
  shows "\<exists>s2. s = u @ s2 \<and> w = sub p f (if u = [] then prev else Some (last u)) s2"
  using assms(2,3)
proof (induction u arbitrary: prev s)
  case (Cons c u)
  show ?case
  proof (cases s)
    case (Cons d t)
    show ?thesis
    proof (cases "match_at p prev s")
      case None
      with Cons Cons.prems have "d = c" "u @ w = sub p f (Some c) t" by auto
      with Cons.IH [of "Some c" t] Cons.prems(1) Cons show ?thesis by auto
    next
      case (Some m)
      obtain us r where "m = (us, r)" by (cases m)
      moreover obtain x where "f us = CHR ''['' # x" using assms(1) by blast
      ultimately show ?thesis using Some Cons Cons.prems by simp
    qed
  qed (use Cons.prems in simp)
qed simp

section \<open>Words in pieces\<close>

lemma words_many: "words (many (Cls P)) u \<longleftrightarrow> list_all P u"
proof
  assume "words (many (Cls P)) u"
  then obtain us where us: "u = concat us" "list_all (words (Cls P)) us" by auto
  then show "list_all P u" by (force simp: list_all_iff)
next
  assume "list_all P u"
  then show "words (many (Cls P)) u"
    by (auto simp: list_all_iff intro!: exI [of _ "map (\<lambda>c. [c]) u"])
qed

lemma words_sequences:
  "words (Cat (Cls P) r) u \<longleftrightarrow> (\<exists>c w. u = c # w \<and> P c \<and> words r w)"
  "words (Cat (many (Cls P)) r) u \<longleftrightarrow> (\<exists>v w. u = v @ w \<and> list_all P v \<and> words r w)"
  unfolding words.simps(3) words.simps(2) [of P] words_many by (metis append_Cons append_Nil, blast)

lemma words_intros:
  "words Eps []"
  "P c \<Longrightarrow> words r w \<Longrightarrow> words (Cat (Cls P) r) (c # w)"
  "list_all P v \<Longrightarrow> words r w \<Longrightarrow> words (Cat (many (Cls P)) r) (v @ w)"
  unfolding words_sequences by auto

text \<open>A word of the pattern in its place is found.\<close>

lemma match_at_found:
  assumes "list_all solid (pt_parts p)" "list_all2 words (pt_parts p) us" "\<not> blocked p prev" "\<not> pt_ahead p w"
  shows "match_at p prev (concat us @ w) \<noteq> None"
  using match_at_None [OF assms(1) _ assms(2,3)] assms(4) by blast

lemma search_found:
  assumes "match_at p (if pre = [] then prev else Some (last pre)) (u @ w) \<noteq> None" "u @ w \<noteq> []"
  shows "search p prev (pre @ u @ w)"
  using assms(1)
proof (induction pre arbitrary: prev)
  case Nil
  then show ?case using assms(2) by (cases "u @ w") simp_all
next
  case (Cons c pre)
  then show ?case by (cases "pre = []") simp_all
qed

end
