(* ===== verification/Trace_Masking.thy ===== *)
theory Trace_Masking
  imports PyJson Regex
begin

text \<open>
  Masking of exported traces (\<open>src/core/trace_masking.py\<close>). Its regular
  expressions are those of \<open>Regex\<close>. The lemmas show that an exported span
  holds no e-mail address and no long number.
\<close>

section \<open>The module\<close>

definition EMAIL_REDACTED :: string where
  "EMAIL_REDACTED = ''[EMAIL_REDACTED]''"

definition NUMBER_REDACTED :: string where
  "NUMBER_REDACTED = ''[NUMBER_REDACTED]''"

definition EMAIL :: pattern where
  "EMAIL = \<lparr>pt_behind = (\<lambda>_. False),
     pt_parts = [seq [some (Cls (\<lambda>c. is_word c \<or> c \<in> set ''.+-'')), chr (CHR ''@''),
       some (Cls (\<lambda>c. is_word c \<or> c = CHR ''-'')),
       some (seq [chr (CHR ''.''), some (Cls (\<lambda>c. is_word c \<or> c = CHR ''-''))])]],
     pt_ahead = (\<lambda>_. False)\<rparr>"

definition LONG_NUMBER :: pattern where
  "LONG_NUMBER = \<lparr>pt_behind = (\<lambda>c. is_word c \<or> c \<in> set ''.-''),
     pt_parts = [seq [Rep 0 (Some 1) (chr (CHR ''+'')), Rep 0 (Some 1) (chr (CHR ''('')), Cls is_decimal,
       Rep 8 (Some 18) (seq [Rep 0 (Some 2) (Cls (\<lambda>c. c \<in> set '' ()-'')), Cls is_decimal])]],
     pt_ahead = (\<lambda>s. case s of [] \<Rightarrow> False
       | c # r \<Rightarrow> is_word c \<or> c = CHR ''-'' \<or> c = CHR ''.'' \<and> r \<noteq> [] \<and> is_decimal (hd r))\<rparr>"

definition USER_ID_FIELD :: pattern where
  "USER_ID_FIELD =
     (let quote = CHR 0x22; backslashes = many (chr (CHR 0x5C)); white = many (Cls is_white)
      in \<lparr>pt_behind = (\<lambda>_. False),
          pt_parts =
            [seq ([backslashes, chr quote] @ map (\<lambda>c. Cls (\<lambda>x. x = c)) ''user_id'' @
                  [backslashes, chr quote, white, chr (CHR '':''), white, backslashes, chr quote]),
             many (Cls (\<lambda>c. c \<noteq> quote \<and> c \<noteq> CHR 0x5C)),
             seq [backslashes, chr quote]],
          pt_ahead = (\<lambda>_. False)\<rparr>)"

text \<open>\<open>_PSEUDONYM.match\<close>: \<open>$\<close> also matches before a newline that ends the text.\<close>

definition is_pseudonym :: "string \<Rightarrow> bool" where
  "is_pseudonym s =
     (take 4 s = ''usr_'' \<and> length (drop 4 s) \<ge> 12 \<and> list_all is_hex (take 12 (drop 4 s)) \<and>
      drop 16 s \<in> {[], [CHR 0x0A]})"

text \<open>\<open>sha256\<close> stands for the hexadecimal digest of the text's UTF-8 encoding.\<close>

definition pseudonymize_user_id :: "(string \<Rightarrow> string) \<Rightarrow> string \<Rightarrow> string" where
  "pseudonymize_user_id sha256 user_id =
     (if is_pseudonym user_id then user_id else ''usr_'' @ take 12 (sha256 user_id))"

definition mask_user_ids :: "(string \<Rightarrow> string) \<Rightarrow> string \<Rightarrow> string" where
  "mask_user_ids sha256 =
     sub USER_ID_FIELD (\<lambda>us. us ! 0 @ pseudonymize_user_id sha256 (us ! 1) @ us ! 2) None"

definition mask_text :: "(string \<Rightarrow> string) \<Rightarrow> string \<Rightarrow> string" where
  "mask_text sha256 t =
     (let masked = mask_user_ids sha256 t;
          masked' = sub EMAIL (\<lambda>_. EMAIL_REDACTED) None masked
      in sub LONG_NUMBER (\<lambda>_. NUMBER_REDACTED) None masked')"

text \<open>Spans by identifier with their attributes; the result holds the patches, by identifier.\<close>

definition replacements :: "(string \<Rightarrow> string) \<Rightarrow> dict \<Rightarrow> (string \<times> string) list" where
  "replacements sha256 attributes =
     List.map_filter
       (\<lambda>(key, value). case value of
          JStr s \<Rightarrow> (let masked = mask_text sha256 s in if masked \<noteq> s then Some (key, masked) else None)
        | _ \<Rightarrow> None) attributes"

definition mask_otel_spans ::
  "(string \<Rightarrow> string) \<Rightarrow> ('i \<times> dict) list \<Rightarrow> ('i \<times> (string \<times> string) list) list option" where
  "mask_otel_spans sha256 spans =
     (let patches = filter (\<lambda>(_, rs). rs \<noteq> []) (map (\<lambda>(i, attributes). (i, replacements sha256 attributes)) spans)
      in if patches = [] then None else Some patches)"

section \<open>E-mail addresses\<close>

abbreviation email_rx :: rx where
  "email_rx \<equiv> hd (pt_parts EMAIL)"

lemma email_one: "pt_parts EMAIL = [email_rx]" "solid email_rx"
  by (auto simp: EMAIL_def)

lemma email_blocked [simp]: "\<not> blocked EMAIL q" "\<not> pt_ahead EMAIL w"
  by (simp_all add: EMAIL_def blocked_def split: option.split)

lemma email_hit: "match_at EMAIL q s = None \<longleftrightarrow> (\<forall>u w. s = u @ w \<longrightarrow> \<not> words email_rx u)"
  by (simp add: match_one [OF email_one])

lemma email_words:
  assumes "words email_rx u"
  shows "CHR ''['' \<notin> set u" "CHR '']'' \<notin> set u" "CHR ''@'' \<in> set u"
proof -
  show "CHR ''['' \<notin> set u" "CHR '']'' \<notin> set u"
    using words_letters [OF assms] by (force simp: EMAIL_def is_word_def)+
  show "CHR ''@'' \<in> set u" using assms by (auto simp: EMAIL_def)
qed

lemma email_before_bracket:
  assumes "CHR ''@'' \<notin> set y"
  shows "match_at EMAIL q (y @ CHR '']'' # z) = None"
  unfolding email_hit
proof (intro allI impI notI)
  fix u w assume u: "y @ CHR '']'' # z = u @ w" "words email_rx u"
  then obtain v where "y = u @ v"
    using email_words(2) [OF u(2)] by (auto simp: append_eq_append_conv2 append_eq_Cons_conv Cons_eq_append_conv)
  with email_words(3) [OF u(2)] assms show False by simp
qed

lemma email_skip:
  "CHR ''@'' \<notin> set y \<Longrightarrow> search EMAIL q (y @ CHR '']'' # z) = search EMAIL (Some (CHR '']'')) z"
proof (induction y arbitrary: q)
  case Nil
  then show ?case using email_before_bracket [of "[]" q z] by simp
next
  case (Cons c y)
  then show ?case using email_before_bracket [of "c # y" q z] by simp
qed

lemma email_sub:
  assumes kept: "\<And>pre q c t. s = pre @ c # t \<Longrightarrow> match_at p q (c # t) = None \<Longrightarrow> match_at EMAIL None (c # t) = None"
    and "\<And>us. \<exists>x. f us = CHR ''['' # x @ '']'' \<and> CHR ''@'' \<notin> set x"
  shows "\<not> search EMAIL q (sub p f prev s)"
  using assms
proof (induction p f prev s arbitrary: q rule: sub.induct)
  case (2 p f prev c s)
  show ?case
  proof (cases "match_at p prev (c # s)")
    case None
    have "match_at EMAIL q (c # sub p f (Some c) s) = None"
      unfolding email_hit
    proof (intro allI impI notI)
      fix u w assume u: "c # sub p f (Some c) s = u @ w" "words email_rx u"
      have "u @ w = sub p f prev (c # s)" using u(1) None by simp
      from sub_prefix [OF _ email_words(1) [OF u(2)] this] "2.prems"(2)
      obtain s2 where "c # s = u @ s2" by metis
      with "2.prems"(1) [of "[]" c s prev] None u(2) show False by (simp add: email_hit)
    qed
    moreover have "\<not> search EMAIL (Some c) (sub p f (Some c) s)"
      using "2.IH"(1) [OF None] "2.prems" by (metis append_Cons)
    ultimately show ?thesis using None by simp
  next
    case (Some m)
    obtain us r where m: "m = (us, r)" by (cases m)
    obtain x where x: "f us = CHR ''['' # x @ '']''" "CHR ''@'' \<notin> set x" using "2.prems"(2) by blast
    have "\<not> search EMAIL (Some (CHR '']'')) (sub p f (Some (last (concat us))) (drop (length (concat us) - 1) s))"
      using "2.IH"(2) [OF Some m [symmetric]] "2.prems"
      by (metis append.assoc append_Cons append_take_drop_id)
    moreover have "search EMAIL q (f us @ z) = search EMAIL (Some (CHR '']'')) z" for z
      using email_skip [of "CHR ''['' # x" q z] x by simp
    ultimately show ?thesis using Some m by simp
  qed
qed simp

section \<open>Long numbers\<close>

abbreviation number_rx :: rx where
  "number_rx \<equiv> hd (pt_parts LONG_NUMBER)"

abbreviation group_rx :: rx where
  "group_rx \<equiv> seq [Rep 0 (Some 2) (Cls (\<lambda>c. c \<in> set '' ()-'')), Cls is_decimal]"

lemma number_one: "pt_parts LONG_NUMBER = [number_rx]" "solid number_rx"
  by (auto simp: LONG_NUMBER_def)

lemma optional_words: "words (Rep 0 (Some 1) r) u \<longleftrightarrow> u = [] \<or> words r u"
proof
  assume "words (Rep 0 (Some 1) r) u"
  then obtain us where us: "u = concat us" "list_all (words r) us" "length us \<le> 1" by auto
  then show "u = [] \<or> words r u" by (cases us) auto
next
  assume "u = [] \<or> words r u"
  then show "words (Rep 0 (Some 1) r) u"
  proof
    assume "u = []"
    then show ?thesis by (auto intro: exI [of _ "[]"])
  next
    assume "words r u"
    then show ?thesis by (auto intro: exI [of _ "[u]"])
  qed
qed

lemma words_four:
  "words (seq [a, b, c, d]) u \<longleftrightarrow>
    (\<exists>x y z t. u = x @ y @ z @ t \<and> words a x \<and> words b y \<and> words c z \<and> words d t)"
proof
  assume "words (seq [a, b, c, d]) u"
  then obtain x y z t where "u = x @ y @ z @ t" "words a x" "words b y" "words c z" "words d t" by auto
  then show "\<exists>x y z t. u = x @ y @ z @ t \<and> words a x \<and> words b y \<and> words c z \<and> words d t" by blast
next
  assume "\<exists>x y z t. u = x @ y @ z @ t \<and> words a x \<and> words b y \<and> words c z \<and> words d t"
  then obtain x y z t where x: "u = x @ (y @ z @ t)" "words a x" "words b y" "words c z" "words d t" by auto
  then have "words (seq [c, d]) (z @ t)" by auto
  with x have "words (seq [b, c, d]) (y @ z @ t)" by (simp only: foldr.simps o_apply words.simps) blast
  with x show "words (seq [a, b, c, d]) u" by (simp only: foldr.simps o_apply words.simps) blast
qed

lemma number_words:
  "words number_rx u \<longleftrightarrow>
    (\<exists>a b d us. u = a @ b @ d # concat us \<and> (a = [] \<or> a = ''+'') \<and> (b = [] \<or> b = ''('') \<and>
       is_decimal d \<and> list_all (words group_rx) us \<and> 8 \<le> length us \<and> length us \<le> 18)"
proof -
  have "number_rx = seq [Rep 0 (Some 1) (chr (CHR ''+'')), Rep 0 (Some 1) (chr (CHR ''('')), Cls is_decimal,
      Rep 8 (Some 18) group_rx]"
    by (simp add: LONG_NUMBER_def)
  then have "words number_rx u \<longleftrightarrow>
      (\<exists>a b d v. u = a @ b @ d @ v \<and> (a = [] \<or> words (chr (CHR ''+'')) a) \<and> (b = [] \<or> words (chr (CHR ''('')) b) \<and>
         words (Cls is_decimal) d \<and> words (Rep 8 (Some 18) group_rx) v)"
    by (simp only: words_four optional_words)
  also have "\<dots> \<longleftrightarrow>
      (\<exists>a b d v. u = a @ b @ d # v \<and> (a = [] \<or> a = ''+'') \<and> (b = [] \<or> b = ''('') \<and>
         is_decimal d \<and> words (Rep 8 (Some 18) group_rx) v)"
    (is "?l \<longleftrightarrow> ?r")
  proof
    assume ?l
    then obtain a b d v where "u = a @ b @ d @ v" "a = [] \<or> words (chr (CHR ''+'')) a" "b = [] \<or> words (chr (CHR ''('')) b"
        "words (Cls is_decimal) d" and v: "words (Rep 8 (Some 18) group_rx) v" by blast
    moreover then obtain e where "d = [e]" "is_decimal e" by auto
    ultimately show ?r by (intro exI [of _ a] exI [of _ b] exI [of _ e] exI [of _ v] conjI) auto
  next
    assume ?r
    then obtain a b d v where "u = a @ b @ d # v" "a = [] \<or> a = ''+''" "b = [] \<or> b = ''(''" "is_decimal d"
        and v: "words (Rep 8 (Some 18) group_rx) v" by blast
    then have "u = a @ b @ [d] @ v" "a = [] \<or> words (chr (CHR ''+'')) a" "b = [] \<or> words (chr (CHR ''('')) b"
        "words (Cls is_decimal) [d]" by auto
    with v show ?l by blast
  qed
  also have "\<dots> \<longleftrightarrow> (\<exists>a b d us. u = a @ b @ d # concat us \<and> (a = [] \<or> a = ''+'') \<and> (b = [] \<or> b = ''('') \<and>
       is_decimal d \<and> list_all (words group_rx) us \<and> 8 \<le> length us \<and> length us \<le> 18)"
    unfolding words.simps(5) [of 8] option.case by blast
  finally show ?thesis .
qed

lemma group_last:
  assumes "words group_rx u"
  shows "u \<noteq> [] \<and> is_decimal (last u)"
  using assms by auto

lemma number_last:
  assumes "words number_rx u"
  shows "u \<noteq> []" "is_decimal (last u)"
proof -
  from assms obtain a b d us where u: "u = a @ b @ d # concat us" "is_decimal d"
      "list_all (words group_rx) us" "8 \<le> length us"
    unfolding number_words by blast
  then obtain vs v where us: "us = vs @ [v]" by (metis append_butlast_last_id le_numeral_extra(2) list.size(3) not_numeral_le_zero)
  with u(3) group_last [of v] have "v \<noteq> []" "is_decimal (last v)" by auto
  with u us show "u \<noteq> []" "is_decimal (last u)" by auto
qed

lemma number_tail:
  assumes "words number_rx (c # u)" "\<not> is_decimal c"
  shows "c = CHR ''+'' \<or> c = CHR ''(''" "words number_rx u"
proof -
  from assms(1) obtain a b d us where u: "c # u = a @ b @ d # concat us" "a = [] \<or> a = ''+''" "b = [] \<or> b = ''(''"
      "is_decimal d" "list_all (words group_rx) us" "8 \<le> length us" "length us \<le> 18"
    unfolding number_words by blast
  with assms(2) have "c = CHR ''+'' \<and> a = ''+'' \<and> u = b @ d # concat us \<or>
      c = CHR ''('' \<and> a = [] \<and> b = ''('' \<and> u = d # concat us"
    by auto
  then show "c = CHR ''+'' \<or> c = CHR ''(''" "words number_rx u"
    unfolding number_words using u(3-) by (blast, metis append_Nil)
qed

lemma number_letters:
  assumes "words number_rx u" "c \<in> set u"
  shows "is_decimal c \<or> c \<in> set ''+ ()-''"
  using words_letters [OF assms] by (auto simp: LONG_NUMBER_def)

lemma number_head:
  assumes "words number_rx (c # u)"
  shows "is_decimal c \<or> c = CHR ''+'' \<or> c = CHR ''(''"
  using number_tail(1) [OF assms] by blast

lemma decimal_word: "is_decimal c \<Longrightarrow> is_word c"
  by (auto simp: is_decimal_def is_word_def Let_def)

lemma number_blocked: "blocked LONG_NUMBER (Some c) \<longleftrightarrow> is_word c \<or> c = CHR ''.'' \<or> c = CHR ''-''"
  "\<not> blocked LONG_NUMBER None"
  by (auto simp: blocked_def LONG_NUMBER_def)

lemma number_ahead:
  "pt_ahead LONG_NUMBER s \<longleftrightarrow>
    (case s of [] \<Rightarrow> False
     | c # r \<Rightarrow> is_word c \<or> c = CHR ''-'' \<or> c = CHR ''.'' \<and> r \<noteq> [] \<and> is_decimal (hd r))"
  by (simp add: LONG_NUMBER_def)

lemma number_kept: "blocked LONG_NUMBER q \<Longrightarrow> match_at LONG_NUMBER q s = None"
  by (simp add: match_one [OF number_one])

lemma ahead_sub:
  assumes "is_decimal d" "pt_ahead LONG_NUMBER s"
  shows "pt_ahead LONG_NUMBER (sub LONG_NUMBER f (Some d) s)"
proof (cases s)
  case (Cons c r)
  have n: "match_at LONG_NUMBER (Some d) s = None"
    using assms(1) by (simp add: number_kept number_blocked decimal_word)
  show ?thesis
  proof (cases r)
    case (Cons e t)
    have "c = CHR ''.'' \<Longrightarrow> match_at LONG_NUMBER (Some c) r = None"
      by (simp add: number_kept number_blocked)
    with n assms(2) show ?thesis by (auto simp: number_ahead \<open>s = c # r\<close> Cons)
  qed (use n assms(2) Cons in \<open>simp add: number_ahead\<close>)
qed (use assms in \<open>simp add: number_ahead\<close>)

lemma number_skip:
  assumes "list_all (\<lambda>c. \<not> is_decimal c \<and> c \<notin> set ''+('') y"
  shows "search LONG_NUMBER q (y @ z) = search LONG_NUMBER (if y = [] then q else Some (last y)) z"
  using assms
proof (induction y arbitrary: q)
  case (Cons c y)
  have "match_at LONG_NUMBER q (c # y @ z) = None"
    unfolding match_one [OF number_one]
  proof (intro disjI2 allI impI)
    fix u w assume u: "c # y @ z = u @ w" "words number_rx u"
    then obtain v where "u = c # v" using number_last(1) by (cases u) auto
    with number_head u(2) Cons.prems show "pt_ahead LONG_NUMBER w" by auto
  qed
  with Cons show ?case by simp
qed simp

lemma number_sub:
  assumes "q = prev \<or> q = Some (CHR '']'') \<and> (\<exists>d. prev = Some d \<and> is_decimal d) \<and> \<not> pt_ahead LONG_NUMBER s"
  shows "\<not> search LONG_NUMBER q (sub LONG_NUMBER (\<lambda>_. NUMBER_REDACTED) prev s)"
  using assms
proof (induction LONG_NUMBER "\<lambda>_ :: string list. NUMBER_REDACTED" prev s arbitrary: q rule: sub.induct)
  case (2 prev c s)
  let ?sub = "sub LONG_NUMBER (\<lambda>_. NUMBER_REDACTED)"
  have bracket: "\<exists>x. NUMBER_REDACTED = CHR ''['' # x" by (simp add: NUMBER_REDACTED_def)
  show ?case
  proof (cases "match_at LONG_NUMBER prev (c # s)")
    case None
    have "match_at LONG_NUMBER q (c # ?sub (Some c) s) = None"
    proof (rule ccontr)
      assume "match_at LONG_NUMBER q (c # ?sub (Some c) s) \<noteq> None"
      then obtain u w where free: "\<not> blocked LONG_NUMBER q" and
        u: "c # ?sub (Some c) s = u @ w" "words number_rx u" "\<not> pt_ahead LONG_NUMBER w"
        unfolding match_one [OF number_one] by blast
      obtain v where v: "u = c # v" using u number_last(1) by (cases u) auto
      have br: "CHR ''['' \<notin> set u" using number_letters [OF u(2)] by (force simp: is_decimal_def)
      have "u @ w = ?sub prev (c # s)" using u(1) None by simp
      from sub_prefix [OF bracket br this] v
      obtain s2 where s2: "c # s = u @ s2" "w = ?sub (Some (last u)) s2" by auto
      from ahead_sub [OF number_last(2) [OF u(2)]] u(3) s2(2) have "\<not> pt_ahead LONG_NUMBER s2" by blast
      with None s2(1) u(2) have "blocked LONG_NUMBER prev" unfolding match_one [OF number_one] by blast
      with free "2.prems" have "\<not> pt_ahead LONG_NUMBER (c # s)" by blast
      then have c: "\<not> is_decimal c" by (auto simp: number_ahead decimal_word)
      from number_tail [OF u(2) [unfolded v] c] have t: "c = CHR ''+'' \<or> c = CHR ''(''" "words number_rx v" by auto
      have "\<not> blocked LONG_NUMBER (Some c)" using t(1) by (auto simp: number_blocked is_word_def)
      moreover have "s = v @ s2" using s2(1) v by simp
      ultimately have "match_at LONG_NUMBER (Some c) s \<noteq> None"
        using t(2) \<open>\<not> pt_ahead LONG_NUMBER s2\<close> unfolding match_one [OF number_one] by blast
      moreover obtain d s' where "s = d # s'" using number_last(1) [OF t(2)] \<open>s = v @ s2\<close> by (cases v) auto
      ultimately have "hd (?sub (Some c) s) = CHR ''[''" by (auto simp: NUMBER_REDACTED_def)
      moreover have "hd (?sub (Some c) s) \<in> set u"
        using u(1) v number_last(1) [OF t(2)] by (cases v) auto
      ultimately show False using br by simp
    qed
    moreover have "\<not> search LONG_NUMBER (Some c) (?sub (Some c) s)"
      using "2.hyps"(1) [OF None] by blast
    ultimately show ?thesis using None by simp
  next
    case (Some m)
    obtain us r where m: "m = (us, r)" by (cases m)
    from match_one_Some [OF number_one Some [unfolded m]] obtain u where
      u: "us = [u]" "c # s = u @ r" "words number_rx u" "\<not> pt_ahead LONG_NUMBER r"
      by blast
    have r: "drop (length (concat us) - 1) s = r" using u(1,2) number_last(1) [OF u(3)] by (cases u) auto
    have "\<not> search LONG_NUMBER (Some (CHR '']'')) (?sub (Some (last u)) r)"
      using "2.hyps"(2) [OF Some m [symmetric], of "Some (CHR '']'')"] u(1,4) number_last(2) [OF u(3)] r by auto
    then show ?thesis
      using Some m u(1) r number_skip [of NUMBER_REDACTED q "?sub (Some (last u)) r"]
      by (simp add: NUMBER_REDACTED_def is_decimal_def)
  qed
qed simp

section \<open>User ids\<close>

lemma run_unique:
  assumes "x @ c # v = y @ d # w" "list_all P x" "list_all P y" "\<not> P c" "\<not> P d"
  shows "x = y \<and> c = d \<and> v = w"
  using assms
proof (induction x arbitrary: y)
  case Nil
  then show ?case by (cases y) auto
next
  case (Cons e x)
  then show ?case by (cases y) auto
qed

abbreviation quote :: char where
  "quote \<equiv> CHR 0x22"

abbreviation bs :: "char \<Rightarrow> bool" where
  "bs c \<equiv> c = CHR 0x5C"

text \<open>A field with its backslashes and white space.\<close>

definition user_field :: "string \<Rightarrow> string \<Rightarrow> string \<Rightarrow> string \<Rightarrow> string \<Rightarrow> string" where
  "user_field a b w1 w2 c =
     a @ quote # ''user_id'' @ b @ quote # w1 @ CHR '':'' # w2 @ c @ [quote]"

abbreviation user_prefix_rx :: rx where
  "user_prefix_rx \<equiv> seq ([many (chr (CHR 0x5C)), chr quote] @ map (\<lambda>c. Cls (\<lambda>x. x = c)) ''user_id'' @
     [many (chr (CHR 0x5C)), chr quote, many (Cls is_white), chr (CHR '':''), many (Cls is_white),
      many (chr (CHR 0x5C)), chr quote])"

lemma user_prefix_words:
  "words user_prefix_rx g \<longleftrightarrow>
    (\<exists>a b w1 w2 c. g = user_field a b w1 w2 c \<and> list_all bs a \<and> list_all bs b \<and>
       list_all is_white w1 \<and> list_all is_white w2 \<and> list_all bs c)" (is "?l \<longleftrightarrow> ?r")
proof
  assume ?l
  then show ?r
    unfolding list.map append.simps foldr.simps o_apply id_apply words_sequences words.simps(1)
    by (elim exE conjE) (simp add: user_field_def, blast)
next
  assume ?r
  then show ?l
    unfolding list.map append.simps foldr.simps o_apply id_apply
    by (auto simp: user_field_def simp del: words.simps intro!: words_intros)
qed

lemma three_parts:
  "list_all2 words [r, many (Cls P), seq [many (Cls Q), chr e]] us \<longleftrightarrow>
    (\<exists>g v d. us = [g, v, d @ [e]] \<and> words r g \<and> list_all P v \<and> list_all Q d)"
proof -
  have "words (seq [many (Cls Q), chr e]) u \<longleftrightarrow> (\<exists>d. u = d @ [e] \<and> list_all Q d)" for u
    by (auto simp: words_sequences simp del: words.simps(2-5))
  then show ?thesis
    unfolding list_all2_Cons1 words_many by auto
qed

lemma user_words:
  "list_all2 words (pt_parts USER_ID_FIELD) us \<longleftrightarrow>
    (\<exists>g v d. us = [g, v, d @ [quote]] \<and> words user_prefix_rx g \<and>
       list_all (\<lambda>c. c \<noteq> quote \<and> \<not> bs c) v \<and> list_all bs d)"
proof -
  have parts: "pt_parts USER_ID_FIELD =
      [user_prefix_rx, many (Cls (\<lambda>c. c \<noteq> quote \<and> \<not> bs c)), seq [many (chr (CHR 0x5C)), chr quote]]"
    by (simp add: USER_ID_FIELD_def Let_def)
  show ?thesis unfolding parts by (rule three_parts)
qed

lemma user_solid: "list_all solid (pt_parts USER_ID_FIELD)"
  by (simp add: USER_ID_FIELD_def Let_def)

lemma user_free [simp]: "\<not> pt_ahead USER_ID_FIELD w" "\<not> blocked USER_ID_FIELD q"
  by (simp_all add: USER_ID_FIELD_def blocked_def Let_def split: option.split)

text \<open>A field reads in one way only.\<close>

lemma user_unique:
  assumes "user_field a b w1 w2 c @ v @ d @ quote # r = user_field a' b' w1' w2' c' @ v' @ d' @ quote # r'"
    "list_all bs a" "list_all bs a'" "list_all bs b" "list_all bs b'" "list_all is_white w1" "list_all is_white w1'"
    "list_all is_white w2" "list_all is_white w2'" "list_all bs c" "list_all bs c'"
    "list_all (\<lambda>c. c \<noteq> quote \<and> \<not> bs c) v" "list_all (\<lambda>c. c \<noteq> quote \<and> \<not> bs c) v'" "list_all bs d" "list_all bs d'"
  shows "a = a' \<and> b = b' \<and> w1 = w1' \<and> w2 = w2' \<and> c = c' \<and> v = v' \<and> d = d' \<and> r = r'"
proof -
  have q: "\<not> bs quote" "\<not> is_white (CHR '':'')" "\<not> is_white quote" "\<not> is_white (CHR 0x5C)" by (auto simp: is_white_def)
  from run_unique [OF assms(1) [unfolded user_field_def append_assoc append_Cons] assms(2,3) q(1) q(1)]
  have 1: "a = a'" and "b @ quote # w1 @ CHR '':'' # w2 @ c @ quote # v @ d @ quote # r =
      b' @ quote # w1' @ CHR '':'' # w2' @ c' @ quote # v' @ d' @ quote # r'" by simp_all
  from run_unique [OF this(2) assms(4,5) q(1) q(1)]
  have 2: "b = b'" and "w1 @ CHR '':'' # w2 @ c @ quote # v @ d @ quote # r =
      w1' @ CHR '':'' # w2' @ c' @ quote # v' @ d' @ quote # r'" by simp_all
  from run_unique [OF this(2) assms(6,7) q(2) q(2)]
  have 3: "w1 = w1'" and e: "w2 @ c @ quote # v @ d @ quote # r = w2' @ c' @ quote # v' @ d' @ quote # r'" by simp_all
  obtain h t h' t' where h: "c @ quote # v @ d @ quote # r = h # t" "c' @ quote # v' @ d' @ quote # r' = h' # t'"
      "h = quote \<or> bs h" "h' = quote \<or> bs h'"
    using assms(10,11) by (cases c; cases c') auto
  then have "\<not> is_white h" "\<not> is_white h'" using q by auto
  from run_unique [OF e [unfolded h(1,2)] assms(8,9) this] h
  have 4: "w2 = w2'" and "c @ quote # v @ d @ quote # r = c' @ quote # v' @ d' @ quote # r'" by simp_all
  from run_unique [OF this(2) assms(10,11) q(1) q(1)]
  have 5: "c = c'" and e: "v @ d @ quote # r = v' @ d' @ quote # r'" by simp_all
  obtain h t h' t' where h: "d @ quote # r = h # t" "d' @ quote # r' = h' # t'"
      "h = quote \<or> bs h" "h' = quote \<or> bs h'"
    using assms(14,15) by (cases d; cases d') auto
  from run_unique [OF e [unfolded h(1,2)] assms(12,13)] h
  have 6: "v = v'" and "d @ quote # r = d' @ quote # r'" by simp_all
  from run_unique [OF this(2) assms(14,15) q(1) q(1)] 1 2 3 4 5 6 show ?thesis by simp
qed

lemma user_match:
  assumes "list_all bs a" "list_all bs b" "list_all is_white w1" "list_all is_white w2" "list_all bs c"
    "list_all (\<lambda>c. c \<noteq> quote \<and> \<not> bs c) v" "list_all bs d"
  shows "match_at USER_ID_FIELD q (user_field a b w1 w2 c @ v @ d @ quote # r) =
    Some ([user_field a b w1 w2 c, v, d @ [quote]], r)"
proof -
  let ?us = "[user_field a b w1 w2 c, v, d @ [quote]]"
  have "words user_prefix_rx (user_field a b w1 w2 c)"
    unfolding user_prefix_words using assms by blast
  then have w: "list_all2 words (pt_parts USER_ID_FIELD) ?us"
    unfolding user_words using assms by blast
  have c: "user_field a b w1 w2 c @ v @ d @ quote # r = concat ?us @ r" by simp
  have "match_at USER_ID_FIELD q (concat ?us @ r) \<noteq> None"
    using match_at_None [OF user_solid _ w, of q r] user_free by blast
  then obtain us t where m: "match_at USER_ID_FIELD q (concat ?us @ r) = Some (us, t)" by auto
  from match_at_Some [OF user_solid m] obtain g v' d' where
    us: "concat ?us @ r = concat us @ t" "us = [g, v', d' @ [quote]]" "words user_prefix_rx g"
      "list_all (\<lambda>c. c \<noteq> quote \<and> \<not> bs c) v'" "list_all bs d'"
    unfolding user_words by blast
  from us(3) obtain a' b' w1' w2' c' where g: "g = user_field a' b' w1' w2' c'" "list_all bs a'" "list_all bs b'"
      "list_all is_white w1'" "list_all is_white w2'" "list_all bs c'"
    unfolding user_prefix_words by blast
  have "user_field a b w1 w2 c @ v @ d @ quote # r = user_field a' b' w1' w2' c' @ v' @ d' @ quote # t"
    using us(1) unfolding us(2) g(1) by simp
  from user_unique [OF this assms(1) g(2) assms(2) g(3) assms(3) g(4) assms(4) g(5) assms(5) g(6) assms(6) us(4) assms(7) us(5)]
  have eq: "a = a'" "b = b'" "w1 = w1'" "w2 = w2'" "c = c'" "v = v'" "d = d'" "r = t" by blast+
  then have "us = ?us" by (simp only: us(2) g(1))
  with m c eq(8) show ?thesis by simp
qed

lemma user_skip:
  assumes "c \<noteq> quote" "\<not> bs c"
  shows "match_at USER_ID_FIELD q (c # s) = None"
proof (rule ccontr)
  assume "match_at USER_ID_FIELD q (c # s) \<noteq> None"
  then obtain us r where m: "match_at USER_ID_FIELD q (c # s) = Some (us, r)" by auto
  from match_at_Some [OF user_solid m] obtain g v d where g: "c # s = concat [g, v, d @ [quote]] @ r" "words user_prefix_rx g"
    unfolding user_words by blast
  from g(2) obtain a b w1 w2 e where "g = user_field a b w1 w2 e" "list_all bs a"
    unfolding user_prefix_words by blast
  with g(1) assms show False by (cases a) (auto simp: user_field_def)
qed

lemma sub_previous: "(\<And>c. \<not> pt_behind p c) \<Longrightarrow> sub p f q s = sub p f q' s"
  by (cases s) (simp_all add: match_at_def split: option.split)

lemma mask_user_ids_skip:
  "list_all (\<lambda>c. c \<noteq> quote \<and> \<not> bs c) pre \<Longrightarrow> mask_user_ids sha (pre @ s) = pre @ mask_user_ids sha s"
  unfolding mask_user_ids_def
proof (induction pre)
  case (Cons c pre)
  then show ?case
    using sub_previous [of USER_ID_FIELD _ "Some c" _ None]
    by (simp add: user_skip) (simp add: USER_ID_FIELD_def Let_def)
qed simp

lemma mask_user_ids_field:
  assumes "list_all bs a" "list_all bs b" "list_all is_white w1" "list_all is_white w2" "list_all bs c"
    "list_all (\<lambda>c. c \<noteq> quote \<and> \<not> bs c) v" "list_all bs d"
  shows "mask_user_ids sha (user_field a b w1 w2 c @ v @ d @ quote # r) =
    user_field a b w1 w2 c @ pseudonymize_user_id sha v @ d @ quote # mask_user_ids sha r"
proof -
  let ?us = "[user_field a b w1 w2 c, v, d @ [quote]]"
  obtain e s where s: "user_field a b w1 w2 c @ v @ d @ quote # r = e # s"
    by (cases "user_field a b w1 w2 c @ v @ d @ quote # r") simp_all
  have "concat ?us @ r = e # s" using s by simp
  moreover obtain n where n: "length (concat ?us) = Suc n" by (cases "length (concat ?us)") auto
  ultimately have r: "drop n s = r" by (metis append_eq_conv_conj drop_Suc_Cons)
  have "mask_user_ids sha (e # s) = user_field a b w1 w2 c @ pseudonymize_user_id sha v @ (d @ [quote]) @
      sub USER_ID_FIELD (\<lambda>us. us ! 0 @ pseudonymize_user_id sha (us ! 1) @ us ! 2) (Some (last (concat ?us))) r"
    unfolding mask_user_ids_def using user_match [OF assms, of None r] s r n by simp
  also have "sub USER_ID_FIELD f (Some (last (concat ?us))) r = sub USER_ID_FIELD f None r" for f
    by (rule sub_previous) (simp add: USER_ID_FIELD_def Let_def)
  finally show ?thesis using s by (simp add: mask_user_ids_def)
qed

section \<open>Pseudonyms and spans\<close>

definition hex_digest :: "(string \<Rightarrow> string) \<Rightarrow> bool" where
  "hex_digest sha \<longleftrightarrow> (\<forall>s. length (sha s) = 64 \<and> list_all is_hex (sha s))"

lemma pseudonym_shape:
  assumes "hex_digest sha"
  shows "is_pseudonym (pseudonymize_user_id sha u)"
proof -
  have "length (sha u) = 64" "list_all is_hex (take 12 (sha u))"
    using assms by (auto simp: hex_digest_def list_all_iff dest: in_set_takeD)
  then show ?thesis by (simp add: pseudonymize_user_id_def is_pseudonym_def)
qed

text \<open>What the exporter sends: the span's attributes with its patch over them.\<close>

definition exported :: "dict \<Rightarrow> (string \<times> string) list option \<Rightarrow> dict" where
  "exported attributes patch =
     (case patch of None \<Rightarrow> attributes
      | Some rs \<Rightarrow> map (\<lambda>(k, v). (k, case map_of rs k of None \<Rightarrow> v | Some s \<Rightarrow> JStr s)) attributes)"

definition masked_value :: "(string \<Rightarrow> string) \<Rightarrow> json \<Rightarrow> json" where
  "masked_value sha v = (case v of JStr s \<Rightarrow> JStr (mask_text sha s) | _ \<Rightarrow> v)"

lemma replacements_simps:
  "replacements sha [] = []"
  "replacements sha ((k, v) # d) =
     (case v of JStr s \<Rightarrow> if mask_text sha s \<noteq> s then (k, mask_text sha s) # replacements sha d else replacements sha d
      | _ \<Rightarrow> replacements sha d)"
  unfolding replacements_def Let_def by (simp_all add: List.map_filter_simps split: json.split)

lemma replacements_keys: "k \<notin> fst ` set d \<Longrightarrow> map_of (replacements sha d) k = None"
proof (induction d)
  case (Cons e d)
  then show ?case by (cases e; cases "snd e") (auto simp: replacements_simps)
qed (simp add: replacements_simps)

lemma map_of_replacements:
  "distinct (map fst d) \<Longrightarrow> (k, v) \<in> set d \<Longrightarrow>
   (case map_of (replacements sha d) k of None \<Rightarrow> v | Some s \<Rightarrow> JStr s) = masked_value sha v"
proof (induction d)
  case (Cons e d)
  obtain k' w where e: "e = (k', w)" by (cases e)
  show ?case
  proof (cases "k = k'")
    case True
    with Cons.prems e have "v = w" "k \<notin> fst ` set d" by force+
    then show ?thesis
      using replacements_keys [of k d sha] True by (cases w) (simp_all add: e replacements_simps masked_value_def)
  next
    case False
    with Cons.prems e have "(k, v) \<in> set d" "distinct (map fst d)" by auto
    from Cons.IH [OF this(2,1)] False show ?thesis by (cases w) (simp_all add: e replacements_simps)
  qed
qed simp

lemma exported_masked:
  assumes "distinct (map fst d)"
  shows "exported d (Some (replacements sha d)) = map (\<lambda>(k, v). (k, masked_value sha v)) d"
  using map_of_replacements [OF assms, of _ _ sha] by (auto simp: exported_def)

lemma exported_same:
  assumes "distinct (map fst d)" "replacements sha d = []"
  shows "map (\<lambda>(k, v). (k, masked_value sha v)) d = d"
  using exported_masked [OF assms(1), of sha] assms(2) by (simp add: exported_def)

lemma mask_text_clean:
  "\<not> search EMAIL None (mask_text sha t)" "\<not> search LONG_NUMBER None (mask_text sha t)"
proof -
  define e where "e = sub EMAIL (\<lambda>_. EMAIL_REDACTED) None (mask_user_ids sha t)"
  have m: "mask_text sha t = sub LONG_NUMBER (\<lambda>_. NUMBER_REDACTED) None e"
    by (simp add: mask_text_def e_def Let_def)
  show "\<not> search LONG_NUMBER None (mask_text sha t)" unfolding m by (rule number_sub) simp
  have "\<not> search EMAIL q e" for q
    unfolding e_def
    by (rule email_sub) (auto simp: email_hit EMAIL_REDACTED_def)
  moreover have "\<not> search EMAIL q (pre @ c # t) \<Longrightarrow> match_at EMAIL None (c # t) = None" for q pre c t
    by (induction pre arbitrary: q) (auto simp: email_hit)
  ultimately have "e = pre @ c # t \<Longrightarrow> match_at EMAIL None (c # t) = None" for pre c t by blast
  then show "\<not> search EMAIL None (mask_text sha t)"
    unfolding m by (rule email_sub) (auto simp: NUMBER_REDACTED_def)
qed

section \<open>Properties\<close>

lemma map_of_patches:
  assumes "distinct (map fst spans)" "(i, d) \<in> set spans"
  shows "map_of (filter (\<lambda>(_, rs). rs \<noteq> []) (map (\<lambda>(i, d). (i, replacements sha d)) spans)) i =
    (if replacements sha d = [] then None else Some (replacements sha d))"
  using assms by (induction spans) (force simp: map_of_eq_None_iff)+

lemma patched_span:
  assumes "distinct (map fst spans)" "(i, d) \<in> set spans" "distinct (map fst d)"
  shows "exported d (Option.bind (mask_otel_spans sha spans) (\<lambda>ps. map_of ps i)) =
    map (\<lambda>(k, v). (k, masked_value sha v)) d"
proof -
  have "Option.bind (mask_otel_spans sha spans) (\<lambda>ps. map_of ps i) =
      (if replacements sha d = [] then None else Some (replacements sha d))"
    using map_of_patches [OF assms(1,2), of sha] by (auto simp: mask_otel_spans_def Let_def split: if_splits)
  then show ?thesis
    using exported_masked [OF assms(3), of sha] exported_same [OF assms(3), of sha]
    by (cases "replacements sha d = []") (simp_all add: exported_def)
qed

text \<open>
  C32. What leaves the process is masked: with the hook's patches over them, the spans of a batch
  are the original ones with every string attribute replaced by its masked text and nothing else
  changed, and a masked text holds neither an e-mail address nor a long number, as the module's own
  patterns find them.
\<close>

theorem exported_spans_masked:
  assumes "distinct (map fst spans)" "list_all (\<lambda>(_, d). distinct (map fst d)) spans"
  shows "map (\<lambda>(i, d). (i, exported d (Option.bind (mask_otel_spans sha spans) (\<lambda>ps. map_of ps i)))) spans =
      map (\<lambda>(i, d). (i, map (\<lambda>(k, v). (k, masked_value sha v)) d)) spans \<and>
    \<not> search EMAIL None (mask_text sha t) \<and> \<not> search LONG_NUMBER None (mask_text sha t)"
  using assms patched_span mask_text_clean by (fastforce simp: list_all_iff)

theorem exported_spans_masked_witness:
  "map (\<lambda>(i, d). (i, exported d (Option.bind
       (mask_otel_spans (\<lambda>_. replicate 64 (CHR ''a''))
         [(7 :: nat, [(''input'', JStr ''Call +34 600 123 456 or a.b@c.es.''), (''n'', JInt 5)]), (8, [(''ok'', JStr ''15 days'')])])
       (\<lambda>ps. map_of ps i))))
     [(7, [(''input'', JStr ''Call +34 600 123 456 or a.b@c.es.''), (''n'', JInt 5)]), (8, [(''ok'', JStr ''15 days'')])] =
   [(7, [(''input'', JStr ''Call [NUMBER_REDACTED] or [EMAIL_REDACTED].''), (''n'', JInt 5)]), (8, [(''ok'', JStr ''15 days'')])]"
proof -
  have "mask_text (\<lambda>_. replicate 64 (CHR ''a'')) ''Call +34 600 123 456 or a.b@c.es.'' =
      ''Call [NUMBER_REDACTED] or [EMAIL_REDACTED].''"
    "mask_text (\<lambda>_. replicate 64 (CHR ''a'')) ''15 days'' = ''15 days''" by code_simp+
  then show ?thesis
    using exported_spans_masked [of "[(7 :: nat, [(''input'', JStr ''Call +34 600 123 456 or a.b@c.es.''), (''n'', JInt 5)]),
      (8, [(''ok'', JStr ''15 days'')])]" "\<lambda>_. replicate 64 (CHR ''a'')"] by (simp add: masked_value_def)
qed


end
