(* ===== verification/Tracing.thy ===== *)
theory Tracing
  imports Settings Trace_Masking
begin

text \<open>
  Tracing (\<open>src/core/tracing.py\<close>): the blocks that the steps of a claim run in. Langfuse and
  OpenTelemetry are not part of the repository; their calls are a record of functions over a state
  of their own, each of which may fail. The lemmas show why the other theories can leave
  tracing out (\<open>Traced_Worker\<close> puts it around the worker's message): a step that only records what it did gives the same result and leaves the same
  world, traced or not, whatever starting an observation or recording a field does.
\<close>

section \<open>The SDK\<close>

text \<open>
  Building the client, starting an observation or a propagation context and recording fields may
  raise, which is \<open>None\<close> or \<open>False\<close>; leaving a context may raise too, with the exception given.
  Contexts do not swallow the exception of their block.
\<close>

record 't sdk =
  sdk_trace_id :: "string \<Rightarrow> string"
  sdk_build :: "settings \<Rightarrow> 't \<Rightarrow> bool \<times> 't"
  sdk_start :: "string \<Rightarrow> dict \<Rightarrow> 't \<Rightarrow> nat option \<times> 't"
  sdk_propagate :: "dict \<Rightarrow> 't \<Rightarrow> nat option \<times> 't"
  sdk_update :: "nat \<Rightarrow> dict \<Rightarrow> 't \<Rightarrow> bool \<times> 't"
  sdk_exit :: "nat \<Rightarrow> 't \<Rightarrow> exn option \<times> 't"
  sdk_callback :: "string option \<Rightarrow> 't \<Rightarrow> bool \<times> 't"
  sdk_flush :: "'t \<Rightarrow> unit res \<times> 't"
  sdk_shutdown :: "'t \<Rightarrow> bool \<times> 't"

text \<open>The module's \<open>_client\<close> (not resolved yet, switched off, or a client) and \<open>_public_key\<close>.\<close>

datatype client = Unset | NoClient | Client

record 't tracing =
  tr_client :: client
  tr_key :: "string option"
  tr_sdk :: 't

section \<open>Observations\<close>

text \<open>\<open>TraceObservation\<close>: an observation, or none when tracing is off. \<open>update\<close> never raises.\<close>

type_synonym observation = "nat option"

definition update :: "'t sdk \<Rightarrow> observation \<Rightarrow> dict \<Rightarrow> 't tracing \<Rightarrow> 't tracing" where
  "update sdk obs fs tr =
     (case obs of None \<Rightarrow> tr
      | Some h \<Rightarrow> tr\<lparr>tr_sdk := snd (sdk_update sdk h (filter (\<lambda>kv. snd kv \<noteq> JNull) fs) (tr_sdk tr))\<rparr>)"

definition is_tracing_enabled :: "settings \<Rightarrow> bool" where
  "is_tracing_enabled cfg \<longleftrightarrow>
     LANGFUSE_TRACING_ENABLED cfg \<and> LANGFUSE_PUBLIC_KEY cfg \<noteq> [] \<and> LANGFUSE_SECRET_KEY cfg \<noteq> []"

definition get_client :: "'t sdk \<Rightarrow> settings \<Rightarrow> 't tracing \<Rightarrow> bool \<times> 't tracing" where
  "get_client sdk cfg tr =
     (case tr_client tr of
        Unset \<Rightarrow>
          if is_tracing_enabled cfg
          then (let (built, t) = sdk_build sdk cfg (tr_sdk tr)
                in (built, \<lparr>tr_client = (if built then Client else NoClient),
                            tr_key = (if built then Some (LANGFUSE_PUBLIC_KEY cfg) else None), tr_sdk = t\<rparr>))
          else (False, tr\<lparr>tr_client := NoClient, tr_key := None\<rparr>)
      | NoClient \<Rightarrow> (False, tr)
      | Client \<Rightarrow> (True, tr))"

definition configure_tracing :: "bool \<Rightarrow> string option \<Rightarrow> 't tracing \<Rightarrow> 't tracing" where
  "configure_tracing has_client public_key tr =
     tr\<lparr>tr_client := (if has_client then Client else NoClient), tr_key := (if has_client then public_key else None)\<rparr>"

definition mark_error :: "'t sdk \<Rightarrow> observation \<Rightarrow> exn \<Rightarrow> 't tracing \<Rightarrow> 't tracing" where
  "mark_error sdk obs e =
     update sdk obs [(''level'', JStr ''ERROR''), (''status_message'', JStr (exn_class e @ '': '' @ exn_msg e))]"

text \<open>An \<open>ExitStack\<close>: contexts are left in reverse order, all of them; the last exception wins.\<close>

fun leave :: "'t sdk \<Rightarrow> nat list \<Rightarrow> exn option \<Rightarrow> 't \<Rightarrow> exn option \<times> 't" where
  "leave sdk [] pending t = (pending, t)"
| "leave sdk (h # hs) pending t =
     (let (e, t') = sdk_exit sdk h t in leave sdk hs (case e of None \<Rightarrow> pending | Some x \<Rightarrow> Some x) t')"

text \<open>A traced step works on the claim's world and the tracing state, with its observation in hand.\<close>

type_synonym ('w, 't, 'a) traced = "observation \<Rightarrow> 'w \<times> 't tracing \<Rightarrow> 'a res \<times> 'w \<times> 't tracing"

definition enclosed :: "'t sdk \<Rightarrow> observation \<Rightarrow> nat list \<Rightarrow> ('w, 't, 'a) traced \<Rightarrow> 'w \<times> 't tracing \<Rightarrow> 'a res \<times> 'w \<times> 't tracing" where
  "enclosed sdk obs hs block wt =
     (let (r, w, tr) = block obs wt;
          tr1 = (case r of Inl e \<Rightarrow> mark_error sdk obs e tr | Inr _ \<Rightarrow> tr);
          (e, t) = leave sdk hs (case r of Inl e \<Rightarrow> Some e | Inr _ \<Rightarrow> None) (tr_sdk tr1)
      in (case e of None \<Rightarrow> r | Some x \<Rightarrow> Inl x, w, tr1\<lparr>tr_sdk := t\<rparr>))"

definition observe ::
  "'t sdk \<Rightarrow> settings \<Rightarrow> string \<Rightarrow> string \<Rightarrow> json \<Rightarrow> json \<Rightarrow> json \<Rightarrow> ('w, 't, 'a) traced \<Rightarrow>
   'w \<times> 't tracing \<Rightarrow> 'a res \<times> 'w \<times> 't tracing" where
  "observe sdk cfg name as_type input metadata model block wt =
     (let (w, tr) = wt; (on, tr1) = get_client sdk cfg tr
      in if \<not> on then block None (w, tr1)
         else case sdk_start sdk name [(''as_type'', JStr as_type), (''input'', input), (''metadata'', metadata), (''model'', model)]
                     (tr_sdk tr1) of
                (None, t) \<Rightarrow> block None (w, tr1\<lparr>tr_sdk := t\<rparr>)
              | (Some h, t) \<Rightarrow> enclosed sdk (Some h) [h] block (w, tr1\<lparr>tr_sdk := t\<rparr>))"

definition CLAIM_TRACE_NAME :: string where
  "CLAIM_TRACE_NAME = ''process-claim''"

text \<open>
  \<open>claim_trace\<close>: the trace id comes from the request id, the user id is a pseudonym. When the
  second context cannot be entered the first one is left before the block runs untraced.
\<close>

definition trace_args :: "'t sdk \<Rightarrow> string \<Rightarrow> json \<Rightarrow> dict" where
  "trace_args sdk request_id input =
     [(''as_type'', JStr ''chain''), (''input'', input),
      (''trace_context'', JObj [(''trace_id'', JStr (sdk_trace_id sdk request_id))])]"

definition trace_attributes :: "(string \<Rightarrow> string) \<Rightarrow> string \<Rightarrow> string \<Rightarrow> json \<Rightarrow> dict" where
  "trace_attributes sha256 request_id user_id tags =
     [(''trace_name'', JStr CLAIM_TRACE_NAME), (''user_id'', JStr (pseudonymize_user_id sha256 user_id)),
      (''metadata'', JObj [(''request_id'', JStr request_id)]), (''tags'', tags)]"

definition claim_trace ::
  "'t sdk \<Rightarrow> (string \<Rightarrow> string) \<Rightarrow> settings \<Rightarrow> string \<Rightarrow> string \<Rightarrow> json \<Rightarrow> json \<Rightarrow> ('w, 't, 'a) traced \<Rightarrow>
   'w \<times> 't tracing \<Rightarrow> 'a res \<times> 'w \<times> 't tracing" where
  "claim_trace sdk sha256 cfg request_id user_id input tags block wt =
     (let (w, tr) = wt; (on, tr1) = get_client sdk cfg tr
      in if \<not> on then block None (w, tr1)
         else case sdk_start sdk CLAIM_TRACE_NAME (trace_args sdk request_id input) (tr_sdk tr1) of
                (None, t) \<Rightarrow> block None (w, tr1\<lparr>tr_sdk := t\<rparr>)
              | (Some h, t) \<Rightarrow>
                  (case sdk_propagate sdk (trace_attributes sha256 request_id user_id tags) t of
                     (None, t1) \<Rightarrow>
                       (case leave sdk [h] None t1 of
                          (None, t2) \<Rightarrow> block None (w, tr1\<lparr>tr_sdk := t2\<rparr>)
                        | (Some e, t2) \<Rightarrow> (Inl e, w, tr1\<lparr>tr_sdk := t2\<rparr>))
                   | (Some p, t1) \<Rightarrow> enclosed sdk (Some h) [p, h] block (w, tr1\<lparr>tr_sdk := t1\<rparr>)))"

text \<open>
  The configuration of a LangChain call: empty, or the callback's key and the run's name. Flushing
  may raise; it is for tests and scripts.
\<close>

definition langchain_config ::
  "'t sdk \<Rightarrow> settings \<Rightarrow> string option \<Rightarrow> 't tracing \<Rightarrow> (string option \<times> string option) option \<times> 't tracing" where
  "langchain_config sdk cfg run_name tr =
     (let (on, tr1) = get_client sdk cfg tr
      in if \<not> on then (None, tr1)
         else let (made, t) = sdk_callback sdk (tr_key tr1) (tr_sdk tr1)
              in (if made then Some (tr_key tr1, run_name) else None, tr1\<lparr>tr_sdk := t\<rparr>))"

definition flush_tracing :: "'t sdk \<Rightarrow> settings \<Rightarrow> 't tracing \<Rightarrow> unit res \<times> 't tracing" where
  "flush_tracing sdk cfg tr =
     (let (on, tr1) = get_client sdk cfg tr
      in if on then (let (r, t) = sdk_flush sdk (tr_sdk tr1) in (r, tr1\<lparr>tr_sdk := t\<rparr>)) else (Inr (), tr1))"

definition shutdown_tracing :: "'t sdk \<Rightarrow> settings \<Rightarrow> 't tracing \<Rightarrow> 't tracing" where
  "shutdown_tracing sdk cfg tr =
     (let (on, tr1) = get_client sdk cfg tr
      in if on then tr1\<lparr>tr_sdk := snd (sdk_shutdown sdk (tr_sdk tr1))\<rparr> else tr1)"

section \<open>Steps that only record\<close>

text \<open>
  What a step without tracing does; a block is blind when neither its result nor its world depends on
  the observation or the tracing state.
\<close>

definition plain :: "('w, 't, 'a) traced \<Rightarrow> 'w \<Rightarrow> 't tracing \<Rightarrow> 'a res \<times> 'w" where
  "plain block w tr = (let (r, w', _) = block None (w, tr) in (r, w'))"

definition seen :: "'a res \<times> 'w \<times> 't tracing \<Rightarrow> 'a res \<times> 'w" where
  "seen x = (fst x, fst (snd x))"

definition blind :: "('w, 't, 'a) traced \<Rightarrow> bool" where
  "blind block \<longleftrightarrow> (\<forall>obs obs' w tr tr'. seen (block obs (w, tr)) = seen (block obs' (w, tr')))"

text \<open>
  The documentation of OpenTelemetry's spans: ending one does not raise. The source catches what
  starting and updating raise, not this.
\<close>

definition quiet_exit :: "'t sdk \<Rightarrow> bool" where
  "quiet_exit sdk \<longleftrightarrow> (\<forall>h t. fst (sdk_exit sdk h t) = None)"

lemma leave_quiet: "quiet_exit sdk \<Longrightarrow> leave sdk hs pending t = (e, t') \<Longrightarrow> e = pending"
proof (induction hs arbitrary: pending t)
  case (Cons h hs)
  obtain x u where x: "sdk_exit sdk h t = (x, u)" by (cases "sdk_exit sdk h t")
  with Cons.prems(1) have "x = None" unfolding quiet_exit_def by (metis fst_conv)
  with Cons x show ?case by simp
qed simp

lemma enclosed_seen: "quiet_exit sdk \<Longrightarrow> seen (enclosed sdk obs hs block wt) = seen (block obs wt)"
proof -
  assume q: "quiet_exit sdk"
  obtain r w tr where b: "block obs wt = (r, w, tr)" by (cases "block obs wt") auto
  show ?thesis
  proof (cases r)
    case (Inl x)
    then show ?thesis using leave_quiet [OF q]
      by (cases "leave sdk hs (Some x) (tr_sdk (mark_error sdk obs x tr))") (fastforce simp: enclosed_def b seen_def)
  next
    case (Inr x)
    then show ?thesis using leave_quiet [OF q]
      by (cases "leave sdk hs None (tr_sdk tr)") (fastforce simp: enclosed_def b seen_def)
  qed
qed

lemma observe_seen:
  assumes "quiet_exit sdk" "blind block"
  shows "seen (observe sdk cfg name kind i m l block (w, tr)) = seen (block None (w, tr0))"
proof -
  define c where "c = seen (block None (w, tr0))"
  have b: "seen (block obs (w, tr)) = c" for obs tr
    using assms(2) unfolding blind_def c_def by blast
  have "seen (observe sdk cfg name kind i m l block (w, tr)) = c"
    by (simp add: observe_def b enclosed_seen [OF assms(1)] split: prod.split option.split)
  then show ?thesis by (simp only: c_def)
qed

lemma claim_trace_seen:
  assumes "quiet_exit sdk" "blind block"
  shows "seen (claim_trace sdk sha cfg rid uid i tags block (w, tr)) = seen (block None (w, tr0))"
proof -
  define c where "c = seen (block None (w, tr0))"
  have b: "seen (block obs (w, tr)) = c" for obs tr
    using assms(2) unfolding blind_def c_def by blast
  have l: "leave sdk [h] None t = (Some x, t') \<Longrightarrow> False" for h t x t'
    using leave_quiet [OF assms(1), of "[h]" None t "Some x" t'] by simp
  have "seen (claim_trace sdk sha cfg rid uid i tags block (w, tr)) = c"
    by (auto simp: claim_trace_def b enclosed_seen [OF assms(1)] simp del: leave.simps dest: l
        split: prod.split option.split)
  then show ?thesis by (simp only: c_def)
qed

text \<open>Blind steps: a step of the claim that records fields afterwards, and traced steps inside one another.\<close>

definition recording :: "'t sdk \<Rightarrow> ('a res \<Rightarrow> dict) \<Rightarrow> ('w \<Rightarrow> 'a res \<times> 'w) \<Rightarrow> ('w, 't, 'a) traced" where
  "recording sdk fs f obs wt =
     (let (w, tr) = wt; (r, w') = f w in (r, w', case r of Inl _ \<Rightarrow> tr | Inr _ \<Rightarrow> update sdk obs (fs r) tr))"

lemma blind_recording: "blind (recording sdk fs f)"
  by (auto simp: blind_def recording_def seen_def split: prod.split)

lemma seen_recording: "seen (recording sdk fs f obs (w, tr)) = f w"
  by (auto simp: recording_def seen_def split: prod.split)

lemma blind_observe: "quiet_exit sdk \<Longrightarrow> blind block \<Longrightarrow> blind (\<lambda>_. observe sdk cfg name kind i m l block)"
  unfolding blind_def [of "\<lambda>_. observe sdk cfg name kind i m l block"] by (metis observe_seen)

section \<open>One traced step\<close>

text \<open>
  One step that only records its outcome, run inside \<open>observe\<close> and inside \<open>claim_trace\<close>: it
  returns or raises what it would without them and leaves the same world, and with no keys
  configured the SDK is never called. \<open>Traced_Worker\<close> has the whole message.
\<close>

theorem tracing_transparent:
  assumes "quiet_exit sdk"
  shows "seen (claim_trace sdk sha cfg rid uid j tags (\<lambda>_. observe sdk cfg name kind i m l (recording sdk fs f)) (w, tr)) = f w \<and>
    (\<not> is_tracing_enabled cfg \<longrightarrow> tr_client tr \<noteq> Client \<longrightarrow>
       tr_sdk (snd (snd (claim_trace sdk sha cfg rid uid j tags (\<lambda>_. observe sdk cfg name kind i m l (recording sdk fs f)) (w, tr)))) = tr_sdk tr)"
proof
  have "seen (claim_trace sdk sha cfg rid uid j tags (\<lambda>_. observe sdk cfg name kind i m l (recording sdk fs f)) (w, tr)) =
      seen (observe sdk cfg name kind i m l (recording sdk fs f) (w, tr))"
    by (rule claim_trace_seen [OF assms blind_observe [OF assms blind_recording]])
  also have "\<dots> = f w"
    unfolding observe_seen [OF assms blind_recording, where ?tr0.0 = tr] by (rule seen_recording)
  finally show "seen (claim_trace sdk sha cfg rid uid j tags (\<lambda>_. observe sdk cfg name kind i m l (recording sdk fs f)) (w, tr)) = f w" .
  show "\<not> is_tracing_enabled cfg \<longrightarrow> tr_client tr \<noteq> Client \<longrightarrow>
      tr_sdk (snd (snd (claim_trace sdk sha cfg rid uid j tags (\<lambda>_. observe sdk cfg name kind i m l (recording sdk fs f)) (w, tr)))) = tr_sdk tr"
    by (cases "tr_client tr")
      (auto simp: claim_trace_def observe_def get_client_def recording_def update_def split: prod.split sum.split)
qed

text \<open>An SDK that counts its calls, fails to start every second observation and to record anything.\<close>

definition flaky_sdk :: "nat sdk" where
  "flaky_sdk = \<lparr>sdk_trace_id = (\<lambda>s. s), sdk_build = (\<lambda>_ n. (True, n + 1)), sdk_start = (\<lambda>_ _ n. (if even n then None else Some n, n + 1)),
     sdk_propagate = (\<lambda>_ n. (Some n, n + 1)), sdk_update = (\<lambda>_ _ n. (False, n + 1)),
     sdk_exit = (\<lambda>_ n. (None, n + 1)), sdk_callback = (\<lambda>_ n. (False, n + 1)),
     sdk_flush = (\<lambda>n. (Inr (), n)), sdk_shutdown = (\<lambda>n. (True, n))\<rparr>"

theorem tracing_transparent_witness:
  "quiet_exit flaky_sdk \<and>
   seen (claim_trace flaky_sdk (\<lambda>s. s) default_settings ''r1'' ''u1'' JNull JNull (\<lambda>_. observe flaky_sdk default_settings ''judge'' ''evaluator'' JNull JNull JNull
     (recording flaky_sdk (\<lambda>_. []) (\<lambda>w. (raise_exn ''TimeoutError'' :: int res, w + 1)))) (41 :: int, \<lparr>tr_client = Client, tr_key = None, tr_sdk = 0\<rparr>)) =
   (raise_exn ''TimeoutError'', 42)"
proof
  show q: "quiet_exit flaky_sdk" by (simp add: quiet_exit_def flaky_sdk_def)
  show "seen (claim_trace flaky_sdk (\<lambda>s. s) default_settings ''r1'' ''u1'' JNull JNull (\<lambda>_. observe flaky_sdk default_settings ''judge'' ''evaluator'' JNull JNull JNull
     (recording flaky_sdk (\<lambda>_. []) (\<lambda>w. (raise_exn ''TimeoutError'' :: int res, w + 1)))) (41 :: int, \<lparr>tr_client = Client, tr_key = None, tr_sdk = 0\<rparr>)) =
   (raise_exn ''TimeoutError'', 42)"
    using tracing_transparent [OF q, of "\<lambda>s. s" default_settings "''r1''" "''u1''" JNull JNull "''judge''" "''evaluator''" JNull JNull JNull "\<lambda>_. []"
        "\<lambda>w. (raise_exn ''TimeoutError'' :: int res, w + 1)" 41 "\<lparr>tr_client = Client, tr_key = None, tr_sdk = 0\<rparr>"] by simp
qed

end
