(* ===== verification/Traced_Worker.thy ===== *)
theory Traced_Worker
  imports Tracing Worker
begin

text \<open>
  The worker's message as it runs, inside its trace: every observation that \<open>process_message\<close> of
  \<open>src/worker/worker.py\<close> and the agents open, with what they record, and the trace of the claim
  around them. The lemmas are one rule for each way to combine steps: a traced step does what the
  plain step of \<open>Worker\<close> does. So the message's traced form is its plain form, and without keys no call reaches the SDK.
  The two judges run at the same time in the source and one after the other here, and the
  embedding's own observation is inside the retrieval, which is a parameter.
\<close>

section \<open>Steps with a tracing state\<close>

type_synonym ('w, 't, 'a) act = "'w \<times> 't tracing \<Rightarrow> 'a res \<times> 'w \<times> 't tracing"

definition retT :: "'a res \<Rightarrow> ('w, 't, 'a) act" where
  "retT r = (\<lambda>(w, tr). (r, w, tr))"

definition liftT :: "('w \<Rightarrow> 'a res \<times> 'w) \<Rightarrow> ('w, 't, 'a) act" where
  "liftT f = (\<lambda>(w, tr). let (r, w') = f w in (r, w', tr))"

definition bindT :: "('w, 't, 'a) act \<Rightarrow> ('a \<Rightarrow> ('w, 't, 'b) act) \<Rightarrow> ('w, 't, 'b) act" where
  "bindT m k wt = (case m wt of (Inl e, wt') \<Rightarrow> (Inl e, wt') | (Inr a, wt') \<Rightarrow> k a wt')"

definition catchT :: "(exn \<Rightarrow> bool) \<Rightarrow> (exn \<Rightarrow> 'a) \<Rightarrow> ('w, 't, 'a) act \<Rightarrow> ('w, 't, 'a) act" where
  "catchT P h m wt = (case m wt of (Inl e, wt') \<Rightarrow> (if P e then Inr (h e) else Inl e, wt') | (Inr a, wt') \<Rightarrow> (Inr a, wt'))"

text \<open>\<open>update\<close> and the value to go on with.\<close>

definition recordT :: "'t sdk \<Rightarrow> observation \<Rightarrow> dict \<Rightarrow> 'a res \<Rightarrow> ('w, 't, 'a) act" where
  "recordT sdk obs fs r = (\<lambda>(w, tr). (r, w, update sdk obs fs tr))"

section \<open>The agents\<close>

text \<open>The configuration an agent asks for once its model is built; the model's reply does not depend on it.\<close>

definition configT :: "'t sdk \<Rightarrow> settings \<Rightarrow> llm_world \<Rightarrow> string \<Rightarrow> string option \<Rightarrow> string \<Rightarrow> ('w, 't, unit) act" where
  "configT sdk S lw provider model_name run_name = (\<lambda>(w, tr). (Inr (), w,
     case get_llm S (lw_packages lw) (Some provider) model_name of
       Inl _ \<Rightarrow> tr | Inr _ \<Rightarrow> snd (langchain_config sdk S (Some run_name) tr)))"

definition traced_scan :: "'t sdk \<Rightarrow> claim_env \<Rightarrow> dict \<Rightarrow> ('w, 't, guard_result option) act" where
  "traced_scan sdk env body =
     (case guard_claim env body of
        None \<Rightarrow> retT (Inr None)
      | Some g \<Rightarrow>
          let S = ce_settings env; skipped = (gr_status g = Skipped)
          in observe sdk S ''scan-prompt-injection'' ''guardrail'' (claim_text body)
               (JObj [(''provider'', JStr (provider_for_role S PromptGuard)), (''threshold'', JFloat (PROMPT_GUARD_THRESHOLD S))]) JNull
               (\<lambda>obs. bindT (case claim_text body of
                    JStr _ \<Rightarrow> configT sdk S (ce_llm env) (provider_for_role S PromptGuard) (Some PROMPT_GUARD_MODEL) ''classify-prompt-injection''
                  | _ \<Rightarrow> retT (Inr ())) (\<lambda>_. recordT sdk obs
                  [(''output'', JObj (guard_trail g)), (''level'', if skipped then JStr ''WARNING'' else JNull),
                   (''status_message'', if skipped then opt_json JStr (gr_reason g) else JNull)] (Inr (Some g)))))"

definition traced_propose :: "'t sdk \<Rightarrow> claim_env \<Rightarrow> dict \<Rightarrow> string option \<Rightarrow> ('w, 't, claim_proposal) act" where
  "traced_propose sdk env body feedback =
     observe sdk (ce_settings env) ''propose-action'' ''chain''
       (JObj [(''claim_text'', claim_text body), (''rejection_feedback'', opt_json JStr feedback)])
       (JObj [(''retry'', JBool (feedback \<noteq> None))]) JNull
       (\<lambda>obs. bindT (retT (propose env body feedback)) (\<lambda>p.
          bindT (configT sdk (ce_settings env) (ce_llm env) (provider_for_role (ce_settings env) FrontDesk)
                   (front_desk_model (ce_settings env)) ''generate-proposal'') (\<lambda>_.
            recordT sdk obs [(''output'', JObj (proposal_dump p))] (Inr p))))"

definition JUDGE_OBSERVATION_NAMES :: "(string \<times> string) list" where
  "JUDGE_OBSERVATION_NAMES = [(''judge1'', ''run-judge-1''), (''judge2'', ''run-judge-2''), (''supreme_court'', ''run-supreme-court'')]"

definition traced_judge ::
  "'t sdk \<Rightarrow> settings \<Rightarrow> llm_world \<Rightarrow> string \<Rightarrow> string \<Rightarrow> string \<times> string \<Rightarrow> string option \<Rightarrow> ('w, 't, dict) act" where
  "traced_judge sdk S w stage provider messages model_name =
     observe sdk S (case map_of JUDGE_OBSERVATION_NAMES stage of Some n \<Rightarrow> n | None \<Rightarrow> stage) ''evaluator'' JNull
       (JObj [(''provider'', JStr provider), (''role'', JStr stage), (''model'', opt_json JStr model_name)]) JNull
       (\<lambda>obs. let (result, error) = invoke_judge S w provider messages model_name
              in bindT (configT sdk S w provider model_name ''generate-verdict'') (\<lambda>_. recordT sdk obs
                   [(''output'', JObj result), (''level'', if error = None then JNull else JStr ''ERROR''),
                    (''status_message'', opt_json JStr error)] (Inr result)))"

text \<open>
  What a judge's own observation raises is a REJECT (the gathered exceptions), and what the Supreme
  Court's raises falls back to the base judges.
\<close>

definition judge_exception :: "nat \<Rightarrow> string \<Rightarrow> exn \<Rightarrow> dict" where
  "judge_exception i provider e =
     [(''verdict'', JStr ''REJECT''),
      (''reason'', JStr (''Judge '' @ (if i = 1 then ''1'' else ''2'') @ '' ('' @ provider @ '') exception: '' @ exn_msg e))]"

definition fallback_decision :: "string \<Rightarrow> string \<Rightarrow> dict \<Rightarrow> dict \<Rightarrow> dict" where
  "fallback_decision p1 p2 res1 res2 =
     decision ''REJECT''
       (join '' | ''
         ((if dget res1 ''verdict'' = JStr ''REJECT'' then [''Judge 1 ('' @ p1 @ ''): '' @ py_str (dget res1 ''reason'')] else []) @
          (if dget res2 ''verdict'' = JStr ''REJECT'' then [''Judge 2 ('' @ p2 @ ''): '' @ py_str (dget res2 ''reason'')] else [])))
       [(''judge1'', trail_entry res1), (''judge2'', trail_entry res2), (''supreme_court'', JNull)]"

definition traced_cascade :: "'t sdk \<Rightarrow> settings \<Rightarrow> llm_world \<Rightarrow> string \<times> string \<Rightarrow> ('w, 't, dict) act" where
  "traced_cascade sdk S w messages =
     (let p1 = provider_for_role S Judge1; p2 = provider_for_role S Judge2
      in bindT (catchT (\<lambda>_. True) (judge_exception 1 p1) (traced_judge sdk S w ''judge1'' p1 messages None)) (\<lambda>res1.
         bindT (catchT (\<lambda>_. True) (judge_exception 2 p2) (traced_judge sdk S w ''judge2'' p2 messages None)) (\<lambda>res2.
           if dget res1 ''verdict'' = JStr ''APPROVE'' \<and> dget res2 ''verdict'' = JStr ''APPROVE''
           then retT (Inr (decision ''APPROVE'' (''Approved by both judges (judge1: '' @ p1 @ '', judge2: '' @ p2 @ '').'')
                  [(''judge1'', trail_entry res1), (''judge2'', trail_entry res2), (''supreme_court'', JNull)]))
           else catchT (\<lambda>_. True) (\<lambda>_. fallback_decision p1 p2 res1 res2)
                  (bindT (traced_judge sdk S w ''supreme_court'' (provider_for_role S SupremeCourt) messages
                            (model_for_role S SupremeCourt)) (\<lambda>res3. retT (Inr (supreme_decision res1 res2 res3)))))))"

definition traced_evaluate ::
  "'t sdk \<Rightarrow> settings \<Rightarrow> llm_world \<Rightarrow> string \<Rightarrow> dict \<Rightarrow> dict \<Rightarrow> ('w, 't, dict) act" where
  "traced_evaluate sdk S w action_name action_args context =
     observe sdk S ''evaluate-proposal'' ''chain'' (JObj [(''action'', JStr action_name), (''arguments'', JObj action_args)]) JNull JNull
       (\<lambda>obs. bindT (traced_cascade sdk S w (build_judge_messages action_name action_args context)) (\<lambda>d.
          recordT sdk obs [(''output'', JObj [(''verdict'', dget d ''verdict''), (''reason'', dget d ''reason'')])] (Inr d)))"

section \<open>The worker's steps\<close>

text \<open>Retrieval: whatever it raises is logged, and there is no policy.\<close>

definition traced_policy :: "'t sdk \<Rightarrow> claim_env \<Rightarrow> dict \<Rightarrow> ('w, 't, string option) act" where
  "traced_policy sdk env body =
     (if \<not> truthy (claim_text body) then retT (Inr None)
      else catchT (\<lambda>_. True) (\<lambda>_. None)
        (observe sdk (ce_settings env) ''retrieve-policy'' ''retriever'' (claim_text body)
           (JObj [(''provider'', JStr (resolve_provider (ce_settings env) None)), (''top_k'', JInt 1)]) JNull
           (\<lambda>obs. bindT (retT (case claim_text body of JStr s \<Rightarrow> ce_retrieve env s | _ \<Rightarrow> raise_exn ''AttributeError'')) (\<lambda>policy.
              recordT sdk obs [(''output'', opt_json JStr policy)] (Inr policy)))))"

definition claim_numbers :: "dict \<Rightarrow> dict" where
  "claim_numbers body = map (\<lambda>k. (k, dget body k)) [''order_id'', ''amount'', ''currency'']"

definition traced_evidence ::
  "'t sdk \<Rightarrow> 's session \<Rightarrow> claim_env \<Rightarrow> dict \<Rightarrow> claim_proposal option \<Rightarrow> ('s, 't, evidence_outcome) act" where
  "traced_evidence sdk call env body other_intent =
     (if other_intent \<noteq> None \<or> \<not> has_refund body then retT (Inr no_evidence)
      else observe sdk (ce_settings env) ''verify-evidence'' ''guardrail'' (JObj (claim_numbers body)) JNull JNull
        (\<lambda>obs. bindT (liftT (verify_claim_evidence call (ce_policy env) (ce_settings env) body)) (\<lambda>r.
           case r of
             Inl msg \<Rightarrow>
               recordT sdk obs [(''output'', opt_json JObj (eo_trail (unavailable msg))), (''level'', JStr ''ERROR''),
                 (''status_message'', JStr msg)] (Inr (unavailable msg))
           | Inr ec \<Rightarrow>
               bindT (retT (to_trail ec)) (\<lambda>trail. recordT sdk obs [(''output'', JObj trail)] (checked ec)))))"

definition traced_judge_step ::
  "'t sdk \<Rightarrow> claim_env \<Rightarrow> string \<Rightarrow> dict \<Rightarrow> claim_proposal option \<Rightarrow> string option \<Rightarrow> evidence_outcome \<Rightarrow> ('w, 't, judgement) act" where
  "traced_judge_step sdk env rid body other_intent policy ev =
     (if eo_failure ev \<noteq> None \<or> other_intent \<noteq> None then retT (Inr \<lparr>jg_result = [], jg_retry = None\<rparr>)
      else bindT (traced_evaluate sdk (ce_settings env) (ce_llm env) ''execute_refund'' body (judge_context rid policy (eo_summary ev))) (\<lambda>result.
        if dget result ''verdict'' = JStr ''APPROVE'' then retT (Inr \<lparr>jg_result = result, jg_retry = None\<rparr>)
        else bindT (traced_propose sdk env body (case dget result ''reason'' of JStr r \<Rightarrow> Some r | _ \<Rightarrow> None)) (\<lambda>again.
          retT (Inr \<lparr>jg_result = result, jg_retry = not_a_refund (Some again)\<rparr>))))"

text \<open>The refund's exception leaves its observation, which marks it, before the worker catches it.\<close>

definition traced_execute ::
  "'t sdk \<Rightarrow> 's session \<Rightarrow> claim_env \<Rightarrow> string \<Rightarrow> dict \<Rightarrow> claim_proposal option \<Rightarrow> judgement \<Rightarrow> ('s, 't, string \<times> dict option) act" where
  "traced_execute sdk call env rid body other_intent jg =
     (let review = review_status (deciding_proposal other_intent jg)
      in if \<not> approved jg then retT (Inr (review, None))
         else if \<not> has_refund body then retT (Inr (review, Some not_executable))
         else let currency = py_or (dget body ''currency'') (JStr (currency_value USD))
           in catchT (\<lambda>e. exn_class e = ''RefundExecutionError'')
             (\<lambda>e. (''EXECUTION_FAILED'', Some [(''status'', JStr ''failed''), (''error'', JStr (exn_msg e))]))
             (observe sdk (ce_settings env) ''execute-refund'' ''tool''
                (JObj [(''transaction_id'', dget body ''order_id''), (''amount'', dget body ''amount''), (''currency'', currency)])
                (JObj [(''idempotency_key'', JStr rid)]) JNull
                (\<lambda>obs. bindT (liftT (\<lambda>s. case execute_refund_via_mcp call (ce_policy env) rid (dget body ''order_id'')
                                              (dget body ''amount'') currency s of
                                         (Inl err, _, s') \<Rightarrow> (Inl (Exn ''RefundExecutionError'' err), s')
                                       | (Inr execution, _, s') \<Rightarrow> (Inr execution, s')))
                   (\<lambda>execution. recordT sdk obs [(''output'', JObj execution)] (Inr (''COMPLETED'', Some execution))))))"

section \<open>The message\<close>

definition onS :: "('s, 't, 'a) act \<Rightarrow> (txn_table \<times> 's, 't, 'a) act" where
  "onS m = (\<lambda>((txns, s), tr). let (r, s', tr') = m (s, tr) in (r, (txns, s'), tr'))"

text \<open>
  What the claim's trace records after the final commit. The reason is the Front-Desk's, else the
  evidence check's, else the judges'; an empty one counts as none.
\<close>

definition trace_fields :: "string \<Rightarrow> claim_proposal option \<Rightarrow> evidence_outcome \<Rightarrow> judgement \<Rightarrow> dict" where
  "trace_fields status other_intent ev jg =
     (let front_desk_reason = (case deciding_proposal other_intent jg of None \<Rightarrow> JNull | Some p \<Rightarrow> JStr (cp_reason p))
      in [(''output'', JObj [(''status'', JStr status),
             (''reason'', py_or (py_or front_desk_reason (opt_json JStr (eo_failure ev))) (dget (jg_result jg) ''reason''))]),
          (''metadata'', JObj [(''judge_attempts'', JInt (if jg_result jg \<noteq> [] then 1 else 0))])])"

text \<open>The decision with what its trace will say.\<close>

definition traced_decide ::
  "'t sdk \<Rightarrow> 's session \<Rightarrow> claim_env \<Rightarrow> string \<Rightarrow> dict \<Rightarrow> ('s, 't, verdict \<times> dict) act" where
  "traced_decide sdk call env rid body =
     bindT (traced_scan sdk env body) (\<lambda>guard.
       if (case guard of None \<Rightarrow> False | Some g \<Rightarrow> is_injection g)
       then retT (Inr (\<lparr>vd_status = ''BLOCKED_MALICIOUS_PROMPT'',
                        vd_trail = add_entry ''prompt_guard'' (map_option guard_trail guard) None\<rparr>,
                       [(''output'', JObj [(''status'', JStr ''BLOCKED_MALICIOUS_PROMPT'')])]))
       else
         bindT (traced_policy sdk env body) (\<lambda>policy.
         bindT (retT (end_reads env)) (\<lambda>_.
         bindT (if truthy (claim_text body) then bindT (traced_propose sdk env body None) (\<lambda>p. retT (Inr (Some p)))
                else retT (Inr None)) (\<lambda>proposal.
         let other_intent = not_a_refund proposal
         in bindT (traced_evidence sdk call env body other_intent) (\<lambda>ev.
            bindT (retT (get_llm (ce_settings env) (lw_packages (ce_llm env)) None None)) (\<lambda>_.
            bindT (traced_judge_step sdk env rid body other_intent policy ev) (\<lambda>jg.
            bindT (traced_execute sdk call env rid body other_intent jg) (\<lambda>(status, execution).
              retT (Inr (\<lparr>vd_status = status, vd_trail = judge_trail guard proposal ev jg execution\<rparr>,
                         trace_fields status other_intent ev jg))))))))))"

text \<open>
  The claimed message in its trace: the decision, the final write, the trace's output, the
  settlement. When leaving the trace raises, the settlement asked for last is the negative one.
\<close>

definition traced_claim ::
  "'t sdk \<Rightarrow> (string \<Rightarrow> string) \<Rightarrow> 's session \<Rightarrow> claim_env \<Rightarrow> time \<Rightarrow> string \<Rightarrow> dict \<Rightarrow> (txn_table \<times> 's, 't, settlement) act" where
  "traced_claim sdk sha256 call env now2 rid body =
     claim_trace sdk sha256 (ce_settings env) rid (py_str (dget_or body ''user_id'' (JStr '''')))
       (JObj ((''claim_text'', claim_text body) # claim_numbers body))
       (JList [JStr (''llm-provider:'' @ LLM_PROVIDER (ce_settings env))])
       (\<lambda>trace. bindT (onS (traced_decide sdk call env rid body)) (\<lambda>(v, fs).
          bindT (liftT (\<lambda>(txns, s). case write_final (ce_final_db env) now2 rid (vd_status v) (vd_trail v) txns of
                                     Inl e \<Rightarrow> (Inl e, (txns, s)) | Inr txns' \<Rightarrow> (Inr (), (txns', s)))) (\<lambda>_.
            recordT sdk trace fs (Inr (if vd_status v = ''EXECUTION_FAILED'' then Nacked False else Acked)))))"

definition traced_message ::
  "'t sdk \<Rightarrow> (string \<Rightarrow> string) \<Rightarrow> 's session \<Rightarrow> claim_env \<Rightarrow> time \<Rightarrow> time \<Rightarrow> json option \<Rightarrow> (txn_table \<times> 's) \<times> 't tracing
   \<Rightarrow> settlement \<times> (txn_table \<times> 's) \<times> 't tracing" where
  "traced_message sdk sha256 call env now1 now2 wire wtr =
     (let ((txns, s), tr) = wtr in
      case wire of
        Some (JObj body) \<Rightarrow>
          let request_id = dget body ''request_id''
          in if \<not> truthy request_id then (Acked, wtr)
             else (case insert_claim (ce_claim_db env) now1 request_id body txns of
                     ClaimError e \<Rightarrow> (Nacked False, wtr)
                   | Duplicate \<Rightarrow> (Acked, wtr)
                   | Claimed txns1 \<Rightarrow>
                       (case traced_claim sdk sha256 call env now2 (py_str request_id) body ((txns1, s), tr) of
                          (Inl e, wtr') \<Rightarrow> (Nacked False, wtr')
                        | (Inr how, wtr') \<Rightarrow> (how, wtr')))
      | _ \<Rightarrow> (Nacked False, wtr))"

section \<open>A traced step does what the plain step does\<close>

text \<open>
  \<open>like p f m\<close>: at every tracing state, \<open>m\<close> has the result of \<open>f\<close> (after \<open>p\<close>) and leaves the same world.
\<close>

definition like :: "('a \<Rightarrow> 'b) \<Rightarrow> ('w \<Rightarrow> 'b res \<times> 'w) \<Rightarrow> ('w, 't, 'a) act \<Rightarrow> bool" where
  "like p f m \<longleftrightarrow> (\<forall>w tr. (case m (w, tr) of (r, w', tr') \<Rightarrow> (map_sum id p r, w')) = f w)"

definition bindS :: "('w \<Rightarrow> 'a res \<times> 'w) \<Rightarrow> ('a \<Rightarrow> 'w \<Rightarrow> 'b res \<times> 'w) \<Rightarrow> 'w \<Rightarrow> 'b res \<times> 'w" where
  "bindS f g w = (case f w of (Inl e, w') \<Rightarrow> (Inl e, w') | (Inr a, w') \<Rightarrow> g a w')"

lemma likeI: "(\<And>w tr. (case m (w, tr) of (r, w', tr') \<Rightarrow> (map_sum id p r, w')) = f w) \<Longrightarrow> like p f m"
  by (simp add: like_def)

lemma likeD: "like p f m \<Longrightarrow> m (w, tr) = (r, w', tr') \<Longrightarrow> f w = (map_sum id p r, w')"
  unfolding like_def by (metis (mono_tags, lifting) case_prod_conv)

lemma map_sum_id [simp]: "map_sum id id r = r"
  by (cases r) simp_all

lemma like_retI: "r' = map_sum id p r \<Longrightarrow> like p (\<lambda>w. (r', w)) (retT r)"
  by (simp add: like_def retT_def)

lemma like_lift: "like id f (liftT f)"
  by (auto simp: like_def liftT_def split: prod.split)

lemma like_record: "r' = map_sum id p r \<Longrightarrow> like p (\<lambda>w. (r', w)) (recordT sdk obs fs r)"
  by (simp add: like_def recordT_def)

lemma like_bind:
  assumes "like p f m" "\<And>a. like q (g (p a)) (k a)"
  shows "like q (bindS f g) (bindT m k)"
proof (rule likeI)
  fix w and tr
  obtain r w1 tr1 where m: "m (w, tr) = (r, w1, tr1)" by (metis prod_cases3)
  note f = likeD [OF assms(1) m]
  show "(case bindT m k (w, tr) of (r, w', tr') \<Rightarrow> (map_sum id q r, w')) = bindS f g w"
  proof (cases r)
    case (Inr a)
    obtain r2 w2 tr2 where k: "k a (w1, tr1) = (r2, w2, tr2)" by (metis prod_cases3)
    from likeD [OF assms(2) k] m f Inr k show ?thesis by (simp add: bindT_def bindS_def)
  qed (use m f in \<open>simp add: bindT_def bindS_def\<close>)
qed

lemma like_catch:
  assumes "like id f m"
  shows "like id (\<lambda>w. case f w of (Inl e, w') \<Rightarrow> (if P e then Inr (h e) else Inl e, w') | (Inr a, w') \<Rightarrow> (Inr a, w')) (catchT P h m)"
proof (rule likeI)
  fix w and tr
  obtain r w1 tr1 where m: "m (w, tr) = (r, w1, tr1)" by (metis prod_cases3)
  from likeD [OF assms m] m show "(case catchT P h m (w, tr) of (r, w', tr') \<Rightarrow> (map_sum id id r, w')) =
      (case f w of (Inl e, w') \<Rightarrow> (if P e then Inr (h e) else Inl e, w') | (Inr a, w') \<Rightarrow> (Inr a, w'))"
    by (cases r) (auto simp: catchT_def)
qed

lemma like_onS:
  fixes m :: "('s, 't, 'a) act"
  assumes "like p f m"
  shows "like p (\<lambda>(txns, s). let (r, s') = f s in (r, (txns, s'))) (onS m)"
proof (rule likeI)
  fix w :: "txn_table \<times> 's" and tr
  obtain txns s where w: "w = (txns, s)" by fastforce
  obtain r s1 tr1 where m: "m (s, tr) = (r, s1, tr1)" by (metis prod_cases3)
  from likeD [OF assms m] m w show "(case onS m (w, tr) of (r, w', tr') \<Rightarrow> (map_sum id p r, w')) =
      (case w of (txns, s) \<Rightarrow> let (r, s') = f s in (r, (txns, s')))"
    by (simp add: onS_def)
qed

lemma like_seen: "like id f m \<longleftrightarrow> (\<forall>w tr. seen (m (w, tr)) = f w)"
  by (simp add: like_def seen_def case_prod_beta)

lemma blind_like: "(\<And>obs. like id f (block obs)) \<Longrightarrow> blind block"
  by (simp add: like_seen blind_def)

lemma like_observe:
  assumes "quiet_exit sdk" "\<And>obs. like id f (block obs)"
  shows "like id f (observe sdk cfg name kind i m l block)"
  unfolding like_seen
proof (intro allI)
  fix w and tr
  have "seen (observe sdk cfg name kind i m l block (w, tr)) = seen (block None (w, tr))"
    by (rule observe_seen [OF assms(1) blind_like]) (rule assms(2))
  then show "seen (observe sdk cfg name kind i m l block (w, tr)) = f w"
    using assms(2) [of None] by (simp add: like_seen)
qed

lemma like_claim_trace:
  assumes "quiet_exit sdk" "\<And>obs. like id f (block obs)"
  shows "like id f (claim_trace sdk sha cfg rid uid i tags block)"
  unfolding like_seen
proof (intro allI)
  fix w and tr
  have "seen (claim_trace sdk sha cfg rid uid i tags block (w, tr)) = seen (block None (w, tr))"
    by (rule claim_trace_seen [OF assms(1) blind_like]) (rule assms(2))
  then show "seen (claim_trace sdk sha cfg rid uid i tags block (w, tr)) = f w"
    using assms(2) [of None] by (simp add: like_seen)
qed

lemma like_ret_record:
  "like id (\<lambda>w. (r, w)) (bindT (retT r) (\<lambda>a. recordT sdk obs (fs a) (Inr a)))"
  by (cases r) (simp_all add: like_def bindT_def retT_def recordT_def)

section \<open>The agents and the steps\<close>

lemma like_cong: "like p f m \<Longrightarrow> (\<And>w. f w = g w) \<Longrightarrow> like p g m"
  by (simp add: like_def)

lemma bindS_ret [simp]: "bindS (\<lambda>w. (r, w)) g w = (case r of Inl e \<Rightarrow> (Inl e, w) | Inr a \<Rightarrow> g a w)"
  by (simp add: bindS_def)

lemma like_then: "like id f m \<Longrightarrow> (\<And>a. like q (g a) (k a)) \<Longrightarrow> like q (bindS f g) (bindT m k)"
  by (rule like_bind [where p = id]) simp_all

text \<open>Steps that leave the world alone: a value, or a value and what follows.\<close>

lemma like_pure:
  assumes "like id (\<lambda>w. (r, w)) m" "\<And>a. r = Inr a \<Longrightarrow> like q (g a) (k a)"
  shows "like q (\<lambda>w. case r of Inl e \<Rightarrow> (Inl e, w) | Inr a \<Rightarrow> g a w) (bindT m k)"
proof (rule likeI)
  fix w and tr
  obtain r' w1 tr1 where m: "m (w, tr) = (r', w1, tr1)" by (metis prod_cases3)
  from likeD [OF assms(1) m] have w1: "w1 = w" "r' = r" by simp_all
  show "(case bindT m k (w, tr) of (x, w', tr') \<Rightarrow> (map_sum id q x, w')) = (case r of Inl e \<Rightarrow> (Inl e, w) | Inr a \<Rightarrow> g a w)"
  proof (cases r)
    case (Inr a)
    obtain r2 w2 tr2 where k: "k a (w1, tr1) = (r2, w2, tr2)" by (metis prod_cases3)
    from likeD [OF assms(2) [OF Inr] k] m k Inr w1 show ?thesis by (simp add: bindT_def)
  qed (use m w1 in \<open>simp add: bindT_def\<close>)
qed

lemma like_value: "like id (\<lambda>w. (Inr a, w)) m \<Longrightarrow> like q g (k a) \<Longrightarrow> like q g (bindT m k)"
  using like_pure [of "Inr a" m q "\<lambda>_. g" k] by simp

lemma like_if: "like p f m \<Longrightarrow> like p g n \<Longrightarrow> like p (if b then f else g) (if b then m else n)"
  by simp

lemma like_ret: "like id (\<lambda>w. (r, w)) (retT r)"
  by (simp add: like_retI)

lemma like_catch_value: "like id (\<lambda>w. (Inr a, w)) m \<Longrightarrow> like id (\<lambda>w. (Inr a, w)) (catchT P h m)"
  by (drule like_catch [where P = P and h = h]) simp

lemma like_config: "like id (\<lambda>w. (Inr (), w)) (configT sdk S lw provider model_name run_name)"
  by (simp add: like_def configT_def)

lemma like_record_ret: "like id (\<lambda>w. (r, w)) (recordT sdk obs fs r)"
  by (simp add: like_record)

lemma like_scan:
  assumes "quiet_exit sdk"
  shows "like id (\<lambda>w. (Inr (guard_claim env body), w)) (traced_scan sdk env body)"
proof (cases "guard_claim env body")
  case (Some g)
  have "like id (\<lambda>w. (Inr (), w)) (case claim_text body of JStr _ \<Rightarrow> configT sdk S lw p m n | _ \<Rightarrow> retT (Inr ()))" for S lw p m n
    by (cases "claim_text body") (simp_all add: like_config like_ret)
  with Some show ?thesis
    by (simp only: traced_scan_def Let_def option.case) (intro like_observe [OF assms] like_value like_record_ret)
qed (simp add: traced_scan_def like_ret)

lemma like_propose:
  assumes "quiet_exit sdk"
  shows "like id (\<lambda>w. (propose env body feedback, w)) (traced_propose sdk env body feedback)"
  unfolding traced_propose_def
  by (rule like_observe [OF assms], rule like_cong [OF like_pure [OF like_ret like_value [OF like_config like_record_ret]]])
    (simp split: sum.split)

lemma like_judge:
  assumes "quiet_exit sdk"
  shows "like id (\<lambda>w. (Inr (run_single_judge S lw provider messages model_name), w))
     (traced_judge sdk S lw stage provider messages model_name)"
  unfolding traced_judge_def run_single_judge_def Let_def case_prod_beta
  by (rule like_observe [OF assms], rule like_value [OF like_config like_record_ret])

lemma like_choice:
  "like id (\<lambda>w. (Inr y, w)) m \<Longrightarrow> like id (\<lambda>w. (Inr (if b then x else y), w)) (if b then retT (Inr x) else m)"
  by (simp add: like_ret)

lemma like_cascade:
  assumes "quiet_exit sdk"
  shows "like id (\<lambda>w. (Inr (evaluate_decision S lw action args context), w))
    (traced_cascade sdk S lw (build_judge_messages action args context))"
proof -
  let ?m = "build_judge_messages action args context"
  note j = like_judge [OF assms, of S lw _ ?m]
  note c = like_catch_value [OF j]
  have sc: "like id (\<lambda>w. (Inr (supreme_decision r1 r2 (run_single_judge S lw (provider_for_role S SupremeCourt) ?m (model_for_role S SupremeCourt))), w))
      (catchT P h (bindT (traced_judge sdk S lw ''supreme_court'' (provider_for_role S SupremeCourt) ?m (model_for_role S SupremeCourt))
         (\<lambda>res3. retT (Inr (supreme_decision r1 r2 res3)))))" for P h r1 r2
    by (rule like_catch_value, rule like_value [OF j], rule like_ret)
  show ?thesis
    unfolding traced_cascade_def evaluate_decision_def Let_def
    by (rule like_value [OF c], rule like_value [OF c], rule like_choice, rule sc)
qed

lemma like_evaluate:
  assumes "quiet_exit sdk"
  shows "like id (\<lambda>w. (Inr (evaluate_decision S lw action args context), w)) (traced_evaluate sdk S lw action args context)"
  unfolding traced_evaluate_def
  by (rule like_observe [OF assms], rule like_value [OF like_cascade [OF assms]]) (simp add: like_record)

lemma like_policy:
  assumes "quiet_exit sdk"
  shows "like id (\<lambda>w. (Inr (retrieved_policy env body), w)) (traced_policy sdk env body)"
proof -
  have "like id (\<lambda>w. (case claim_text body of JStr s \<Rightarrow> ce_retrieve env s | _ \<Rightarrow> raise_exn ''AttributeError'', w))
    (observe sdk (ce_settings env) ''retrieve-policy'' ''retriever'' (claim_text body) meta JNull
       (\<lambda>obs. bindT (retT (case claim_text body of JStr s \<Rightarrow> ce_retrieve env s | _ \<Rightarrow> raise_exn ''AttributeError'')) (\<lambda>policy.
          recordT sdk obs [(''output'', opt_json JStr policy)] (Inr policy))))" for meta
    by (rule like_observe [OF assms like_ret_record])
  note c = like_catch [OF this, of "\<lambda>_. True" "\<lambda>_. None"]
  show ?thesis
  proof (cases "truthy (claim_text body)")
    case True
    then have "(case (case claim_text body of JStr s \<Rightarrow> ce_retrieve env s | _ \<Rightarrow> raise_exn ''AttributeError'') of
        Inl e \<Rightarrow> (Inr None, w) | Inr a \<Rightarrow> (Inr a, w)) = (Inr (retrieved_policy env body), w)" for w :: 'w
      by (simp add: retrieved_policy_def split: json.split sum.split)
    with True show ?thesis unfolding traced_policy_def
      by (auto intro!: like_cong [OF c] split: sum.split)
  qed (simp add: traced_policy_def retrieved_policy_def like_ret)
qed
lemma like_evidence:
  assumes "quiet_exit sdk"
  shows "like id (evidence_step call env body other_intent) (traced_evidence sdk call env body other_intent)"
proof (cases "other_intent \<noteq> None \<or> \<not> has_refund body")
  case True
  then show ?thesis by (auto simp: traced_evidence_def evidence_step_def intro!: like_cong [OF like_ret])
next
  case False
  have r: "like id (\<lambda>w. (checked ec, w)) (bindT (retT (to_trail ec)) (\<lambda>trail. recordT sdk obs (fs trail) (checked ec)))" for ec obs fs
    by (rule like_cong [OF like_pure [OF like_ret like_record_ret]]) (auto simp: checked_def bindR_def split: sum.split)
  let ?g = "\<lambda>r w. case r of Inl msg \<Rightarrow> (Inr (unavailable msg), w) | Inr ec \<Rightarrow> (checked ec, w)"
  have k: "like id (?g a) (case a of
        Inl msg \<Rightarrow> recordT sdk obs (fs msg) (Inr (unavailable msg))
      | Inr ec \<Rightarrow> bindT (retT (to_trail ec)) (\<lambda>trail. recordT sdk obs (fs' trail) (checked ec)))" for a obs fs fs'
    by (cases a) (simp_all add: like_record_ret r)
  have "like id (bindS (verify_claim_evidence call (ce_policy env) (ce_settings env) body) ?g)
      (traced_evidence sdk call env body other_intent)"
    unfolding traced_evidence_def if_not_P [OF False]
    by (intro like_observe [OF assms] like_then [OF like_lift, where g = ?g] k)
  then show ?thesis
    by (rule like_cong, unfold evidence_step_def if_not_P [OF False], auto simp: bindS_def split: prod.split sum.split)
qed

lemma like_judge_step:
  assumes "quiet_exit sdk"
  shows "like id (\<lambda>w. (judge_step env rid body other_intent policy ev, w)) (traced_judge_step sdk env rid body other_intent policy ev)"
proof -
  have p: "like id (\<lambda>w. (bindR (propose env body fb) (\<lambda>again. Inr (F again)), w))
      (bindT (traced_propose sdk env body fb) (\<lambda>again. retT (Inr (F again))))" for fb and F :: "claim_proposal \<Rightarrow> judgement"
    by (rule like_cong [OF like_pure [OF like_propose [OF assms] like_ret]]) (auto simp: bindR_def split: sum.split)
  have c: "like id (\<lambda>w. (if b then x else y, w)) (if b then retT x else m)" if "like id (\<lambda>w. (y, w)) m"
    for b and x y :: "judgement res" and m :: "('w, 't, judgement) act"
    using that by (simp add: like_ret)
  show ?thesis
    unfolding traced_judge_step_def judge_step_def Let_def
    by (rule c, rule like_value [OF like_evaluate [OF assms]], rule c, rule p)
qed

lemma like_execute:
  assumes "quiet_exit sdk"
  shows "like id (\<lambda>w. (case execute_step call env rid body other_intent jg w of (x, w') \<Rightarrow> (Inr x, w')))
    (traced_execute sdk call env rid body other_intent jg)"
proof (cases "approved jg \<and> has_refund body")
  case False
  then show ?thesis
    by (auto simp: traced_execute_def execute_step_def Let_def intro!: like_cong [OF like_ret])
next
  case True
  let ?c = "py_or (dget body ''currency'') (JStr (currency_value USD))"
  let ?call = "\<lambda>s. case execute_refund_via_mcp call (ce_policy env) rid (dget body ''order_id'') (dget body ''amount'') ?c s of
      (Inl err, _, s') \<Rightarrow> (Inl (Exn ''RefundExecutionError'' err), s') | (Inr execution, _, s') \<Rightarrow> (Inr execution, s')"
  let ?g = "\<lambda>execution w. (Inr (''COMPLETED'', Some execution), w)"
  have "like id (bindS ?call ?g) (observe sdk (ce_settings env) n t i m l
      (\<lambda>obs. bindT (liftT ?call) (\<lambda>execution. recordT sdk obs (fs execution) (Inr (''COMPLETED'', Some execution)))))" for n t i m l fs
    by (intro like_observe [OF assms] like_then [OF like_lift, where g = ?g] like_record_ret)
  note c = like_catch [OF this]
  from True show ?thesis
    unfolding traced_execute_def Let_def
    by (simp only: simp_thms if_False) (rule like_cong [OF c], auto simp: execute_step_def Let_def bindS_def split: prod.split sum.split)
qed
lemma like_proposal:
  assumes "quiet_exit sdk"
  shows "like id (\<lambda>w. (if b then bindR (propose env body None) (\<lambda>p. Inr (Some p)) else Inr None, w))
    (if b then bindT (traced_propose sdk env body None) (\<lambda>p. retT (Inr (Some p))) else retT (Inr None))"
proof (cases b)
  case True
  then show ?thesis
    by (simp only: if_True) (rule like_cong [OF like_pure [OF like_propose [OF assms] like_ret]], auto simp: bindR_def split: sum.split)
qed (simp add: like_ret)

lemma like_decide:
  assumes "quiet_exit sdk"
  shows "like fst (decide_claim call env rid body) (traced_decide sdk call env rid body)"
  unfolding traced_decide_def Let_def
  apply (rule like_cong)
   apply (rule like_value [OF like_scan [OF assms]])
   apply (rule like_if)
    apply (rule like_retI, rule refl)
   apply (rule like_value [OF like_policy [OF assms]])
   apply (rule like_pure [OF like_ret])
   apply (rule like_pure [OF like_proposal [OF assms]])
   apply (rule like_then [OF like_evidence [OF assms]])
   apply (rule like_pure [OF like_ret])
   apply (rule like_pure [OF like_judge_step [OF assms]])
   apply (rule like_then [OF like_execute [OF assms]])
   apply (unfold case_prod_beta)
   apply (rule like_retI, rule refl)
  apply (auto simp: decide_claim_def Let_def first_proposal_def bindR_def bindS_def case_prod_beta split: sum.split prod.split)
  done

lemma like_claim:
  assumes "quiet_exit sdk"
  shows "like id
     (\<lambda>(txns, s). let (vd, s') = decide_claim call env rid body s
        in case bindR vd (\<lambda>v. bindR (write_final (ce_final_db env) now2 rid (vd_status v) (vd_trail v) txns) (\<lambda>t. Inr (v, t))) of
             Inl e \<Rightarrow> (Inl e, (txns, s'))
           | Inr (v, t) \<Rightarrow> (Inr (if vd_status v = ''EXECUTION_FAILED'' then Nacked False else Acked), (t, s')))
     (traced_claim sdk sha call env now2 rid body)"
  unfolding traced_claim_def
  apply (rule like_claim_trace [OF assms])
  apply (rule like_cong)
   apply (rule like_bind [OF like_onS [OF like_decide [OF assms]]])
   apply (unfold case_prod_beta)
   apply (rule like_then [OF like_lift])
   apply (rule like_record_ret)
  apply (auto simp: bindS_def bindR_def Let_def case_prod_beta split: sum.split prod.split)
  done
text \<open>The trace's output names the status that the row gets.\<close>

lemma bindT_Inr:
  "bindT m k wt = (Inr b, wt') \<Longrightarrow> (\<And>a wt1. m wt = (Inr a, wt1) \<Longrightarrow> k a wt1 = (Inr b, wt') \<Longrightarrow> Q) \<Longrightarrow> Q"
  by (auto simp: bindT_def split: prod.splits sum.splits)

lemma traced_decide_tells:
  assumes "traced_decide sdk call env rid body wt = (Inr (v, fs), wt')"
  shows "\<exists>out. dget fs ''output'' = JObj out \<and> dget out ''status'' = JStr (vd_status v)"
  using assms unfolding traced_decide_def Let_def
  by (auto simp: retT_def trace_fields_def dget_def Let_def elim!: bindT_Inr split: if_splits prod.splits)

section \<open>Without keys\<close>

text \<open>
  \<open>idle S m\<close>: when no keys are configured and no client was set, the step calls nothing of the
  SDK, and the next one finds it so too.
\<close>

definition switched_off :: "settings \<Rightarrow> 't tracing \<Rightarrow> bool" where
  "switched_off S tr \<longleftrightarrow> \<not> is_tracing_enabled S \<and> tr_client tr \<noteq> Client"

definition still :: "settings \<Rightarrow> 't tracing \<Rightarrow> 't tracing \<Rightarrow> bool" where
  "still S tr tr' \<longleftrightarrow> (switched_off S tr \<longrightarrow> switched_off S tr' \<and> tr_sdk tr' = tr_sdk tr)"

definition idle :: "settings \<Rightarrow> ('w, 't, 'a) act \<Rightarrow> bool" where
  "idle S m \<longleftrightarrow> (\<forall>w tr. still S tr (snd (snd (m (w, tr)))))"

named_theorems idle_intros

lemma still_refl: "still S tr tr"
  by (simp add: still_def)

lemma still_trans: "still S tr tr1 \<Longrightarrow> still S tr1 tr2 \<Longrightarrow> still S tr tr2"
  by (simp add: still_def)

lemma idleI: "(\<And>w tr. still S tr (snd (snd (m (w, tr))))) \<Longrightarrow> idle S m"
  by (simp add: idle_def)

lemma idleD: "idle S m \<Longrightarrow> m (w, tr) = (r, w', tr') \<Longrightarrow> still S tr tr'"
  unfolding idle_def by (metis snd_conv)

lemma idle_ret [idle_intros]: "idle S (retT r)"
  by (simp add: idle_def retT_def still_refl)

lemma idle_lift [idle_intros]: "idle S (liftT f)"
  by (simp add: idle_def liftT_def still_refl split: prod.split)

lemma idle_json [idle_intros]:
  "(\<And>x. idle S (k x)) \<Longrightarrow> idle S m \<Longrightarrow> idle S (case v of JStr x \<Rightarrow> k x | _ \<Rightarrow> m)"
  by (simp split: json.split)

lemma idle_record [idle_intros]: "idle S (recordT sdk None fs r)"
  by (simp add: idle_def recordT_def update_def still_refl)

lemma idle_bind [idle_intros]:
  assumes "idle S m" "\<And>a. idle S (k a)"
  shows "idle S (bindT m k)"
proof (rule idleI)
  fix w and tr
  obtain r w1 tr1 where m: "m (w, tr) = (r, w1, tr1)" by (metis prod_cases3)
  note one = idleD [OF assms(1) m]
  show "still S tr (snd (snd (bindT m k (w, tr))))"
  proof (cases r)
    case (Inr a)
    obtain r2 w2 tr2 where k: "k a (w1, tr1) = (r2, w2, tr2)" by (metis prod_cases3)
    from still_trans [OF one idleD [OF assms(2) k]] m Inr k show ?thesis by (simp add: bindT_def)
  qed (use m one in \<open>simp add: bindT_def\<close>)
qed

lemma idle_catch [idle_intros]:
  assumes "idle S m"
  shows "idle S (catchT P h m)"
proof (rule idleI)
  fix w and tr
  obtain r w1 tr1 where m: "m (w, tr) = (r, w1, tr1)" by (metis prod_cases3)
  from idleD [OF assms m] m show "still S tr (snd (snd (catchT P h m (w, tr))))"
    by (cases r) (simp_all add: catchT_def)
qed

lemma idle_onS [idle_intros]:
  fixes m :: "('s, 't, 'a) act"
  assumes "idle S m"
  shows "idle S (onS m)"
proof (rule idleI)
  fix w :: "txn_table \<times> 's" and tr
  obtain txns s where w: "w = (txns, s)" by fastforce
  obtain r s1 tr1 where m: "m (s, tr) = (r, s1, tr1)" by (metis prod_cases3)
  from idleD [OF assms m] m w show "still S tr (snd (snd (onS m (w, tr))))" by (simp add: onS_def)
qed

text \<open>What asks for a client when switched off gets none; what it then runs is its block without an observation.\<close>

lemma client_off:
  "switched_off S tr \<Longrightarrow> \<exists>tr'. get_client sdk S tr = (False, tr') \<and> switched_off S tr' \<and> tr_sdk tr' = tr_sdk tr"
  by (cases "tr_client tr") (auto simp: switched_off_def get_client_def)

lemma idle_block:
  assumes "idle S n" "\<And>w tr tr1. get_client sdk S tr = (False, tr1) \<Longrightarrow> m (w, tr) = n (w, tr1)"
  shows "idle S m"
proof (rule idleI)
  fix w and tr
  show "still S tr (snd (snd (m (w, tr))))"
  proof (cases "switched_off S tr")
    case True
    from client_off [OF this] obtain tr1 where c: "get_client sdk S tr = (False, tr1)" "still S tr tr1"
      by (metis still_def)
    obtain r w2 tr2 where n: "n (w, tr1) = (r, w2, tr2)" by (metis prod_cases3)
    from still_trans [OF c(2) idleD [OF assms(1) n]] assms(2) [OF c(1), of w] n show ?thesis by simp
  qed (simp add: still_def)
qed

lemma idle_config [idle_intros]: "idle S (configT sdk S lw provider model_name run_name)"
  by (rule idleI) (auto simp: configT_def langchain_config_def still_def dest: client_off [of S _ sdk] split: sum.split prod.split)

lemma idle_observe [idle_intros]: "idle S (block None) \<Longrightarrow> idle S (observe sdk S name kind i m l block)"
  by (erule idle_block [where sdk = sdk]) (simp add: observe_def)

lemma idle_claim_trace [idle_intros]: "idle S (block None) \<Longrightarrow> idle S (claim_trace sdk sha S rid uid i tags block)"
  by (erule idle_block [where sdk = sdk]) (simp add: claim_trace_def)

lemma idle_if [idle_intros]: "idle S m \<Longrightarrow> idle S n \<Longrightarrow> idle S (if b then m else n)"
  by simp

lemma idle_option [idle_intros]: "idle S m \<Longrightarrow> (\<And>x. idle S (k x)) \<Longrightarrow> idle S (case v of None \<Rightarrow> m | Some x \<Rightarrow> k x)"
  by (simp split: option.split)

lemma idle_sum [idle_intros]: "(\<And>x. idle S (f x)) \<Longrightarrow> (\<And>x. idle S (k x)) \<Longrightarrow> idle S (case v of Inl x \<Rightarrow> f x | Inr x \<Rightarrow> k x)"
  by (simp split: sum.split)

lemma idle_prod [idle_intros]: "(\<And>x y. idle S (k x y)) \<Longrightarrow> idle S (case v of (x, y) \<Rightarrow> k x y)"
  by (simp split: prod.split)

lemmas agent_defs = traced_scan_def traced_propose_def traced_judge_def traced_cascade_def traced_evaluate_def
  traced_policy_def traced_evidence_def traced_judge_step_def traced_execute_def

lemma idle_decide [idle_intros]: "idle (ce_settings env) (traced_decide sdk call env rid body)"
  unfolding traced_decide_def agent_defs Let_def by (intro idle_intros)

lemma idle_claim: "idle (ce_settings env) (traced_claim sdk sha call env now2 rid body)"
  unfolding traced_claim_def by (intro idle_intros)

section \<open>Properties\<close>

text \<open>
  C34. Tracing changes nothing: a message processed inside its trace, with every observation its
  steps open and every field they record, is settled as the plain message is and leaves the
  same transactions and the same world, whatever building the client, starting observations and
  recording do, as long as leaving a span does not raise; and with no keys configured the SDK
  is never called.
\<close>

theorem traced_message_transparent:
  assumes "quiet_exit sdk"
  shows "(case traced_message sdk sha256 call env now1 now2 wire ((txns, s), tr) of
        (how, (txns', s'), tr') \<Rightarrow> (how, txns', s')) = process_message call env now1 now2 wire txns s \<and>
    (\<not> is_tracing_enabled (ce_settings env) \<longrightarrow> tr_client tr \<noteq> Client \<longrightarrow>
       tr_sdk (snd (snd (traced_message sdk sha256 call env now1 now2 wire ((txns, s), tr)))) = tr_sdk tr)"
  (is "?plain \<and> ?off")
proof
  show ?plain
    unfolding traced_message_def process_message_def finish_claim_def
    by (auto simp: Let_def dest!: likeD [OF like_claim [OF assms]] split: json.split option.split claim_result.split prod.split sum.split)
  show ?off
    using idleD [OF idle_claim [of env sdk sha256 call now2]]
    by (auto simp: traced_message_def Let_def switched_off_def still_def
        split: json.split option.split claim_result.split prod.split sum.split)
qed

text \<open>A refund paid while every second observation fails to start and no field is recorded.\<close>

theorem traced_message_transparent_witness:
  "\<exists>row. (case traced_message flaky_sdk (\<lambda>s. s) worker_call demo_claim_env 0 9 (Some (JObj demo_body))
        ((Map.empty, worker_world), \<lparr>tr_client = Client, tr_key = None, tr_sdk = 0\<rparr>) of
      (how, (txns', s'), tr') \<Rightarrow> (how, txns', s')) = (Acked, [''q'' \<mapsto> row], snd (snd demo_paid)) \<and>
    tx_status row = ''COMPLETED''"
proof -
  have "quiet_exit flaky_sdk" by (simp add: quiet_exit_def flaky_sdk_def)
  from traced_message_transparent [OF this, of "\<lambda>s. s" worker_call demo_claim_env 0 9 "Some (JObj demo_body)"
      Map.empty worker_world "\<lparr>tr_client = Client, tr_key = None, tr_sdk = 0\<rparr>"] demo_processed
  show ?thesis by fastforce
qed

end
