(* ===== verification/Worker_Log.thy ===== *)
theory Worker_Log
  imports Worker
begin

text \<open>
  The line that \<open>process_message\<close> logs for a claim it decided, by what it tells: the source picks
  it from the status, the intents and the evidence in an order of its own, and three of its texts
  have the status written out. The lemmas show that what the line says is what the row says.
\<close>

datatype outcome_line =
    Refund_executed json
  | Refund_failed "dict option"
  | Reclassified string proposal_intent string
  | Not_judged string proposal_intent string
  | Evidence_failed string
  | Not_executable
  | Judges_rejected json

definition outcome_line ::
  "string \<Rightarrow> claim_proposal option \<Rightarrow> evidence_outcome \<Rightarrow> judgement \<Rightarrow> dict option \<Rightarrow> outcome_line" where
  "outcome_line status other_intent ev jg execution =
     (if status = ''COMPLETED'' then Refund_executed (dget (jg_result jg) ''reason'')
      else if status = ''EXECUTION_FAILED'' then Refund_failed execution
      else case deciding_proposal other_intent jg of
             Some p \<Rightarrow> (if jg_retry jg \<noteq> None then Reclassified status (cp_intent p) (cp_reason p)
                        else Not_judged status (cp_intent p) (cp_reason p))
           | None \<Rightarrow> (case eo_failure ev of
                        Some why \<Rightarrow> Evidence_failed why
                      | None \<Rightarrow> if approved jg then Not_executable else Judges_rejected (dget (jg_result jg) ''reason'')))"

datatype log_level = Log_info | Log_warning | Log_error

definition line_level :: "outcome_line \<Rightarrow> log_level" where
  "line_level l = (case l of Refund_executed _ \<Rightarrow> Log_info | Refund_failed _ \<Rightarrow> Log_error | _ \<Rightarrow> Log_warning)"

text \<open>The status that a line's text names or stands for.\<close>

definition line_status :: "outcome_line \<Rightarrow> string" where
  "line_status l =
     (case l of
        Refund_executed _ \<Rightarrow> ''COMPLETED'' | Refund_failed _ \<Rightarrow> ''EXECUTION_FAILED''
      | Reclassified status _ _ \<Rightarrow> status | Not_judged status _ _ \<Rightarrow> status | _ \<Rightarrow> ''PENDING_HUMAN_REVIEW'')"

lemma outcome_line_status:
  assumes "execute_step call env rid body other_intent jg s = ((status, execution), s')"
  shows "line_status (outcome_line status other_intent ev jg execution) = status \<and>
    (line_level (outcome_line status other_intent ev jg execution) = Log_info \<longleftrightarrow> status = ''COMPLETED'') \<and>
    (line_level (outcome_line status other_intent ev jg execution) = Log_error \<longleftrightarrow> status = ''EXECUTION_FAILED'')"
proof -
  have "status \<in> {''COMPLETED'', ''EXECUTION_FAILED'', review_status (deciding_proposal other_intent jg)}"
    using assms by (auto simp: execute_step_def Let_def split: if_splits prod.splits sum.splits)
  then show ?thesis
    by (auto simp: outcome_line_def line_status_def line_level_def review_status_def
        split: option.splits outcome_line.splits if_splits)
qed

text \<open>The line gives the right reason: an approved claim that was not paid had no order or amount.\<close>

lemma outcome_line_reason:
  assumes "execute_step call env rid body other_intent jg s = ((status, execution), s')"
  shows "(outcome_line status other_intent ev jg execution = Not_executable \<longrightarrow>
      \<not> has_refund body \<and> execution = Some not_executable) \<and>
    (\<forall>why. outcome_line status other_intent ev jg execution = Judges_rejected why \<longrightarrow> \<not> approved jg \<and> execution = None) \<and>
    (\<forall>x. outcome_line status other_intent ev jg execution = Refund_failed x \<longrightarrow>
       (\<exists>err. x = Some [(''status'', JStr ''failed''), (''error'', JStr err)]))"
  using assms
  by (auto simp: execute_step_def Let_def outcome_line_def review_status_def
      split: if_splits prod.splits sum.splits option.splits)

end
