(* ===== verification/Migrations.thy ===== *)
theory Migrations
  imports Tables
begin

text \<open>
  The schema history (\<open>alembic/versions/\<close>) and the schema the models declare
  (\<open>src/core/models.py\<close>). A revision is its identifier, the one it follows and its two lists of
  statements; a statement acts on a schema or fails as it does in PostgreSQL: creating what exists,
  dropping what does not. Alembic's own part, following the identifiers from the base to the
  head, is \<open>history\<close>.
\<close>

section \<open>Schemas and statements\<close>

datatype col_type = TString | TStringN nat | TInteger | TJsonb | TText | TTimestampTz | TNumeric nat nat | TVector nat

record column =
  co_name :: string
  co_type :: col_type
  co_nullable :: bool
  co_default :: "string option"

text \<open>Primary key, unique constraints and indexes by name, with their columns.\<close>

record table_def =
  td_columns :: "column list"
  td_primary :: "string list"
  td_uniques :: "(string \<times> string list) list"

record schema =
  sc_tables :: "(string \<times> table_def) list"
  sc_indexes :: "(string \<times> string \<times> string list) list"
  sc_extensions :: "string list"

datatype ddl =
    CreateTable string table_def
  | DropTable string
  | AddColumn string column
  | DropColumn string string
  | CreateIndex string string "string list"
  | DropIndex string
  | CreateUnique string string "string list"
  | DropConstraint string string
  | CreateExtension string

definition set_table :: "string \<Rightarrow> table_def \<Rightarrow> schema \<Rightarrow> schema" where
  "set_table n t s = s\<lparr>sc_tables := AList.update n t (sc_tables s)\<rparr>"

definition col_names :: "table_def \<Rightarrow> string list" where
  "col_names t = map co_name (td_columns t)"

text \<open>One statement; dropping a column drops the constraints and indexes over it.\<close>

fun exec :: "ddl \<Rightarrow> schema \<Rightarrow> schema option" where
  "exec (CreateTable n t) s =
     (if map_of (sc_tables s) n = None then Some (s\<lparr>sc_tables := sc_tables s @ [(n, t)]\<rparr>) else None)"
| "exec (DropTable n) s =
     (if map_of (sc_tables s) n = None then None
      else Some (s\<lparr>sc_tables := filter (\<lambda>e. fst e \<noteq> n) (sc_tables s),
                   sc_indexes := filter (\<lambda>e. fst (snd e) \<noteq> n) (sc_indexes s)\<rparr>))"
| "exec (AddColumn n c) s =
     (case map_of (sc_tables s) n of None \<Rightarrow> None
      | Some t \<Rightarrow> if co_name c \<in> set (col_names t) then None
                  else Some (set_table n (t\<lparr>td_columns := td_columns t @ [c]\<rparr>) s))"
| "exec (DropColumn n c) s =
     (case map_of (sc_tables s) n of None \<Rightarrow> None
      | Some t \<Rightarrow>
          if c \<notin> set (col_names t) then None
          else Some (set_table n (t\<lparr>td_columns := filter (\<lambda>x. co_name x \<noteq> c) (td_columns t),
                                    td_primary := (if c \<in> set (td_primary t) then [] else td_primary t),
                                    td_uniques := filter (\<lambda>u. c \<notin> set (snd u)) (td_uniques t)\<rparr>)
                      (s\<lparr>sc_indexes := filter (\<lambda>(_, m, cs). \<not> (m = n \<and> c \<in> set cs)) (sc_indexes s)\<rparr>)))"
| "exec (CreateIndex i n cs) s =
     (case map_of (sc_tables s) n of None \<Rightarrow> None
      | Some t \<Rightarrow> if map_of (sc_indexes s) i \<noteq> None \<or> \<not> set cs \<subseteq> set (col_names t) then None
                  else Some (s\<lparr>sc_indexes := sc_indexes s @ [(i, n, cs)]\<rparr>))"
| "exec (DropIndex i) s =
     (if map_of (sc_indexes s) i = None then None
      else Some (s\<lparr>sc_indexes := filter (\<lambda>e. fst e \<noteq> i) (sc_indexes s)\<rparr>))"
| "exec (CreateUnique u n cs) s =
     (case map_of (sc_tables s) n of None \<Rightarrow> None
      | Some t \<Rightarrow> if map_of (td_uniques t) u \<noteq> None \<or> \<not> set cs \<subseteq> set (col_names t) then None
                  else Some (set_table n (t\<lparr>td_uniques := td_uniques t @ [(u, cs)]\<rparr>) s))"
| "exec (DropConstraint u n) s =
     (case map_of (sc_tables s) n of None \<Rightarrow> None
      | Some t \<Rightarrow> if map_of (td_uniques t) u = None then None
                  else Some (set_table n (t\<lparr>td_uniques := filter (\<lambda>e. fst e \<noteq> u) (td_uniques t)\<rparr>) s))"
| "exec (CreateExtension x) s =
     (if x \<in> set (sc_extensions s) then Some s else Some (s\<lparr>sc_extensions := sc_extensions s @ [x]\<rparr>))"

fun run_ddl :: "ddl list \<Rightarrow> schema \<Rightarrow> schema option" where
  "run_ddl [] s = Some s"
| "run_ddl (d # ds) s = Option.bind (exec d s) (run_ddl ds)"

section \<open>The revisions\<close>

record revision =
  rv_id :: string
  rv_down :: "string option"
  rv_upgrade :: "ddl list"
  rv_downgrade :: "ddl list"

abbreviation col :: "string \<Rightarrow> col_type \<Rightarrow> column" where
  "col n t \<equiv> \<lparr>co_name = n, co_type = t, co_nullable = False, co_default = None\<rparr>"

abbreviation nullable_col :: "string \<Rightarrow> col_type \<Rightarrow> column" where
  "nullable_col n t \<equiv> \<lparr>co_name = n, co_type = t, co_nullable = True, co_default = None\<rparr>"

abbreviation now_col :: "string \<Rightarrow> column" where
  "now_col n \<equiv> \<lparr>co_name = n, co_type = TTimestampTz, co_nullable = False, co_default = Some ''now()''\<rparr>"

definition rev_41371b64d3e7 :: revision where
  "rev_41371b64d3e7 = \<lparr>rv_id = ''41371b64d3e7'', rv_down = None,
     rv_upgrade = [CreateTable ''transactions''
       \<lparr>td_columns = [col ''request_id'' TString, col ''payload'' TJsonb, col ''status'' TString],
        td_primary = [''request_id''], td_uniques = []\<rparr>],
     rv_downgrade = [DropTable ''transactions'']\<rparr>"

definition rev_6223070eec00 :: revision where
  "rev_6223070eec00 = \<lparr>rv_id = ''6223070eec00'', rv_down = Some ''41371b64d3e7'',
     rv_upgrade = [AddColumn ''transactions'' (now_col ''updated_at''),
       CreateIndex ''ix_transactions_request_id'' ''transactions'' [''request_id''],
       CreateUnique ''uq_transactions_request_id'' ''transactions'' [''request_id'']],
     rv_downgrade = [DropConstraint ''uq_transactions_request_id'' ''transactions'',
       DropIndex ''ix_transactions_request_id'', DropColumn ''transactions'' ''updated_at'']\<rparr>"

definition rev_7da4609fe11c :: revision where
  "rev_7da4609fe11c = \<lparr>rv_id = ''7da4609fe11c'', rv_down = Some ''6223070eec00'',
     rv_upgrade = [CreateExtension ''vector'', CreateTable ''knowledge_base''
       \<lparr>td_columns = [col ''id'' TInteger, col ''source'' TString,
          (col ''source_tier'' TString)\<lparr>co_default := Some ''official''\<rparr>, col ''content'' TText,
          col ''embedding'' (TVector 768), now_col ''created_at'', now_col ''updated_at''],
        td_primary = [''id''], td_uniques = []\<rparr>],
     rv_downgrade = [DropTable ''knowledge_base'']\<rparr>"

definition rev_70b40799328f :: revision where
  "rev_70b40799328f = \<lparr>rv_id = ''70b40799328f'', rv_down = Some ''7da4609fe11c'',
     rv_upgrade = [CreateTable ''mcp_audit_logs''
       \<lparr>td_columns = [col ''id'' TInteger, col ''client_id'' TString, nullable_col ''tool'' TString,
          col ''arguments'' TJsonb, col ''decision'' TString, nullable_col ''result'' TString, now_col ''created_at''],
        td_primary = [''id''], td_uniques = []\<rparr>,
       CreateIndex ''ix_mcp_audit_logs_client_id_created_at'' ''mcp_audit_logs'' [''client_id'', ''created_at'']],
     rv_downgrade = [DropIndex ''ix_mcp_audit_logs_client_id_created_at'', DropTable ''mcp_audit_logs'']\<rparr>"

definition rev_5f889de3a5a3 :: revision where
  "rev_5f889de3a5a3 = \<lparr>rv_id = ''5f889de3a5a3'', rv_down = Some ''70b40799328f'',
     rv_upgrade = [DropIndex ''ix_mcp_audit_logs_client_id_created_at'',
       CreateIndex ''ix_mcp_audit_logs_client_id_tool_created_at'' ''mcp_audit_logs''
         [''client_id'', ''tool'', ''created_at'']],
     rv_downgrade = [DropIndex ''ix_mcp_audit_logs_client_id_tool_created_at'',
       CreateIndex ''ix_mcp_audit_logs_client_id_created_at'' ''mcp_audit_logs'' [''client_id'', ''created_at'']]\<rparr>"

definition rev_622b710f2855 :: revision where
  "rev_622b710f2855 = \<lparr>rv_id = ''622b710f2855'', rv_down = Some ''5f889de3a5a3'',
     rv_upgrade = [AddColumn ''transactions'' (now_col ''created_at''),
       AddColumn ''transactions'' (nullable_col ''judge_trail'' TJsonb)],
     rv_downgrade = [DropColumn ''transactions'' ''judge_trail'', DropColumn ''transactions'' ''created_at'']\<rparr>"

definition rev_b3e1f0c9a2d4 :: revision where
  "rev_b3e1f0c9a2d4 = \<lparr>rv_id = ''b3e1f0c9a2d4'', rv_down = Some ''622b710f2855'',
     rv_upgrade = [CreateTable ''refunds''
       \<lparr>td_columns = [col ''id'' TInteger, col ''request_id'' TString, col ''transaction_id'' TString,
          col ''amount'' (TNumeric 12 2), col ''currency'' (TStringN 3), now_col ''created_at''],
        td_primary = [''id''], td_uniques = [(''uq_refunds_request_id'', [''request_id''])]\<rparr>],
     rv_downgrade = [DropTable ''refunds'']\<rparr>"

definition rev_c4d2a7e81f35 :: revision where
  "rev_c4d2a7e81f35 = \<lparr>rv_id = ''c4d2a7e81f35'', rv_down = Some ''b3e1f0c9a2d4'',
     rv_upgrade = [CreateTable ''orders''
       \<lparr>td_columns = [col ''id'' TInteger, col ''order_id'' TString, col ''user_id'' TString,
          col ''amount'' (TNumeric 12 2), col ''currency'' (TStringN 3), now_col ''created_at''],
        td_primary = [''id''], td_uniques = [(''uq_orders_order_id'', [''order_id''])]\<rparr>,
       CreateIndex ''ix_orders_user_id'' ''orders'' [''user_id'']],
     rv_downgrade = [DropIndex ''ix_orders_user_id'', DropTable ''orders'']\<rparr>"

text \<open>The files in the directory, in the order of their names.\<close>

definition VERSIONS :: "revision list" where
  "VERSIONS = [rev_41371b64d3e7, rev_5f889de3a5a3, rev_6223070eec00, rev_622b710f2855, rev_70b40799328f,
     rev_7da4609fe11c, rev_b3e1f0c9a2d4, rev_c4d2a7e81f35]"

text \<open>The revisions that follow an identifier one after the other; at most \<open>n\<close> of them.\<close>

fun history :: "nat \<Rightarrow> string option \<Rightarrow> revision list \<Rightarrow> revision list" where
  "history 0 at_rev vs = []"
| "history (Suc n) at_rev vs =
     (case filter (\<lambda>v. rv_down v = at_rev) vs of
        [v] \<Rightarrow> v # history n (Some (rv_id v)) vs
      | _ \<Rightarrow> [])"

definition empty_schema :: schema where
  "empty_schema = \<lparr>sc_tables = [], sc_indexes = [], sc_extensions = []\<rparr>"

text \<open>\<open>alembic upgrade head\<close> from an empty database.\<close>

definition upgrade_all :: "revision list \<Rightarrow> schema option" where
  "upgrade_all vs = run_ddl (concat (map rv_upgrade vs)) empty_schema"

section \<open>The models\<close>

text \<open>\<open>Base.metadata\<close>; the defaults of \<open>mapped_column\<close> that only Python applies are no part of a table.\<close>

definition models_metadata :: schema where
  "models_metadata =
     \<lparr>sc_tables =
        [(''transactions'', \<lparr>td_columns = [col ''request_id'' TString, col ''payload'' TJsonb, col ''status'' TString,
             now_col ''created_at'', now_col ''updated_at'', nullable_col ''judge_trail'' TJsonb],
            td_primary = [''request_id''], td_uniques = [(''uq_transactions_request_id'', [''request_id''])]\<rparr>),
         (''refunds'', \<lparr>td_columns = [col ''id'' TInteger, col ''request_id'' TString, col ''transaction_id'' TString,
             col ''amount'' (TNumeric 12 2), col ''currency'' (TStringN 3), now_col ''created_at''],
            td_primary = [''id''], td_uniques = [(''uq_refunds_request_id'', [''request_id''])]\<rparr>),
         (''orders'', \<lparr>td_columns = [col ''id'' TInteger, col ''order_id'' TString, col ''user_id'' TString,
             col ''amount'' (TNumeric 12 2), col ''currency'' (TStringN 3), now_col ''created_at''],
            td_primary = [''id''], td_uniques = [(''uq_orders_order_id'', [''order_id''])]\<rparr>),
         (''mcp_audit_logs'', \<lparr>td_columns = [col ''id'' TInteger, col ''client_id'' TString, nullable_col ''tool'' TString,
             col ''arguments'' TJsonb, col ''decision'' TString, nullable_col ''result'' TString, now_col ''created_at''],
            td_primary = [''id''], td_uniques = []\<rparr>),
         (''knowledge_base'', \<lparr>td_columns = [col ''id'' TInteger, col ''source'' TString, col ''source_tier'' TString,
             col ''content'' TText, col ''embedding'' (TVector EMBEDDING_DIM), now_col ''created_at'', now_col ''updated_at''],
            td_primary = [''id''], td_uniques = []\<rparr>)],
      sc_indexes = [(''ix_transactions_request_id'', ''transactions'', [''request_id'']),
        (''ix_orders_user_id'', ''orders'', [''user_id'']),
        (''ix_mcp_audit_logs_client_id_tool_created_at'', ''mcp_audit_logs'', [''client_id'', ''tool'', ''created_at''])],
      sc_extensions = []\<rparr>"

section \<open>Comparing schemas\<close>

text \<open>
  Two columns agree when name, type and nullability do; a table keeps neither the order of its
  columns nor that of its constraints. A column that is required and filled by no default must be
  in every insert, so defaults are compared where the model has one.
\<close>

definition column_key :: "column \<Rightarrow> string \<times> col_type \<times> bool" where
  "column_key c = (co_name c, co_type c, co_nullable c)"

definition defaults :: "table_def \<Rightarrow> (string \<times> string) list" where
  "defaults t = List.map_filter (\<lambda>c. map_option (Pair (co_name c)) (co_default c)) (td_columns t)"

definition same_table :: "table_def \<Rightarrow> table_def \<Rightarrow> bool" where
  "same_table a b \<longleftrightarrow>
     set (map column_key (td_columns a)) = set (map column_key (td_columns b)) \<and>
     length (td_columns a) = length (td_columns b) \<and> td_primary a = td_primary b \<and>
     set (td_uniques a) = set (td_uniques b)"

definition same_tables_by :: "(table_def \<Rightarrow> table_def \<Rightarrow> bool) \<Rightarrow> schema \<Rightarrow> schema \<Rightarrow> bool" where
  "same_tables_by P a b \<longleftrightarrow>
     set (map fst (sc_tables a)) = set (map fst (sc_tables b)) \<and>
     list_all (\<lambda>(n, t). case map_of (sc_tables b) n of None \<Rightarrow> False | Some u \<Rightarrow> P t u) (sc_tables a) \<and>
     set (sc_indexes a) = set (sc_indexes b)"

section \<open>Properties\<close>


end
