(* ===== verification/Eval_Providers.thy ===== *)
theory Eval_Providers
  imports Judge Front_Desk Chunking Benchmark
begin

text \<open>
  The providers of the offline evaluation (\<open>evals/promptfoo/judge_provider.py\<close> and
  \<open>front_desk_provider.py\<close>): one labelled case is put to one model with the messages and the
  parser of production, and the answer is returned for the report. The clock and pydantic's JSON
  printer are arguments; a call's keyword arguments are the provider's configuration. The lemmas show
  that what the report reads out of a result is what production would have decided.
\<close>

section \<open>The policy of a case\<close>

text \<open>\<open>policy\<close> is the text of the policy file.\<close>

definition policy_chunks :: "string \<Rightarrow> string list res" where
  "policy_chunks policy = chunk_markdown policy 800 100"

fun contains :: "string \<Rightarrow> string \<Rightarrow> bool" where
  "contains p [] = (p = [])"
| "contains p (c # s) = (take (length p) (c # s) = p \<or> contains p s)"

fun position :: "'a \<Rightarrow> 'a list \<Rightarrow> nat" where
  "position x [] = 0"
| "position x (y # ys) = (if x = y then 0 else Suc (position x ys))"

definition policy_chunk :: "string \<Rightarrow> string \<Rightarrow> string res" where
  "policy_chunk policy section_name =
     (let paragraphs = map strip (split_blank [] policy); heading = ''## '' @ section_name
      in if heading \<notin> set paragraphs then raise_exn ''KeyError''
         else let i = position heading paragraphs + 1
              in if length paragraphs \<le> i then raise_exn ''IndexError''
                 else bindR (policy_chunks policy) (\<lambda>chunks.
                   case find (contains (paragraphs ! i)) chunks of
                     Some chunk \<Rightarrow> Inr chunk
                   | None \<Rightarrow> raise_exn ''KeyError''))"

section \<open>judge_provider\<close>

definition CLAIM_FIELDS :: "string list" where
  "CLAIM_FIELDS = [''request_id'', ''user_id'', ''claim_text'', ''order_id'', ''amount'', ''currency'']"

definition judge_inputs :: "string \<Rightarrow> dict \<Rightarrow> (dict \<times> dict) res" where
  "judge_inputs policy case_vars =
     (let args = List.map_filter (\<lambda>f. if dget case_vars f = JNull then None else Some (f, dget case_vars f)) CLAIM_FIELDS;
          context = [(''request_id'', dget case_vars ''request_id'')];
          section_name = dget case_vars ''policy_section''
      in if truthy section_name
         then bindR (policy_chunk policy (py_str section_name)) (\<lambda>chunk.
                Inr (args, context @ [(''retrieved_policy'', JStr chunk)]))
         else Inr (args, context))"

text \<open>The models of an evaluation with the usage they report and the measured milliseconds.\<close>

record eval_world =
  ev_llm :: llm_world
  ev_usage :: "chat_model \<Rightarrow> string \<times> string \<Rightarrow> dict option"
  ev_latency :: int

text \<open>\<open>config["provider"]\<close> and \<open>config.get("model")\<close>.\<close>

record eval_config =
  ec_provider :: "string option"
  ec_model :: "string option"

definition ask :: "settings \<Rightarrow> eval_world \<Rightarrow> eval_config \<Rightarrow> string \<times> string \<Rightarrow> (json \<times> dict option) res" where
  "ask S w cfg messages =
     (case ec_provider cfg of
        None \<Rightarrow> Inl (Exn ''KeyError'' [CHR 0x27, CHR ''p'', CHR ''r'', CHR ''o'', CHR ''v'', CHR ''i'', CHR ''d'', CHR ''e'', CHR ''r'', CHR 0x27])
      | Some p \<Rightarrow>
          bindR (get_llm S (lw_packages (ev_llm w)) (Some p) (ec_model cfg)) (\<lambda>m.
          bindR (ainvoke (ev_llm w) m (fst messages) (snd messages)) (\<lambda>content.
            Inr (content, ev_usage w m messages))))"

definition error_result :: "exn \<Rightarrow> dict" where
  "error_result e = [(''error'', JStr (exn_class e @ '': '' @ exn_msg e))]"

definition output_result :: "eval_world \<Rightarrow> string \<Rightarrow> dict option \<Rightarrow> dict" where
  "output_result w output usage_metadata =
     (let usage = (case extract_usage usage_metadata of None \<Rightarrow> [] | Some u \<Rightarrow> u)
      in [(''output'', JStr output), (''latencyMs'', JInt (ev_latency w)),
          (''tokenUsage'', JObj [(''prompt'', dget_or usage ''input_tokens'' (JInt 0)),
             (''completion'', dget_or usage ''output_tokens'' (JInt 0)),
             (''total'', dget_or usage ''total_tokens'' (JInt 0)), (''numRequests'', JInt 1)])])"

definition eval_judge :: "settings \<Rightarrow> string \<Rightarrow> eval_world \<Rightarrow> eval_config \<Rightarrow> dict \<Rightarrow> dict res" where
  "eval_judge S policy w cfg case_vars =
     bindR (judge_inputs policy case_vars) (\<lambda>(args, context).
       let messages = build_judge_messages ''execute_refund'' args context
       in case ask S w cfg messages of
            Inl e \<Rightarrow> Inr (error_result e)
          | Inr (content, usage) \<Rightarrow>
              (case parse_verdict content of
                 Inr verdict \<Rightarrow> Inr (output_result w (json_dumps (JObj verdict)) usage)
               | Inl e \<Rightarrow>
                   if exn_class e \<in> {''ValueError'', ''JSONDecodeError''}
                   then Inr (output_result w (json_dumps (JObj [(''verdict'', JStr ''REJECT''),
                          (''reason'', JStr (''System Guardrail Error: '' @ exn_msg e))])) usage)
                   else Inl e))"

section \<open>front_desk_provider\<close>

definition desk_case_prompt :: "dict \<Rightarrow> string res" where
  "desk_case_prompt case_vars =
     bindR (dindex case_vars ''claim_text'') (\<lambda>t.
       case t of
         JStr s \<Rightarrow> (let feedback = dget case_vars ''rejection_feedback''
                    in Inr (desk_prompt s (if truthy feedback then Some (py_str feedback) else None)))
       | _ \<Rightarrow> raise_exn ''AttributeError'')"

text \<open>Whatever goes wrong while reading the reply is one of the exceptions the source lists.\<close>

definition read_proposal :: "settings \<Rightarrow> pydantic \<Rightarrow> json \<Rightarrow> claim_proposal" where
  "read_proposal S P content =
     (case bindR (parse_proposal content) (\<lambda>raw.
             case ClaimProposal P (REFUND_MAX_AMOUNT S) raw of None \<Rightarrow> raise_exn ''ValidationError'' | Some p \<Rightarrow> Inr p) of
        Inr p \<Rightarrow> p
      | Inl e \<Rightarrow> clarify_fallback (''System Guardrail Error: '' @ exn_msg e))"

definition eval_front_desk ::
  "(dict \<Rightarrow> string) \<Rightarrow> settings \<Rightarrow> pydantic \<Rightarrow> eval_world \<Rightarrow> eval_config \<Rightarrow> dict \<Rightarrow> dict res" where
  "eval_front_desk model_dump_json S P w cfg case_vars =
     bindR (desk_case_prompt case_vars) (\<lambda>user_prompt.
       case ask S w cfg (FRONT_DESK_SYSTEM_PROMPT, user_prompt) of
         Inl e \<Rightarrow> Inr (error_result e)
       | Inr (content, usage) \<Rightarrow>
           Inr (output_result w (model_dump_json (proposal_dump (read_proposal S P content))) usage))"

section \<open>Reading a result back\<close>

text \<open>A dictionary that was read has each of its keys once.\<close>

lemma wf_dset: "wf_json (JObj d) \<Longrightarrow> wf_json v \<Longrightarrow> wf_json (JObj (dset k v d))"
proof -
  have "set (AList.update k v d) \<subseteq> insert (k, v) (set d)" by (induction d) auto
  then show "wf_json (JObj d) \<Longrightarrow> wf_json v \<Longrightarrow> wf_json (JObj (dset k v d))"
    by (auto simp: dset_def distinct_update list_all_iff)
qed

lemma read_number_wf: "read_number s = Some (v, r) \<Longrightarrow> wf_json v"
  by (auto simp: read_number_def Let_def split: option.splits prod.splits if_splits)

lemma read_literal_wf: "read_literal s = Some (v, r) \<Longrightarrow> wf_json v"
  by (auto simp: read_literal_def dest: read_number_wf split: if_splits)

lemma reads_wf:
  "read_value n s = Some (v, r) \<Longrightarrow> wf_json v"
  "read_elements n s = Some (vs, r') \<Longrightarrow> list_all wf_json vs"
  "read_members n d s = Some (d', r'') \<Longrightarrow> wf_json (JObj d) \<Longrightarrow> wf_json (JObj d')"
proof (induction n s and n s and n d s arbitrary: v r and vs r' and d' r''
    rule: read_value_read_elements_read_members.induct)
  case (3 n c cs)
  have "c = CHR ''{'' \<Longrightarrow> \<not> (skip cs \<noteq> [] \<and> hd (skip cs) = CHR ''}'') \<Longrightarrow>
      read_members n [] (skip cs) = Some (a, r) \<Longrightarrow> wf_json (JObj a)" for a r
    using "3.IH"(2) [of "skip cs" a r] by simp
  moreover have "c = CHR ''['' \<Longrightarrow> \<not> (skip cs \<noteq> [] \<and> hd (skip cs) = CHR '']'') \<Longrightarrow>
      read_elements n (skip cs) = Some (a, r) \<Longrightarrow> list_all wf_json a" for a r
    using "3.IH"(1) [of "skip cs" a r] by simp
  ultimately show ?case using "3.prems"
    by (auto simp: Let_def dest: read_literal_wf split: if_splits)
next
  case (5 n s)
  from "5.prems" obtain x u where x: "read_value n s = Some (x, u)" by (auto split: option.splits)
  moreover have "wf_json x" by (rule "5.IH"(1) [OF x])
  ultimately show ?case using "5.prems" "5.IH"(2) [OF x refl]
    by (auto split: list.splits if_splits)
next
  case (7 n d s)
  from "7.prems"(1) obtain cs k t c r1 x r2 where
    k: "s = CHR 0x22 # cs" "read_string cs = Some (k, t)" "skip t = CHR '':'' # r1" "read_value n (skip r1) = Some (x, r2)"
    by (auto split: list.splits option.splits if_splits)
  have x: "wf_json x" by (rule "7.IH"(1) [OF k(1) _ k(2) refl k(3) _ k(4)]) simp_all
  show ?case using "7.prems" "7.IH"(2) [OF k(1) _ k(2) refl k(3) _ k(4) refl] wf_dset [OF _ x, of d k]
    by (auto simp: k split: list.splits if_splits)
qed auto

lemma loads_wf: "json_loads s = Some v \<Longrightarrow> wf_json v"
  by (auto simp: json_loads_def dest: reads_wf(1) split: option.splits if_splits)

text \<open>What the report finds under a key of the printed output.\<close>

lemma same_dict_lookup:
  "same_dict d d' \<Longrightarrow> map_of d k = Some (JStr v) \<Longrightarrow> map_of d' k = Some (JStr v)"
proof (induction d arbitrary: d')
  case (Cons e d)
  then show ?case by (cases e; cases d') (auto split: if_splits)
qed simp

lemma reply_field_output:
  assumes "json_loads out = Some j" "same_json (JObj d) j" "map_of d k = Some (JStr v)"
  shows "reply_field k [(''response'', JObj (output_result w out usage))] = Inr (Some v)"
proof -
  obtain d' where d': "j = JObj d'" "same_dict d d'" using assms(2) by (cases j) auto
  with assms(3) have m: "map_of d' k = Some (JStr v)" using same_dict_lookup by blast
  have "json_loads [] = None" by (simp add: json_loads_def)
  with assms(1) have "out \<noteq> []" by auto
  then have "dget (output_result w out usage) ''output'' = JStr out" "truthy (JStr out)"
    by (simp_all add: output_result_def Let_def dget_def)
  then show ?thesis using assms(1) d'(1) m
    by (simp add: reply_field_def dget_def as_dict_def py_or_def output_result_def Let_def)
qed

lemma reply_field_dumps:
  assumes "wf_json (JObj d)" "map_of d k = Some (JStr v)"
  shows "reply_field k [(''response'', JObj (output_result w (json_dumps (JObj d)) usage))] = Inr (Some v)"
proof -
  obtain j where "json_loads (json_dumps (JObj d)) = Some j" "same_json (JObj d) j"
    using encoder.loads_dumps [OF assms(1)] by (auto simp: json_dumps_with)
  then show ?thesis by (rule reply_field_output [OF _ _ assms(2)])
qed

lemma parse_verdict_wf:
  assumes "parse_verdict content = Inr d"
  shows "wf_json (JObj d) \<and> (map_of d ''verdict'' = Some (JStr ''APPROVE'') \<or> map_of d ''verdict'' = Some (JStr ''REJECT''))"
proof -
  from assms obtain j where j: "reply_json content = Inr j"
      "(case j of JObj d \<Rightarrow>
           if dget d ''verdict'' = JStr ''APPROVE'' \<or> dget d ''verdict'' = JStr ''REJECT'' then Inr d
           else Inl (Exn ''ValueError'' ''Invalid verdict returned by judge.'')
        | _ \<Rightarrow> Inl (Exn ''ValueError'' ''Invalid verdict returned by judge.'')) = Inr d"
    by (auto simp: parse_verdict_def res_simps)
  from j(2) have "j = JObj d" "dget d ''verdict'' = JStr ''APPROVE'' \<or> dget d ''verdict'' = JStr ''REJECT''"
    by (auto split: json.splits if_splits)
  moreover from j(1) obtain s where "json_loads s = Some j"
    by (auto simp: reply_json_def res_simps Let_def split: option.splits)
  ultimately have "json_loads s = Some (JObj d)"
      "dget d ''verdict'' = JStr ''APPROVE'' \<or> dget d ''verdict'' = JStr ''REJECT''" by simp_all
  then show ?thesis using loads_wf [of s "JObj d"] by (auto simp: dget_def split: option.splits)
qed

text \<open>The judge of production for the same messages.\<close>

lemma ask_production:
  assumes "ec_provider cfg = Some p"
  shows "invoke_judge S (ev_llm w) p messages (ec_model cfg) =
    (case bindR (ask S w cfg messages) (\<lambda>(content, _). parse_verdict content) of
        Inr d \<Rightarrow> (d, None)
      | Inl e \<Rightarrow>
          ([(''verdict'', JStr ''REJECT''),
            (''reason'', JStr (''System Guardrail Error: '' @ exn_msg e))],
           Some (exn_class e @ '': '' @ exn_msg e)))"
  by (simp add: invoke_judge_def ask_def assms bindR_assoc)

lemma run_single_judge_ask:
  assumes "ec_provider cfg = Some p"
  shows "dget (run_single_judge S (ev_llm w) p messages (ec_model cfg)) ''verdict'' =
    (case bindR (ask S w cfg messages) (\<lambda>(content, _). parse_verdict content) of
        Inr d \<Rightarrow> dget d ''verdict'' | Inl e \<Rightarrow> JStr ''REJECT'')"
  unfolding run_single_judge_def ask_production [OF assms] by (simp add: dget_def split: sum.split)

section \<open>Properties\<close>

text \<open>
  How a result stands to a decision: an answered question is graded by what the report reads under
  \<open>k\<close>, one that failed is an error and not graded. The provider itself raises only for a reply it cannot read.
\<close>

definition asked :: "settings \<Rightarrow> eval_world \<Rightarrow> eval_config \<Rightarrow> string \<times> string \<Rightarrow> exn option" where
  "asked S w cfg messages = (case ask S w cfg messages of Inl e \<Rightarrow> Some e | Inr _ \<Rightarrow> None)"

definition graded_as :: "string \<Rightarrow> string \<Rightarrow> string \<Rightarrow> exn option \<Rightarrow> dict res \<Rightarrow> bool" where
  "graded_as k failed decided question result =
     (case result of
        Inl e \<Rightarrow> question = None \<and> decided = failed
      | Inr r \<Rightarrow>
          (case question of
             Some e \<Rightarrow> r = error_result e \<and> decided = failed
           | None \<Rightarrow> reply_field k [(''response'', JObj r)] = Inr (Some decided)))"

lemma judge_graded:
  assumes "judge_inputs policy vars = Inr (args, context)" "ec_provider cfg = Some p"
    "messages = build_judge_messages ''execute_refund'' args context"
  shows "graded_as ''verdict'' ''REJECT''
    (py_str (dget (run_single_judge S (ev_llm w) p messages (ec_model cfg)) ''verdict''))
    (asked S w cfg messages) (eval_judge S policy w cfg vars)"
proof (cases "ask S w cfg messages")
  case (Inl e)
  then show ?thesis
    by (simp add: graded_as_def asked_def eval_judge_def assms(1) assms(3) [symmetric] run_single_judge_ask [OF assms(2)])
next
  case (Inr a)
  obtain content usage where a: "a = (content, usage)" by (cases a)
  have eval: "eval_judge S policy w cfg vars =
      (case parse_verdict content of
         Inr verdict \<Rightarrow> Inr (output_result w (json_dumps (JObj verdict)) usage)
       | Inl e \<Rightarrow>
           if exn_class e \<in> {''ValueError'', ''JSONDecodeError''}
           then Inr (output_result w (json_dumps (JObj [(''verdict'', JStr ''REJECT''),
                  (''reason'', JStr (''System Guardrail Error: '' @ exn_msg e))])) usage)
           else Inl e)"
    using Inr a by (simp add: eval_judge_def assms(1) assms(3) [symmetric])
  show ?thesis
  proof (cases "parse_verdict content")
    case (Inl e)
    have "reply_field ''verdict'' [(''response'', JObj (output_result w (json_dumps (JObj [(''verdict'', JStr ''REJECT''),
        (''reason'', JStr (''System Guardrail Error: '' @ exn_msg e))])) usage))] = Inr (Some ''REJECT'')"
      by (rule reply_field_dumps) simp_all
    with Inl Inr a show ?thesis
      by (simp add: graded_as_def asked_def eval run_single_judge_ask [OF assms(2)] del: json_dumps.simps)
  next
    case (Inr d)
    from parse_verdict_wf [OF this] obtain v where v: "wf_json (JObj d)" "map_of d ''verdict'' = Some (JStr v)" by blast
    have "dget (run_single_judge S (ev_llm w) p messages (ec_model cfg)) ''verdict'' = JStr v"
      unfolding run_single_judge_ask [OF assms(2)] by (simp add: Inr \<open>ask S w cfg messages = Inr a\<close> a dget_def v(2))
    with Inr \<open>ask S w cfg messages = Inr a\<close> a reply_field_dumps [OF v] show ?thesis
      by (simp add: graded_as_def asked_def eval del: json_dumps.simps)
  qed
qed

text \<open>The documented behaviour of \<open>model_dump_json\<close>: the text reads back as the dump. The configuration that production uses.\<close>

definition reads_back :: "(dict \<Rightarrow> string) \<Rightarrow> bool" where
  "reads_back f \<longleftrightarrow> (\<forall>d. wf_json (JObj d) \<longrightarrow> (\<exists>j. json_loads (f d) = Some j \<and> same_json (JObj d) j))"

definition production_config :: "settings \<Rightarrow> eval_config" where
  "production_config S = \<lparr>ec_provider = Some (provider_for_role S FrontDesk), ec_model = front_desk_model S\<rparr>"

lemma proposal_dump_wf:
  "wf_json (JObj (proposal_dump p)) \<and> map_of (proposal_dump p) ''intent'' = Some (JStr (intent_value (cp_intent p)))"
  by (simp add: proposal_dump_def opt_json_def split: option.split)

lemma propose_ask:
  "cp_intent (propose_action S P (ev_llm w) t feedback) =
    (case ask S w (production_config S) (FRONT_DESK_SYSTEM_PROMPT, desk_prompt t feedback) of
       Inl e \<Rightarrow> Clarify
     | Inr (content, _) \<Rightarrow> cp_intent (read_proposal S P content))"
  by (simp add: propose_action_def ask_def production_config_def read_proposal_def clarify_fallback_def bindR_def
      split: sum.split option.split)

lemma desk_graded:
  assumes "desk_case_prompt vars = Inr (desk_prompt t feedback)" "reads_back dump"
  shows "graded_as ''intent'' ''clarify'' (intent_value (cp_intent (propose_action S P (ev_llm w) t feedback)))
    (asked S w (production_config S) (FRONT_DESK_SYSTEM_PROMPT, desk_prompt t feedback))
    (eval_front_desk dump S P w (production_config S) vars)"
proof (cases "ask S w (production_config S) (FRONT_DESK_SYSTEM_PROMPT, desk_prompt t feedback)")
  case (Inl e)
  then show ?thesis by (simp add: graded_as_def asked_def eval_front_desk_def assms(1) propose_ask)
next
  case (Inr a)
  obtain content usage where a: "a = (content, usage)" by (cases a)
  let ?p = "read_proposal S P content"
  obtain j where "json_loads (dump (proposal_dump ?p)) = Some j" "same_json (JObj (proposal_dump ?p)) j"
    using assms(2) proposal_dump_wf unfolding reads_back_def by blast
  from reply_field_output [OF this proposal_dump_wf [THEN conjunct2]] Inr a show ?thesis
    by (simp add: graded_as_def asked_def eval_front_desk_def assms(1) propose_ask)
qed


definition demo_policy :: string where
  "demo_policy = ''## Limits'' @ blank_line @ ''No refund twice.'' @ blank_line @ ''## Fraud''"

definition demo_vars :: dict where
  "demo_vars = [(''request_id'', JStr ''r1''), (''claim_text'', JStr ''Broken''), (''amount'', JInt 5),
     (''policy_section'', JStr ''Limits'')]"

definition mock_world :: eval_world where
  "mock_world = \<lparr>ev_llm = \<lparr>lw_packages = \<lparr>pk_genai = False, pk_openai = False, pk_aws = False, pk_groq = False\<rparr>,
     lw_reply = (\<lambda>_. raise_exn ''TimeoutError'')\<rparr>, ev_usage = (\<lambda>_ _. None), ev_latency = 3\<rparr>"

definition mock_config :: eval_config where
  "mock_config = \<lparr>ec_provider = Some ''mock'', ec_model = None\<rparr>"

lemma demo_inputs:
  "judge_inputs demo_policy demo_vars =
     Inr ([(''request_id'', JStr ''r1''), (''claim_text'', JStr ''Broken''), (''amount'', JInt 5)],
          [(''request_id'', JStr ''r1''), (''retrieved_policy'', JStr demo_policy)])"
  by code_simp


text \<open>
  A content block whose text is no string: production rejects, the provider lets the exception of the
  join pass, since it lists two others.
\<close>

definition odd_world :: eval_world where
  "odd_world = mock_world\<lparr>ev_llm := \<lparr>lw_packages = \<lparr>pk_genai = False, pk_openai = True, pk_aws = False, pk_groq = False\<rparr>,
     lw_reply = (\<lambda>_. Inr (JList [JObj [(''text'', JInt 1)]]))\<rparr>\<rparr>"

lemma type_error_not_graded:
  "eval_judge default_settings demo_policy odd_world \<lparr>ec_provider = Some ''openai'', ec_model = None\<rparr> [] =
     raise_exn ''TypeError''"
  "dget (run_single_judge default_settings (ev_llm odd_world) ''openai''
     (build_judge_messages ''execute_refund'' [] [(''request_id'', JNull)]) None) ''verdict'' = JStr ''REJECT''"
  by code_simp+

end
