(* ===== verification/Agent_Hooks.thy ===== *)
theory Agent_Hooks
  imports Json_Loads Regex "HOL-Library.Sublist"
begin

text \<open>
  The hooks of the coding assistant (\<open>.agents/hooks/\<close>): a guard that decides about commands and file
  writes, a linter run after a write, and a reminder put before a model call. Each reads a JSON
  payload and prints a JSON answer; a payload of another shape raises as Python does. What the
  linters print is an argument. The lemmas show which commands the guard never lets pass, and
  examples of what it does let pass.
\<close>

section \<open>Patterns\<close>

text \<open>A literal, one that ignores the case, white space, and any text within a line.\<close>

definition lit :: "string \<Rightarrow> rx" where
  "lit s = seq (map (\<lambda>c. Cls (\<lambda>x. x = c)) s)"

definition ci :: "string \<Rightarrow> rx" where
  "ci s = seq (map (\<lambda>c. Cls (\<lambda>x. lower_char x = lower_char c)) s)"

definition spaces :: rx where
  "spaces = some (Cls is_white)"

definition in_line :: rx where
  "in_line = many (Cls (\<lambda>c. c \<noteq> CHR 0x0A))"

fun one_of :: "rx list \<Rightarrow> rx" where
  "one_of [] = Eps"
| "one_of [r] = r"
| "one_of (r # rs) = Alt r (one_of rs)"

definition starts_word :: "string \<Rightarrow> bool" where
  "starts_word s = (s \<noteq> [] \<and> is_word (hd s))"

definition anywhere :: "rx \<Rightarrow> pattern" where
  "anywhere r = \<lparr>pt_behind = (\<lambda>_. False), pt_parts = [r], pt_ahead = (\<lambda>_. False)\<rparr>"

text \<open>\<open>\b...\b\<close> around an expression whose words begin and end with word characters.\<close>

definition whole_word :: "rx \<Rightarrow> pattern" where
  "whole_word r = \<lparr>pt_behind = is_word, pt_parts = [r], pt_ahead = starts_word\<rparr>"

text \<open>\<open>.*\bWHERE\b\<close> after a keyword: on the same line.\<close>

definition where_follows :: "string \<Rightarrow> bool" where
  "where_follows s = search (whole_word (ci ''WHERE'')) (Some (CHR ''E'')) (takeWhile (\<lambda>c. c \<noteq> CHR 0x0A) s)"

section \<open>safety_guard\<close>

definition DESTRUCTIVE_PATTERNS :: "(pattern \<times> string) list" where
  "DESTRUCTIVE_PATTERNS =
     [(\<lparr>pt_behind = is_word, pt_parts = [Alt (ci ''DELETE'') (ci ''UPDATE'')],
        pt_ahead = (\<lambda>s. starts_word s \<or> where_follows s)\<rparr>, ''Destructive SQL without WHERE clause''),
      (whole_word (seq [ci ''DROP'', spaces,
         one_of [ci ''TABLE'', ci ''COLUMN'', ci ''DATABASE'', ci ''SCHEMA'', ci ''INDEX'']]), ''Schema-dropping SQL''),
      (anywhere (seq [lit ''alembic'', spaces, lit ''downgrade'']), ''Alembic downgrade (potential data loss)''),
      (anywhere (seq [lit ''rm'', spaces, one_of [Cat (lit ''-r'') (Rep 0 (Some 1) (chr (CHR ''f''))), lit ''--recursive''],
         spaces, lit ''/'']), ''Recursive file deletion from root''),
      (anywhere (seq [lit ''git'', spaces, lit ''push'', in_line, lit ''--force'']), ''Force push to remote''),
      (anywhere (seq [one_of [lit ''echo'', lit ''printf'', lit ''Set-Content'', lit ''Out-File''], in_line, lit ''.'',
         one_of [lit ''env'', lit ''secrets'']]), ''Writing to secrets file''),
      (anywhere (seq [ci ''DROP'', spaces, ci ''EXTENSION'', spaces, ci ''pgvector'']), ''Dropping pgvector extension'')]"

definition PROTECTED_FILE_PATTERNS :: "(pattern \<times> string) list" where
  "PROTECTED_FILE_PATTERNS =
     [(anywhere (seq [lit ''alembic/versions/'', in_line, lit ''.py'']), ''Alembic migration file''),
      (anywhere (lit ''worker.py''), ''Worker ACK/NACK logic''),
      (anywhere (lit ''mcp_server.py''), ''MCP tool contract''),
      (\<lparr>pt_behind = (\<lambda>_. False), pt_parts = [Cat (lit ''.env'') (Rep 0 (Some 1) (seq [lit ''.'', some (Cls is_word)]))],
        pt_ahead = (\<lambda>s. s \<noteq> [] \<and> s \<noteq> [CHR 0x0A])\<rparr>, ''Environment/secrets file''),
      (anywhere (seq [lit ''docker-compose'', in_line, lit ''.yml'']), ''Container orchestration file'')]"

fun first_label :: "(pattern \<times> string) list \<Rightarrow> string \<Rightarrow> string option" where
  "first_label [] s = None"
| "first_label ((p, label) # ps) s = (if search p None s then Some label else first_label ps s)"

definition check_command :: "string \<Rightarrow> string \<times> string" where
  "check_command command_line =
     (case first_label DESTRUCTIVE_PATTERNS command_line of
        Some label \<Rightarrow> (''force_ask'', ''Potentially destructive operation detected: '' @ label @
                        ''. Review carefully before allowing.'')
      | None \<Rightarrow> (''allow'', ''''))"

definition check_file_write :: "string \<Rightarrow> string \<times> string" where
  "check_file_write target_file =
     (case first_label PROTECTED_FILE_PATTERNS target_file of
        Some label \<Rightarrow> (''ask'', ''Protected file targeted: '' @ label @ ''. Confirm this change is intentional.'')
      | None \<Rightarrow> (''allow'', ''''))"

text \<open>\<open>re.search\<close> raises for anything but a string.\<close>

definition as_text :: "json \<Rightarrow> string res" where
  "as_text j = (case j of JStr s \<Rightarrow> Inr s | _ \<Rightarrow> raise_exn ''TypeError'')"

definition WRITE_TOOLS :: "json list" where
  "WRITE_TOOLS = [JStr ''write_to_file'', JStr ''replace_file_content'', JStr ''multi_replace_file_content'']"

text \<open>The tool and the arguments of a payload.\<close>

definition tool_call :: "json \<Rightarrow> (json \<times> json) res" where
  "tool_call payload =
     bindR (as_dict payload) (\<lambda>d.
     bindR (as_dict (dget_or d ''toolCall'' (JObj []))) (\<lambda>call.
       Inr (dget_or call ''name'' (JStr ''''), dget_or call ''args'' (JObj []))))"

definition guard_decision :: "json \<Rightarrow> json \<Rightarrow> (string \<times> string) res" where
  "guard_decision tool_name args =
     (if tool_name = JStr ''run_command''
      then bindR (as_dict args) (\<lambda>a. bindR (as_text (dget_or a ''CommandLine'' (JStr ''''))) (\<lambda>c. Inr (check_command c)))
      else if tool_name \<in> set WRITE_TOOLS
      then bindR (as_dict args) (\<lambda>a. bindR (as_text (dget_or a ''TargetFile'' (JStr ''''))) (\<lambda>f. Inr (check_file_write f)))
      else Inr (''allow'', ''''))"

definition safety_guard :: "string \<Rightarrow> string res" where
  "safety_guard raw =
     (case json_loads raw of
        None \<Rightarrow> Inr (json_dumps (JObj [(''decision'', JStr ''allow'')]))
      | Some payload \<Rightarrow>
          bindR (tool_call payload) (\<lambda>(tool_name, args).
          bindR (guard_decision tool_name args) (\<lambda>(decision, reason).
            Inr (json_dumps (JObj ((''decision'', JStr decision) # (if reason = [] then [] else [(''reason'', JStr reason)])))))))"

section \<open>lint_check\<close>

text \<open>
  \<open>run\<close>: a finished process with its code and its two outputs, or none when its executable is not found.
\<close>

type_synonym processes = "string list \<Rightarrow> json \<Rightarrow> (int \<times> string \<times> string) option"

definition run_linter :: "processes \<Rightarrow> string list \<Rightarrow> json \<Rightarrow> int \<times> string" where
  "run_linter ps cmd cwd =
     (case ps cmd cwd of None \<Rightarrow> (- 1, ''Command not found: '' @ hd cmd)
      | Some (code, out, err) \<Rightarrow> (code, strip (out @ err)))"

text \<open>\<open>workspaces[0] if workspaces else "."\<close>\<close>

definition workspace :: "json \<Rightarrow> json res" where
  "workspace workspaces =
     (if \<not> truthy workspaces then Inr (JStr ''.'')
      else case workspaces of
             JList (x # xs) \<Rightarrow> Inr x
           | JStr (c # s) \<Rightarrow> Inr (JStr [c])
           | JObj d \<Rightarrow> raise_exn ''KeyError''
           | _ \<Rightarrow> raise_exn ''TypeError'')"

text \<open>The printed answer and the report file; that a report cannot be written is swallowed.\<close>

definition lint_report :: "string \<Rightarrow> string \<Rightarrow> string \<Rightarrow> string" where
  "lint_report target_file ruff_out mypy_out =
     join [CHR 0x0A] [''Lint report for '' @ target_file,
       (if ruff_out = [] then ''ruff: clean'' else ''ruff: '' @ ruff_out),
       (if mypy_out = [] then ''mypy: clean'' else ''mypy: '' @ mypy_out)]"

definition lint_check :: "processes \<Rightarrow> string \<Rightarrow> (string \<times> (string \<times> string) option) res" where
  "lint_check ps raw =
     (case json_loads raw of
        None \<Rightarrow> Inr (''{}'', None)
      | Some payload \<Rightarrow>
          bindR (tool_call payload) (\<lambda>(tool_name, args).
          bindR (as_dict args) (\<lambda>a.
          bindR (case tool_name of JList _ \<Rightarrow> raise_exn ''TypeError'' | JObj _ \<Rightarrow> raise_exn ''TypeError''
                 | _ \<Rightarrow> Inr (tool_name \<in> set WRITE_TOOLS)) (\<lambda>writes.
            if \<not> writes then Inr (''{}'', None)
            else case dget_or a ''TargetFile'' (JStr '''') of
                   JStr target_file \<Rightarrow>
                     if \<not> suffix ''.py'' target_file then Inr (''{}'', None)
                     else bindR (as_dict payload) (\<lambda>d.
                          bindR (workspace (dget_or d ''workspacePaths'' (JList []))) (\<lambda>cwd.
                            let ruff = run_linter ps [''ruff'', ''check'', ''--output-format=concise'', target_file] cwd;
                                mypy = run_linter ps [''mypy'', ''--ignore-missing-imports'', target_file] cwd
                            in Inr (''{}'', Some (target_file @ ''.lint_report.txt'', lint_report target_file (snd ruff) (snd mypy)))))
                 | _ \<Rightarrow> raise_exn ''AttributeError''))))"

section \<open>context_injector\<close>

definition REMINDER :: string where
  "REMINDER = join [CHR 0x0A]
     [''[Architecture Reminder - agentic-mcp-engine]'', '''',
      ''Before proposing or writing any code, verify the following invariants:'', '''',
      ''1. Layer isolation: routers/ -> services/ -> repositories/. Never skip layers.'',
      ''2. agents/ must not import from repositories/ or models.py directly.'',
      ''3. Every I/O function must be async.'',
      ''4. Secrets and config must use pydantic-settings and environment variables.'',
      ''5. The LLM must only interact with external state through MCP tool calls.'',
      ''6. Idempotency check (request_id lookup) must happen before any LLM call in worker.py.'',
      ''7. Destructive SQL must always include a WHERE clause. Confirm with the user before dropping schema objects.'',
      ''8. Use structlog for all logging. Never use print().'',
      ''9. Every new module must have a corresponding test file under tests/.'',
      ''10. When the LLM-as-a-Judge returns REJECT, set status to PENDING_HUMAN_REVIEW and log the reason.'']"

text \<open>
  \<open>n == 0 or n % 5 == 0\<close>; a string before \<open>%\<close> is a format, which gives a text or raises
  (\<open>formats\<close>).
\<close>

definition every_fifth :: "(string \<Rightarrow> bool) \<Rightarrow> json \<Rightarrow> bool res" where
  "every_fifth formats j =
     (case j of
        JInt n \<Rightarrow> Inr (n mod 5 = 0)
      | JBool b \<Rightarrow> Inr (\<not> b)
      | JFloat (Fin d) \<Rightarrow> Inr (dec_val d = 5 * of_int \<lfloor>dec_val d / 5\<rfloor>)
      | JFloat _ \<Rightarrow> Inr False
      | JStr s \<Rightarrow> if formats s then Inr False else raise_exn ''TypeError''
      | _ \<Rightarrow> raise_exn ''TypeError'')"

definition context_injector :: "(string \<Rightarrow> bool) \<Rightarrow> string \<Rightarrow> string res" where
  "context_injector formats raw =
     (case json_loads raw of
        None \<Rightarrow> Inr (json_dumps (JObj [(''injectSteps'', JList [])]))
      | Some payload \<Rightarrow>
          bindR (as_dict payload) (\<lambda>d.
          bindR (every_fifth formats (dget_or d ''invocationNum'' (JInt 0))) (\<lambda>due.
            Inr (json_dumps (JObj [(''injectSteps'',
              JList (if due then [JObj [(''ephemeralMessage'', JStr REMINDER)]] else []))])))))"

section \<open>What the guard finds\<close>

lemma words_seq: "words (seq rs) u \<longleftrightarrow> (\<exists>us. u = concat us \<and> list_all2 words rs us)"
proof (induction rs arbitrary: u)
  case (Cons r rs)
  have "words (seq (r # rs)) u \<longleftrightarrow> (\<exists>v w. u = v @ w \<and> words r v \<and> words (seq rs) w)" by simp
  also have "\<dots> \<longleftrightarrow> (\<exists>v us. u = v @ concat us \<and> words r v \<and> list_all2 words rs us)" unfolding Cons.IH by blast
  also have "\<dots> \<longleftrightarrow> (\<exists>us. u = concat us \<and> list_all2 words (r # rs) us)"
    unfolding list_all2_Cons1 by (metis concat.simps(2))
  finally show ?case .
qed simp

lemma words_lit: "words (lit s) u \<longleftrightarrow> u = s"
  unfolding lit_def by (induction s arbitrary: u) (auto simp: words_sequences simp del: words.simps(2-5))

lemma words_ci: "words (ci s) u \<longleftrightarrow> lower u = lower s"
  unfolding ci_def
proof (induction s arbitrary: u)
  case (Cons c s)
  have "words (seq (map (\<lambda>c. Cls (\<lambda>x. lower_char x = lower_char c)) (c # s))) u \<longleftrightarrow>
      (\<exists>d w. u = d # w \<and> lower_char d = lower_char c \<and> lower w = lower s)"
    using Cons by (simp add: words_sequences del: words.simps(2-5))
  then show ?case by (cases u) (simp_all add: lower_def)
qed (simp add: lower_def)

lemma words_spaces: "words spaces u \<longleftrightarrow> u \<noteq> [] \<and> list_all is_white u"
proof
  assume "words spaces u"
  then obtain us where us: "u = concat us" "list_all (words (Cls is_white)) us" "1 \<le> length us" by (auto simp: spaces_def)
  then obtain v vs where "us = v # vs" by (cases us) auto
  with us show "u \<noteq> [] \<and> list_all is_white u" by (force simp: list_all_iff)
next
  assume u: "u \<noteq> [] \<and> list_all is_white u"
  then have "list_all (words (Cls is_white)) (map (\<lambda>c. [c]) u)" "1 \<le> length (map (\<lambda>c. [c]) u)" "u = concat (map (\<lambda>c. [c]) u)"
    by (auto simp: list_all_iff Suc_le_eq)
  then show "words spaces u" unfolding spaces_def words.simps(5) by (intro exI [of _ "map (\<lambda>c. [c]) u"]) simp
qed

lemma words_in_line: "words in_line u \<longleftrightarrow> CHR 0x0A \<notin> set u"
  unfolding in_line_def words_many by (auto simp: list_all_iff)

lemma hook_solid [simp]: "solid (lit s)" "solid (ci s)" "solid spaces" "solid in_line"
  by (induction s) (auto simp: lit_def ci_def spaces_def in_line_def)

lemmas hook_words = words_lit words_ci words_spaces words_in_line

lemma words_seq_intro: "list_all2 words rs us \<Longrightarrow> words (seq rs) (concat us)"
  unfolding words_seq by blast

lemma found_one:
  assumes "pt_parts p = [r]" "solid r" "words r u" "u \<noteq> []" "\<not> blocked p (if pre = [] then None else Some (last pre))"
    "\<not> pt_ahead p post"
  shows "search p None (pre @ u @ post)"
proof (rule search_found)
  show "match_at p (if pre = [] then None else Some (last pre)) (u @ post) \<noteq> None"
    using match_at_found [of p "[u]"] assms by simp
qed (use assms in simp)

lemma first_label_None: "first_label ps c = None \<longleftrightarrow> list_all (\<lambda>(p, _). \<not> search p None c) ps"
  by (induction ps) (auto split: prod.split)

lemma check_command_allow: "fst (check_command c) = ''allow'' \<longleftrightarrow> list_all (\<lambda>(p, _). \<not> search p None c) DESTRUCTIVE_PATTERNS"
  by (simp add: check_command_def first_label_None [symmetric] split: option.split)

lemma check_command_asks: "(p, label) \<in> set DESTRUCTIVE_PATTERNS \<Longrightarrow> search p None c \<Longrightarrow> fst (check_command c) = ''force_ask''"
  using first_label_None [of DESTRUCTIVE_PATTERNS c]
  by (auto simp: check_command_def list_all_iff split: option.split)

lemma hook_anywhere: "pt_parts (anywhere r) = [r]" "\<not> blocked (anywhere r) q" "\<not> pt_ahead (anywhere r) w"
  by (simp_all add: anywhere_def blocked_def split: option.split)

lemma hook_word: "pt_parts (whole_word r) = [r]" "pt_ahead (whole_word r) = starts_word"
  "blocked (whole_word r) (if pre = [] then None else Some (last pre)) \<longleftrightarrow> pre \<noteq> [] \<and> is_word (last pre)"
  by (simp_all add: whole_word_def blocked_def)

lemma drop_found:
  assumes "lower d = ''drop''" "w \<noteq> []" "list_all is_white w"
    "lower k \<in> {''table'', ''column'', ''database'', ''schema'', ''index''}"
    "pre = [] \<or> \<not> is_word (last pre)" "\<not> starts_word post"
  shows "fst (check_command (pre @ (d @ w @ k) @ post)) = ''force_ask''"
proof (rule check_command_asks)
  let ?r = "seq [ci ''DROP'', spaces,
      one_of [ci ''TABLE'', ci ''COLUMN'', ci ''DATABASE'', ci ''SCHEMA'', ci ''INDEX'']]"
  show "(whole_word ?r, ''Schema-dropping SQL'') \<in> set DESTRUCTIVE_PATTERNS" by (simp add: DESTRUCTIVE_PATTERNS_def)
  have l: "lower ''DROP'' = ''drop''" "lower ''TABLE'' = ''table''" "lower ''COLUMN'' = ''column''"
    "lower ''DATABASE'' = ''database''" "lower ''SCHEMA'' = ''schema''" "lower ''INDEX'' = ''index''" by code_simp+
  have "words ?r (concat [d, w, k])"
    by (rule words_seq_intro) (use assms l in \<open>auto simp: hook_words simp del: words.simps(1-3,5)\<close>)
  then show "search (whole_word ?r) None (pre @ (d @ w @ k) @ post)"
    using assms by (intro found_one [of _ ?r]) (auto simp: hook_word)
qed

lemma change_found:
  assumes "lower k \<in> {''delete'', ''update''}" "pre = [] \<or> \<not> is_word (last pre)" "\<not> starts_word post" "\<not> where_follows post"
  shows "fst (check_command (pre @ k @ post)) = ''force_ask''"
proof (rule check_command_asks)
  let ?p = "\<lparr>pt_behind = is_word, pt_parts = [Alt (ci ''DELETE'') (ci ''UPDATE'')],
    pt_ahead = (\<lambda>s. starts_word s \<or> where_follows s)\<rparr>"
  show "(?p, ''Destructive SQL without WHERE clause'') \<in> set DESTRUCTIVE_PATTERNS" by (simp add: DESTRUCTIVE_PATTERNS_def)
  have l: "lower ''DELETE'' = ''delete''" "lower ''UPDATE'' = ''update''" by code_simp+
  then have "words (Alt (ci ''DELETE'') (ci ''UPDATE'')) k" using assms(1) by (auto simp: hook_words)
  moreover have "k \<noteq> []" using assms(1) by (auto simp: lower_def)
  ultimately show "search ?p None (pre @ k @ post)"
    using assms(2-4) by (intro found_one [of _ "Alt (ci ''DELETE'') (ci ''UPDATE'')"]) (auto simp: blocked_def)
qed

lemma push_found:
  assumes "w \<noteq> []" "list_all is_white w" "CHR 0x0A \<notin> set rest"
  shows "fst (check_command (pre @ (''git'' @ w @ ''push'' @ rest @ ''--force'') @ post)) = ''force_ask''"
proof (rule check_command_asks)
  let ?r = "seq [lit ''git'', spaces, lit ''push'', in_line, lit ''--force'']"
  show "(anywhere ?r, ''Force push to remote'') \<in> set DESTRUCTIVE_PATTERNS" by (simp add: DESTRUCTIVE_PATTERNS_def)
  have "words ?r (concat [''git'', w, ''push'', rest, ''--force''])"
    by (rule words_seq_intro) (use assms in \<open>auto simp: hook_words simp del: words.simps(1-3,5)\<close>)
  then show "search (anywhere ?r) None (pre @ (''git'' @ w @ ''push'' @ rest @ ''--force'') @ post)"
    by (intro found_one [of _ ?r]) (auto simp: hook_anywhere simp del: words.simps)
qed

section \<open>Properties\<close>



text \<open>
  What it lets pass: other spellings of the same options, and the extension under the name
  that the migrations use.
\<close>

lemma guard_gap_rm: "fst (check_command ''rm -fr /'') = ''allow''"
  unfolding check_command_allow by code_simp

lemma guard_gap_push: "fst (check_command ''git push -f'') = ''allow''"
  unfolding check_command_allow by code_simp

lemma guard_gap_extension: "fst (check_command ''DROP EXTENSION vector'') = ''allow''"
  unfolding check_command_allow by code_simp

end
