(* ===== verification/Report_Tables.thy ===== *)
theory Report_Tables
  imports Dashboard
begin

text \<open>
  The tables that the two report scripts of \<open>evals/promptfoo/\<close> print (\<open>to_markdown\<close> and \<open>main\<close> of
  \<open>summarize.py\<close> and \<open>summarize_front_desk.py\<close>). The lemmas read a printed table back: one row per model,
  nine cells each, as long as no label holds the separator.
\<close>

section \<open>Printing numbers\<close>

text \<open>The formats \<open>.0f\<close> and \<open>.0%\<close>; the latter multiplies the float by 100 first.\<close>

definition fixed0 :: "rat \<Rightarrow> string" where
  "fixed0 q = (if q < 0 then ''-'' else '''') @ show_nat (nat (py_round \<bar>double_of q\<bar>))"

definition percent :: "rat \<Rightarrow> string" where
  "percent q = fixed0 (double_of q * 100) @ ''%''"

definition cost_cell :: "rat option \<Rightarrow> string" where
  "cost_cell c = (case c of Some x \<Rightarrow> ''$'' @ fixed 6 x | None \<Rightarrow> ''n/a'')"

definition ratio :: "nat \<Rightarrow> nat \<Rightarrow> string" where
  "ratio a b = show_nat a @ ''/'' @ show_nat b"

definition seconds_cell :: "rat \<Rightarrow> string" where
  "seconds_cell ms = fixed 1 (ms / 1000) @ '' s''"

section \<open>to_markdown\<close>

definition table_row :: "string list \<Rightarrow> string" where
  "table_row cells = ''| '' @ join '' | '' cells @ '' |''"

definition table_rule :: string where
  "table_rule = ''|---|---|---|---|---|---|---|---|---|''"

text \<open>The cells after the three that count errors, the same in both scripts.\<close>

definition run_cells :: "'a run_summary_scheme \<Rightarrow> string list" where
  "run_cells s =
     [percent (sm_stability s) @ '' of '' @ show_nat (sm_cases s), seconds_cell (sm_median_latency_ms s),
      seconds_cell (sm_p95_latency_ms s), fixed0 (sm_mean_input_tokens s) @ '' / '' @ fixed0 (sm_mean_output_tokens s),
      cost_cell (sm_cost_per_judgment s)]"

definition model_header :: "string list" where
  "model_header = [''Model'', ''Accuracy'', ''False approvals'', ''False rejections'', ''Stable cases'',
     ''Median latency'', ''P95 latency'', ''Tokens in / out'', ''Cost per judgment'']"

definition model_cells :: "model_summary \<Rightarrow> string list" where
  "model_cells s =
     [py_str (sm_provider s), percent (accuracy s), ratio (false_approvals s) (reject_runs s),
      ratio (false_rejections s) (sm_runs s - reject_runs s)] @ run_cells s"

definition to_markdown :: "model_summary list \<Rightarrow> string" where
  "to_markdown summaries =
     join [CHR 0x0A] (table_row model_header # table_rule # map (\<lambda>s. table_row (model_cells s)) summaries)"

definition desk_header :: "string list" where
  "desk_header = [''Model'', ''Accuracy'', ''False refunds'', ''Missed refunds'', ''Stable cases'',
     ''Median latency'', ''P95 latency'', ''Tokens in / out'', ''Cost per judgment'']"

definition desk_cells :: "desk_summary \<Rightarrow> string list" where
  "desk_cells s =
     [py_str (sm_provider s), percent (accuracy s), ratio (false_refunds s) (non_refund_runs s),
      ratio (missed_refunds s) (refund_runs s)] @ run_cells s"

definition desk_markdown :: "desk_summary list \<Rightarrow> string" where
  "desk_markdown summaries =
     join [CHR 0x0A] (table_row desk_header # table_rule # map (\<lambda>s. table_row (desk_cells s)) summaries)"

text \<open>What the scripts write to the standard output; the prices are read from their own file when one is given.\<close>

definition prices_of :: "json option \<Rightarrow> (string \<times> price) list res" where
  "prices_of prices = (case prices of None \<Rightarrow> Inr [] | Some data \<Rightarrow> load_prices data)"

definition print_report :: "json \<Rightarrow> json option \<Rightarrow> string list \<Rightarrow> string res" where
  "print_report data prices relabel =
     bindR (result_rows data) (\<lambda>rows.
     bindR (prices_of prices) (\<lambda>ps.
     bindR (parse_relabel relabel) (\<lambda>labels.
     bindR (summarize rows ps labels) (\<lambda>ss. Inr (to_markdown ss @ [CHR 0x0A])))))"

definition print_desk_report :: "json \<Rightarrow> json option \<Rightarrow> string list \<Rightarrow> string res" where
  "print_desk_report data prices relabel =
     bindR (result_rows data) (\<lambda>rows.
     bindR (prices_of prices) (\<lambda>ps.
     bindR (parse_desk_relabel relabel) (\<lambda>labels.
     bindR (summarize_desk rows ps labels) (\<lambda>ss. Inr (desk_markdown ss @ [CHR 0x0A])))))"

section \<open>Reading a table\<close>

definition read_row :: "string \<Rightarrow> string list" where
  "read_row line = map (\<lambda>c. butlast (tl c)) (butlast (tl (split_on (CHR ''|'') line)))"

definition read_table :: "string \<Rightarrow> string list list" where
  "read_table t = map read_row (drop 2 (split_on (CHR 0x0A) t))"

text \<open>Text that fits into a cell.\<close>

abbreviation cell_text :: "string \<Rightarrow> bool" where
  "cell_text \<equiv> list_all (\<lambda>c. c \<noteq> CHR ''|'' \<and> c \<noteq> CHR 0x0A)"

lemma digits_cell: "list_all is_digit s \<Longrightarrow> cell_text s"
  by (auto simp: list_all_iff is_digit_def digit_value_def)

lemma show_nat_cell [simp]: "cell_text (show_nat n)"
  by (rule digits_cell) simp

lemma fixed_cell [simp]: "cell_text (fixed n q)" "cell_text (fixed0 q)" "cell_text (percent q)"
  "cell_text (seconds_cell q)" "cell_text (ratio a b)" "cell_text (cost_cell c)"
  by (simp_all add: fixed_def fixed0_def percent_def seconds_cell_def ratio_def cost_cell_def Let_def list_all_append
      split: option.split) (simp_all add: list_all_iff)

lemma run_cells_text: "list_all cell_text (run_cells s)"
  by (simp add: run_cells_def)

lemma join_ends: "xs \<noteq> [] \<Longrightarrow> join sep ([] # xs @ [[]]) = sep @ join sep xs @ sep"
proof -
  have "xs \<noteq> [] \<Longrightarrow> join sep (xs @ [[]]) = join sep xs @ sep"
    by (induction xs rule: join.induct [of _ "undefined :: string"]) auto
  then show "xs \<noteq> [] \<Longrightarrow> join sep ([] # xs @ [[]]) = sep @ join sep xs @ sep" by (cases xs) auto
qed

lemma table_row_join:
  assumes "cells \<noteq> []"
  shows "table_row cells = join ''|'' ([] # map (\<lambda>c. '' '' @ c @ '' '') cells @ [[]])"
proof -
  have "cells \<noteq> [] \<Longrightarrow> join ''|'' (map (\<lambda>c. '' '' @ c @ '' '') cells) = '' '' @ join '' | '' cells @ '' ''"
    by (induction cells rule: induct_list012) auto
  with assms show ?thesis by (simp add: table_row_def join_ends del: append.simps)
qed

lemma read_table_row:
  assumes "cells \<noteq> []" "list_all cell_text cells"
  shows "read_row (table_row cells) = cells" "CHR 0x0A \<notin> set (table_row cells)"
proof -
  have "split_on (CHR ''|'') (table_row cells) = [] # map (\<lambda>c. '' '' @ c @ '' '') cells @ [[]]"
    unfolding table_row_join [OF assms(1)] by (rule split_on_join) (use assms in \<open>auto simp: list_all_iff\<close>)
  then show "read_row (table_row cells) = cells"
    by (simp add: read_row_def o_def butlast_append)
  have "CHR 0x0A \<notin> set (join '' | '' cells)"
    using assms(2) by (induction cells rule: induct_list012) (auto simp: list_all_iff)
  then show "CHR 0x0A \<notin> set (table_row cells)" by (simp add: table_row_def)
qed

lemma read_back:
  assumes "list_all cell_text header" "header \<noteq> []" "\<And>s. s \<in> set ss \<Longrightarrow> cells s \<noteq> [] \<and> list_all cell_text (cells s)"
  shows "read_table (join [CHR 0x0A] (table_row header # table_rule # map (\<lambda>s. table_row (cells s)) ss)) = map cells ss"
proof -
  have "split_on (CHR 0x0A) (join [CHR 0x0A] (table_row header # table_rule # map (\<lambda>s. table_row (cells s)) ss)) =
      table_row header # table_rule # map (\<lambda>s. table_row (cells s)) ss"
    by (rule split_on_join) (use assms read_table_row(2) in \<open>auto simp: list_all_iff table_rule_def\<close>)
  then show ?thesis using assms(3) read_table_row(1) by (auto simp: read_table_def)
qed

lemma summary_cells:
  "cell_text (py_str (sm_provider s)) \<Longrightarrow> model_cells s \<noteq> [] \<and> list_all cell_text (model_cells s)"
  "cell_text (py_str (sm_provider d)) \<Longrightarrow> desk_cells d \<noteq> [] \<and> list_all cell_text (desk_cells d)"
  using run_cells_text [of s] run_cells_text [of d] by (simp_all add: model_cells_def desk_cells_def)

section \<open>Properties\<close>

text \<open>
  The printed tables say what was measured: as long as no label holds a bar or a line break,
  reading a printed table gives back, in order, the nine cells of each model's summary, in both
  scripts, and what a script prints is the table of its report.
\<close>

theorem tables_read_back:
  assumes "list_all (\<lambda>s. cell_text (py_str (sm_provider s))) ss" "list_all (\<lambda>s. cell_text (py_str (sm_provider s))) ds"
  shows "read_table (to_markdown ss) = map model_cells ss \<and> read_table (desk_markdown ds) = map desk_cells ds \<and>
    print_report data None relabel = bindR (report data [] relabel) (\<lambda>r. Inr (to_markdown r @ [CHR 0x0A])) \<and>
    print_desk_report data None relabel = bindR (desk_report data [] relabel) (\<lambda>r. Inr (desk_markdown r @ [CHR 0x0A]))"
proof (intro conjI)
  have h: "list_all cell_text model_header" "list_all cell_text desk_header" by code_simp+
  show "read_table (to_markdown ss) = map model_cells ss"
    unfolding to_markdown_def
  proof (rule read_back [OF h(1) _ summary_cells(1)])
    show "cell_text (py_str (sm_provider s))" if "s \<in> set ss" for s
      using assms(1) that unfolding list_all_iff [of _ ss] by blast
  qed (simp add: model_header_def)
  show "read_table (desk_markdown ds) = map desk_cells ds"
    unfolding desk_markdown_def
  proof (rule read_back [OF h(2) _ summary_cells(2)])
    show "cell_text (py_str (sm_provider s))" if "s \<in> set ds" for s
      using assms(2) that unfolding list_all_iff [of _ ds] by blast
  qed (simp add: desk_header_def)
qed (simp_all add: print_report_def print_desk_report_def prices_of_def report_def desk_report_def bindR_assoc)

text \<open>One model and its table.\<close>

definition demo_summary :: "string \<Rightarrow> model_summary" where
  "demo_summary label = \<lparr>sm_provider = JStr label, sm_cases = 2, sm_runs = 4, sm_errors = 0, sm_correct = 3,
     sm_stability = 1 / 2, sm_median_latency_ms = 1250, sm_p95_latency_ms = 2000, sm_mean_input_tokens = 801 / 2,
     sm_mean_output_tokens = 20, sm_cost_per_judgment = None, false_approvals = 1, false_rejections = 0,
     reject_runs = 2\<rparr>"

lemma demo_numbers:
  "percent (3 / 4) = ''75%''" "percent (1 / 2) = ''50%''" "fixed 1 (5 / 4) = ''1.2''" "fixed 1 2 = ''2.0''"
  "fixed0 (801 / 2) = ''400''" "fixed0 20 = ''20''"
  by code_simp+

lemma demo_cells:
  "model_cells (demo_summary ''m'') = [''m'', ''75%'', ''1/2'', ''0/2'', ''50% of 2'', ''1.2 s'', ''2.0 s'', ''400 / 20'', ''n/a'']"
proof -
  have n: "show_nat 0 = ''0''" "show_nat 1 = ''1''" "show_nat 2 = ''2''" by code_simp+
  show ?thesis
    unfolding model_cells_def run_cells_def seconds_cell_def ratio_def cost_cell_def accuracy_def share_of_def demo_summary_def
    using demo_numbers n by simp
qed

theorem tables_read_back_witness:
  "read_table (to_markdown [demo_summary ''m'']) =
     [[''m'', ''75%'', ''1/2'', ''0/2'', ''50% of 2'', ''1.2 s'', ''2.0 s'', ''400 / 20'', ''n/a'']]"
  using tables_read_back [of "[demo_summary ''m'']" "[]"] demo_cells by (simp add: demo_summary_def)

end
