(* ===== verification/Services.thy ===== *)
theory Services
  imports Sweeper Worker Knowledge Orders Migrations "HOL-Library.Sublist"
begin

text \<open>
  The processes around the steps: what each opens, works with and closes (\<open>start_worker\<close> of
  \<open>src/worker/worker.py\<close>, \<open>start_sweeper\<close> of \<open>src/worker/recovery_sweeper.py\<close>, the lifespan of
  \<open>src/api/main.py\<close>, \<open>src/api/dependencies.py\<close>, the scripts, \<open>alembic/env.py\<close>). Any call into a
  library may raise, as \<open>faults\<close> says, which sees the calls made so far. A loop that runs until the process
  is stopped is a list of its iterations. The lemmas follow what is open, and show that the
  worker's loop is a run of its messages and the sweeper's a run of its sweeps.
\<close>

section \<open>Calls that may raise\<close>

datatype event = Opened string | Closed string | Called string

type_synonym faults = "event list \<Rightarrow> event \<Rightarrow> exn option"

text \<open>A service works on a world of its own and adds to the calls made.\<close>

type_synonym ('w, 'a) service = "'w \<times> event list \<Rightarrow> 'a res \<times> 'w \<times> event list"

definition attempt :: "faults \<Rightarrow> event \<Rightarrow> ('w, unit) service" where
  "attempt flt e = (\<lambda>(w, h). case flt h e of Some x \<Rightarrow> (Inl x, w, h) | None \<Rightarrow> (Inr (), w, h @ [e]))"

definition work :: "('w \<Rightarrow> 'a res \<times> 'w) \<Rightarrow> ('w, 'a) service" where
  "work f = (\<lambda>(w, h). let (r, w') = f w in (r, w', h))"

definition andthen :: "('w, 'a) service \<Rightarrow> ('a \<Rightarrow> ('w, 'b) service) \<Rightarrow> ('w, 'b) service" where
  "andthen m f s = (case m s of (Inl x, s') \<Rightarrow> (Inl x, s') | (Inr a, s') \<Rightarrow> f a s')"

text \<open>\<open>finally\<close>: what the last block raises wins.\<close>

definition closing :: "faults \<Rightarrow> string \<Rightarrow> ('w, 'a) service \<Rightarrow> ('w, 'a) service" where
  "closing flt r body s =
     (let (a, s1) = body s; (b, s2) = attempt flt (Closed r) s1
      in (case b of Inl x \<Rightarrow> Inl x | Inr _ \<Rightarrow> a, s2))"

text \<open>\<open>async with\<close>.\<close>

definition async_with :: "faults \<Rightarrow> string \<Rightarrow> ('w, 'a) service \<Rightarrow> ('w, 'a) service" where
  "async_with flt r body = andthen (attempt flt (Opened r)) (\<lambda>_. closing flt r body)"

definition swallow :: "(exn \<Rightarrow> bool) \<Rightarrow> ('w, unit) service \<Rightarrow> ('w, unit) service" where
  "swallow P m s = (case m s of (Inl x, s') \<Rightarrow> (if P x then Inr () else Inl x, s') | (Inr _, s') \<Rightarrow> (Inr (), s'))"

section \<open>The gateway and the scripts\<close>

text \<open>One session per request (\<open>get_db_session\<close>), for any handler.\<close>

definition get_db_session :: "faults \<Rightarrow> ('w, 'a) service \<Rightarrow> ('w, 'a) service" where
  "get_db_session flt handler = async_with flt ''session'' handler"

text \<open>The lifespan, around the serving of all requests.\<close>

definition lifespan :: "faults \<Rightarrow> ('w, 'a) service \<Rightarrow> ('w, unit) service" where
  "lifespan flt serve =
     andthen (attempt flt (Opened ''connection'')) (\<lambda>_.
     andthen (attempt flt (Called ''channel'')) (\<lambda>_.
     andthen (attempt flt (Called ''declare_queue'')) (\<lambda>_.
     andthen (attempt flt (Opened ''engine'')) (\<lambda>_.
     andthen serve (\<lambda>_.
     andthen (attempt flt (Closed ''connection'')) (\<lambda>_.
       attempt flt (Closed ''engine'')))))))"

definition seed_orders :: "faults \<Rightarrow> time \<Rightarrow> (order_row table, int) service" where
  "seed_orders flt now =
     andthen (attempt flt (Opened ''engine'')) (\<lambda>_. closing flt ''engine'' (async_with flt ''session''
       (work (\<lambda>t. case seed_run now t of Inl e \<Rightarrow> (Inl e, t) | Inr (n, t') \<Rightarrow> (Inr n, t')))))"

text \<open>The embeddings client is made after the engine and before the block that disposes it.\<close>

definition ingest_policy ::
  "faults \<Rightarrow> unit res \<Rightarrow> (string list \<Rightarrow> vector list res) \<Rightarrow> time \<Rightarrow> string \<Rightarrow> string \<Rightarrow> string \<Rightarrow> (kb_table, nat) service" where
  "ingest_policy flt client aembed now name tier text =
     andthen (work (\<lambda>t. (chunk_markdown text 800 100, t))) (\<lambda>chunks.
     andthen (attempt flt (Opened ''engine'')) (\<lambda>_.
     andthen (work (\<lambda>t. (client, t))) (\<lambda>_.
       closing flt ''engine'' (async_with flt ''session'' (work (ingest_document aembed now name tier chunks))))))"

text \<open>Migrations: without a connection, and over one; \<open>migrate\<close> is Alembic running the revisions.\<close>

definition run_migrations_offline :: "faults \<Rightarrow> ('w \<Rightarrow> unit res \<times> 'w) \<Rightarrow> ('w, unit) service" where
  "run_migrations_offline flt migrate =
     andthen (attempt flt (Called ''configure'')) (\<lambda>_. async_with flt ''transaction'' (work migrate))"

definition run_async_migrations :: "faults \<Rightarrow> ('w \<Rightarrow> unit res \<times> 'w) \<Rightarrow> ('w, unit) service" where
  "run_async_migrations flt migrate =
     andthen (attempt flt (Opened ''engine'')) (\<lambda>_.
     andthen (async_with flt ''connection''
       (andthen (attempt flt (Called ''configure'')) (\<lambda>_. async_with flt ''transaction'' (work migrate)))) (\<lambda>_.
       attempt flt (Closed ''engine'')))"

section \<open>The worker and the sweeper\<close>

text \<open>
  \<open>handle_delivery\<close>: the context that settles the message and the session around the step;
  an exception that says that the channel is gone is swallowed.
\<close>

definition deliver :: "faults \<Rightarrow> (exn \<Rightarrow> bool) \<Rightarrow> ('w \<Rightarrow> unit res \<times> 'w) \<Rightarrow> ('w, unit) service" where
  "deliver flt gone step = swallow gone (async_with flt ''message'' (async_with flt ''session'' (work step)))"

fun consume :: "faults \<Rightarrow> (exn \<Rightarrow> bool) \<Rightarrow> ('m \<Rightarrow> 'w \<Rightarrow> unit res \<times> 'w) \<Rightarrow> 'm list \<Rightarrow> ('w, unit) service" where
  "consume flt gone step [] = (\<lambda>s. (Inr (), s))"
| "consume flt gone step (m # ms) = andthen (deliver flt gone (step m)) (\<lambda>_. consume flt gone step ms)"

text \<open>\<open>start_worker\<close>; \<open>None\<close> when the broker never answers. The engine is not disposed.\<close>

definition start_worker ::
  "faults \<Rightarrow> (exn \<Rightarrow> bool) \<Rightarrow> (nat \<Rightarrow> unit res) \<Rightarrow> (exn \<Rightarrow> bool) \<Rightarrow> ('m \<Rightarrow> 'w \<Rightarrow> unit res \<times> 'w) \<Rightarrow> 'm list
   \<Rightarrow> 'w \<times> event list \<Rightarrow> (unit res \<times> 'w \<times> event list) option" where
  "start_worker flt gone connect unreachable step ms s =
     (case connect_with_retry connect unreachable 1 30 of
        None \<Rightarrow> None
      | Some (Inl e, _) \<Rightarrow> Some (Inl e, s)
      | Some (Inr _, _) \<Rightarrow>
          Some (closing flt ''connection''
            (andthen (attempt flt (Called ''channel'')) (\<lambda>_.
             andthen (attempt flt (Called ''set_qos'')) (\<lambda>_.
             andthen (attempt flt (Called ''declare_queue'')) (\<lambda>_.
             andthen (attempt flt (Opened ''engine'')) (\<lambda>_.
               async_with flt ''iterator'' (consume flt gone step ms))))))
            (fst s, snd s @ [Opened ''connection''])))"

text \<open>One sweep, on the queue and the rows.\<close>

definition sweep_step :: "settings \<Rightarrow> sweep_env \<Rightarrow> json list \<times> transaction_row list \<Rightarrow> unit res \<times> json list \<times> transaction_row list" where
  "sweep_step S env = (\<lambda>(queue, rows). let (sent, rows') = run_sweep S env rows in (Inr (), queue @ sent, rows'))"

text \<open>The iterations of the sweeper, which ends when it is cancelled while it sleeps.\<close>

fun sweep_loop :: "faults \<Rightarrow> settings \<Rightarrow> sweep_env list \<Rightarrow> (json list \<times> transaction_row list, unit) service" where
  "sweep_loop flt S [] = (\<lambda>s. (raise_exn ''CancelledError'', s))"
| "sweep_loop flt S (env # envs) =
     andthen (swallow (\<lambda>x. exn_class x \<noteq> ''CancelledError'') (async_with flt ''session'' (work (sweep_step S env)))) (\<lambda>_.
       sweep_loop flt S envs)"

definition start_sweeper ::
  "faults \<Rightarrow> (nat \<Rightarrow> unit res) \<Rightarrow> (exn \<Rightarrow> bool) \<Rightarrow> settings \<Rightarrow> sweep_env list
   \<Rightarrow> (json list \<times> transaction_row list) \<times> event list
   \<Rightarrow> (unit res \<times> (json list \<times> transaction_row list) \<times> event list) option" where
  "start_sweeper flt connect unreachable S envs s =
     (case attempt flt (Opened ''engine'') s of
        (Inl e, s1) \<Rightarrow> Some (Inl e, s1)
      | (Inr _, s1) \<Rightarrow>
          (case connect_with_retry connect unreachable 1 30 of
             None \<Rightarrow> None
           | Some (Inl e, _) \<Rightarrow> Some (Inl e, s1)
           | Some (Inr _, _) \<Rightarrow>
               Some (closing flt ''connection''
                 (andthen (attempt flt (Called ''channel'')) (\<lambda>_. sweep_loop flt S envs))
                 (fst s1, snd s1 @ [Opened ''connection'']))))"

section \<open>What stays open\<close>

definition held :: "event list \<Rightarrow> string \<Rightarrow> int" where
  "held h r = int (count_list h (Opened r)) - int (count_list h (Closed r))"

lemma held_append [simp]: "held (h @ h') r = held h r + held h' r"
  by (simp add: held_def)

lemma held_Cons [simp]:
  "held [] r = 0"
  "held (Opened q # h) r = (if q = r then 1 else 0) + held h r"
  "held (Closed q # h) r = (if q = r then - 1 else 0) + held h r"
  "held (Called q # h) r = held h r"
  by (auto simp: held_def)

text \<open>Closing never raises.\<close>

definition closes :: "faults \<Rightarrow> bool" where
  "closes flt = (\<forall>h r. flt h (Closed r) = None)"

text \<open>However the service ends, it holds what it held before, except for resources of \<open>E\<close>.\<close>

definition leaks :: "string set \<Rightarrow> ('w, 'a) service \<Rightarrow> bool" where
  "leaks E m = (\<forall>w h a w' h'. m (w, h) = (a, w', h') \<longrightarrow> (\<forall>r. r \<notin> E \<longrightarrow> held h' r = held h r))"

named_theorems leaks_intros

lemma leaksD: "leaks E m \<Longrightarrow> m (w, h) = (a, w', h') \<Longrightarrow> r \<notin> E \<Longrightarrow> held h' r = held h r"
  unfolding leaks_def by blast

lemma leaksI:
  "(\<And>w h a w' h' r. m (w, h) = (a, w', h') \<Longrightarrow> r \<notin> E \<Longrightarrow> held h' r = held h r) \<Longrightarrow> leaks E m"
  unfolding leaks_def by blast

lemma leaks_mono: "leaks E m \<Longrightarrow> E \<subseteq> E' \<Longrightarrow> leaks E' m"
  unfolding leaks_def by blast

lemma leaks_attempt [leaks_intros]:
  "leaks E (attempt flt (Called n))" "r \<in> E \<Longrightarrow> leaks E (attempt flt (Opened r))" "r \<in> E \<Longrightarrow> leaks E (attempt flt (Closed r))"
  by (auto intro!: leaksI simp: attempt_def split: option.splits)

lemma leaks_work [leaks_intros]: "leaks E (work f)"
  by (auto intro!: leaksI simp: work_def split: prod.splits)

lemma leaks_return [leaks_intros]: "leaks E (\<lambda>s. (a, s))"
  by (auto intro!: leaksI)

lemma leaks_andthen [leaks_intros]:
  assumes "leaks E m" "\<And>a. leaks E (f a)"
  shows "leaks E (andthen m f)"
proof (rule leaksI)
  fix w h a w' h' r
  assume run: "andthen m f (w, h) = (a, w', h')" and r: "r \<notin> E"
  obtain b w1 h1 where b: "m (w, h) = (b, w1, h1)" by (metis prod_cases3)
  show "held h' r = held h r"
  proof (cases b)
    case (Inl x)
    with run b leaksD [OF assms(1) b r] show ?thesis by (simp add: andthen_def)
  next
    case (Inr v)
    with run b have "f v (w1, h1) = (a, w', h')" by (simp add: andthen_def)
    from leaksD [OF assms(2) this r] leaksD [OF assms(1) b r] show ?thesis by simp
  qed
qed

lemma leaks_swallow [leaks_intros]:
  assumes "leaks E m"
  shows "leaks E (swallow P m)"
  by (rule leaksI) (use assms in \<open>auto simp: swallow_def dest: leaksD split: prod.splits sum.splits if_splits\<close>)

lemma attempt_closed [simp]: "closes flt \<Longrightarrow> attempt flt (Closed r) (w, h) = (Inr (), w, h @ [Closed r])"
  by (simp add: attempt_def closes_def)

lemma closing_result:
  assumes "closes flt" "body (w, h) = (a, w', h')"
  shows "closing flt r body (w, h) = (a, w', h' @ [Closed r])"
  using assms by (simp add: closing_def)

lemma leaks_async_with [leaks_intros]:
  assumes "closes flt" "leaks E body"
  shows "leaks E (async_with flt r body)"
proof (rule leaksI)
  fix w h a w' h' q
  assume run: "async_with flt r body (w, h) = (a, w', h')" and q: "q \<notin> E"
  obtain b w1 h1 where b: "body (w, h @ [Opened r]) = (b, w1, h1)" by (metis prod_cases3)
  have "closing flt r body (w, h @ [Opened r]) = (b, w1, h1 @ [Closed r])" by (rule closing_result; fact)
  with leaksD [OF assms(2) b q] run show "held h' q = held h q"
    by (auto simp: async_with_def andthen_def attempt_def split: option.splits)
qed

lemma async_with_unfold: "andthen (attempt flt (Opened r)) (\<lambda>_. closing flt r body) = async_with flt r body"
  by (simp add: async_with_def)

lemma leaks_consume [leaks_intros]:
  assumes "closes flt"
  shows "leaks E (consume flt gone step ms)"
  by (induction ms) (auto simp: deliver_def intro!: leaks_intros assms)

lemma leaks_sweep_loop [leaks_intros]:
  assumes "closes flt"
  shows "leaks E (sweep_loop flt S envs)"
  by (induction envs) (auto intro!: leaks_intros assms)

lemma seed_orders_with:
  "seed_orders flt now = async_with flt ''engine'' (async_with flt ''session''
     (work (\<lambda>t. case seed_run now t of Inl e \<Rightarrow> (Inl e, t) | Inr (n, t') \<Rightarrow> (Inr n, t'))))"
  by (simp add: seed_orders_def async_with_def)

lemma leaks_seed_orders: "closes flt \<Longrightarrow> leaks {} (seed_orders flt now)"
  unfolding seed_orders_with by (intro leaks_intros)

lemma ingest_policy_with:
  "ingest_policy flt (Inr u) aembed now name tier text =
     andthen (work (\<lambda>t. (chunk_markdown text 800 100, t))) (\<lambda>chunks.
       async_with flt ''engine'' (async_with flt ''session'' (work (ingest_document aembed now name tier chunks))))"
  by (rule ext) (auto simp: ingest_policy_def async_with_def andthen_def work_def attempt_def
      split: prod.splits sum.splits option.splits)

lemma leaks_ingest_policy:
  assumes "closes flt"
  shows "leaks (case client of Inl _ \<Rightarrow> {''engine''} | Inr _ \<Rightarrow> {}) (ingest_policy flt client aembed now name tier text)"
proof (cases client)
  case (Inl x)
  have "ingest_policy flt (Inl x) aembed now name tier text =
      andthen (work (\<lambda>t. (chunk_markdown text 800 100, t))) (\<lambda>chunks.
      andthen (attempt flt (Opened ''engine'')) (\<lambda>_. (\<lambda>s. (Inl x, s))))"
    by (rule ext) (simp add: ingest_policy_def andthen_def work_def split: prod.splits sum.splits)
  moreover have "leaks {''engine''} \<dots>" by (intro leaks_intros) simp
  ultimately show ?thesis using Inl by simp
next
  case (Inr u)
  then show ?thesis by (simp add: ingest_policy_with) (intro leaks_intros assms)
qed

text \<open>The message context and the session close, so the loop leaves the engine only.\<close>

lemma leaks_start_worker:
  assumes "closes flt" "start_worker flt gone connect unreachable step ms (w, h) = Some (a, w', h')"
    and "r \<noteq> ''engine''"
  shows "held h' r = held h r"
proof -
  let ?body = "andthen (attempt flt (Called ''channel'')) (\<lambda>_. andthen (attempt flt (Called ''set_qos'')) (\<lambda>_.
     andthen (attempt flt (Called ''declare_queue'')) (\<lambda>_. andthen (attempt flt (Opened ''engine'')) (\<lambda>_.
     async_with flt ''iterator'' (consume flt gone step ms)))))"
  have body: "leaks {''engine''} ?body" by (intro leaks_intros assms(1)) simp
  obtain b w1 h1 where b: "?body (w, h @ [Opened ''connection'']) = (b, w1, h1)" by (metis prod_cases3)
  have "closing flt ''connection'' ?body (w, h @ [Opened ''connection'']) = (b, w1, h1 @ [Closed ''connection''])"
    by (rule closing_result; fact)
  with assms(2) leaksD [OF body b, of r] assms(3) show ?thesis
    by (auto simp: start_worker_def split: option.splits prod.splits sum.splits if_splits)
qed

lemma leaks_start_sweeper:
  assumes "closes flt" "start_sweeper flt connect unreachable S envs (w, h) = Some (a, w', h')"
    and "r \<noteq> ''engine''"
  shows "held h' r = held h r"
proof -
  let ?body = "andthen (attempt flt (Called ''channel'')) (\<lambda>_. sweep_loop flt S envs)"
  have body: "leaks {''engine''} ?body" by (intro leaks_intros assms(1))
  obtain b w1 h1 where b: "?body (w, h @ [Opened ''engine''] @ [Opened ''connection'']) = (b, w1, h1)"
    by (metis prod_cases3)
  have "closing flt ''connection'' ?body (w, h @ [Opened ''engine''] @ [Opened ''connection''])
      = (b, w1, h1 @ [Closed ''connection''])"
    by (rule closing_result; fact)
  with assms(2) leaksD [OF body b, of r] assms(3) show ?thesis
    by (auto simp: start_sweeper_def attempt_def split: option.splits prod.splits sum.splits if_splits)
qed

text \<open>A lifespan and a migration that end normally have closed what they opened.\<close>

lemma lifespan_ends:
  assumes "leaks {} serve" "lifespan flt serve (w, h) = (Inr (), w', h')"
  shows "held h' r = held h r"
proof -
  from assms(2) obtain v h1 where serve: "serve (w, h @ [Opened ''connection'', Called ''channel'', Called ''declare_queue'', Opened ''engine'']) = (Inr v, w', h1)"
    and h': "h' = h1 @ [Closed ''connection'', Closed ''engine'']"
    by (auto simp: lifespan_def andthen_def attempt_def split: option.splits prod.splits sum.splits)
  from leaksD [OF assms(1) serve, of r] h' show ?thesis by (auto simp: held_def)
qed

lemma andthen_ok: "andthen m f s = (Inr v, s'') \<Longrightarrow> \<exists>a s'. m s = (Inr a, s') \<and> f a s' = (Inr v, s'')"
  by (auto simp: andthen_def split: prod.splits sum.splits)

lemma attempt_ok: "attempt flt e (w, h) = (Inr u, s') \<Longrightarrow> s' = (w, h @ [e])"
  by (auto simp: attempt_def split: option.splits)

lemma run_async_migrations_ends:
  assumes "closes flt" "run_async_migrations flt migrate (w, h) = (Inr (), w', h')"
  shows "held h' r = held h r"
proof -
  let ?body = "async_with flt ''connection''
    (andthen (attempt flt (Called ''configure'')) (\<lambda>_. async_with flt ''transaction'' (work migrate)))"
  have body: "leaks {} ?body" by (intro leaks_intros assms(1))
  from assms(2) obtain h1 where b: "?body (w, h @ [Opened ''engine'']) = (Inr (), w', h1)"
    and "h' = h1 @ [Closed ''engine'']"
    unfolding run_async_migrations_def by (auto dest!: andthen_ok attempt_ok)
  with leaksD [OF body b, of r] show ?thesis by simp
qed

lemma andthen_attempt:
  "andthen (attempt flt e) f (w, h) = (case flt h e of Some x \<Rightarrow> (Inl x, w, h) | None \<Rightarrow> f () (w, h @ [e]))"
  by (simp add: andthen_def attempt_def split: option.splits)

lemma closing_run:
  "closing flt r body s =
     (case body s of (a, w1, h1) \<Rightarrow>
        (case flt h1 (Closed r) of Some x \<Rightarrow> (Inl x, w1, h1) | None \<Rightarrow> (a, w1, h1 @ [Closed r])))"
  by (simp add: closing_def attempt_def split: prod.splits option.splits)

section \<open>The worker's loop is a run of its messages\<close>

text \<open>The step of a delivery: the tables, whatever the settlement.\<close>

definition message_step ::
  "'s session \<Rightarrow> inbox_entry \<Rightarrow> txn_table \<times> 's \<Rightarrow> unit res \<times> txn_table \<times> 's" where
  "message_step call m =
     (\<lambda>(txns, s). let (_, tables) = process_message call (ib_env m) (ib_now1 m) (ib_now2 m) (ib_wire m) txns s
                  in (Inr (), tables))"

lemma async_with_world:
  assumes "async_with flt r body (w, h) = (a, w', h')"
  shows "w' = w \<or> (\<exists>b h2. body (w, h @ [Opened r]) = (b, w', h2))"
  using assms
  by (cases "body (w, h @ [Opened r])")
    (auto simp: async_with_def andthen_def closing_def attempt_def split: option.splits)

lemma swallow_world: "swallow P m s = (a, w', h') \<Longrightarrow> \<exists>b. m s = (b, w', h')"
  by (auto simp: swallow_def split: prod.splits sum.splits)

lemma message_step_world:
  "message_step call m (txns, s) = (b, w') \<Longrightarrow>
   w' = snd (process_message call (ib_env m) (ib_now1 m) (ib_now2 m) (ib_wire m) txns s)"
  by (auto simp: message_step_def Let_def split: prod.splits)

lemma deliver_world:
  assumes "deliver flt gone (message_step call m) ((txns, s), h) = (a, w', h')"
  shows "w' = (txns, s) \<or> w' = snd (process_message call (ib_env m) (ib_now1 m) (ib_now2 m) (ib_wire m) txns s)"
proof -
  from assms obtain b where
    "async_with flt ''message'' (async_with flt ''session'' (work (message_step call m))) ((txns, s), h) = (b, w', h')"
    unfolding deliver_def by (blast dest: swallow_world)
  from async_with_world [OF this] show ?thesis
    by (auto dest!: async_with_world message_step_world simp: work_def split: prod.splits)
qed

lemma process_messages_Cons:
  "snd (process_message call (ib_env m) (ib_now1 m) (ib_now2 m) (ib_wire m) txns s) = (txns1, s1) \<Longrightarrow>
   snd (process_messages call (m # ms) txns s) = snd (process_messages call ms txns1 s1)"
  by (auto simp: Let_def split: prod.splits)

lemma consume_runs:
  "consume flt gone (message_step call) ms ((txns, s), h) = (a, w', h') \<Longrightarrow>
   \<exists>ms'. subseq ms' ms \<and> w' = snd (process_messages call ms' txns s)"
proof (induction ms arbitrary: txns s h)
  case Nil
  then show ?case by (intro exI [of _ "[]"]) auto
next
  case (Cons m ms)
  obtain b w1 h1 where m: "deliver flt gone (message_step call m) ((txns, s), h) = (b, w1, h1)"
    by (metis prod_cases3)
  obtain txns1 s1 where w1: "w1 = (txns1, s1)" by fastforce
  have "\<exists>ms'. subseq ms' ms \<and> w' = snd (process_messages call ms' txns1 s1)"
  proof (cases b)
    case (Inl x)
    with Cons.prems m w1 show ?thesis by (intro exI [of _ "[]"]) (auto simp: andthen_def)
  next
    case (Inr u)
    with Cons.prems m w1 show ?thesis by (intro Cons.IH [of _ _ h1]) (auto simp: andthen_def)
  qed
  then obtain ms' where ms': "subseq ms' ms" "w' = snd (process_messages call ms' txns1 s1)" by blast
  from deliver_world [OF m] show ?case
  proof
    assume "w1 = (txns, s)"
    with ms' w1 show ?thesis by (intro exI [of _ ms']) auto
  next
    assume "w1 = snd (process_message call (ib_env m) (ib_now1 m) (ib_now2 m) (ib_wire m) txns s)"
    with w1 have "snd (process_messages call (m # ms') txns s) = w'"
      using process_messages_Cons ms'(2) by metis
    with ms' show ?thesis by (intro exI [of _ "m # ms'"]) auto
  qed
qed

text \<open>No call fails: every delivery is processed.\<close>

lemma consume_all:
  assumes "\<And>h e. flt h e = None"
  shows "\<exists>h'. consume flt gone (message_step call) ms ((txns, s), h) = (Inr (), snd (process_messages call ms txns s), h')"
proof (induction ms arbitrary: txns s h)
  case (Cons m ms)
  obtain txns1 s1 where m: "snd (process_message call (ib_env m) (ib_now1 m) (ib_now2 m) (ib_wire m) txns s) = (txns1, s1)"
    by fastforce
  then have "\<exists>h1. deliver flt gone (message_step call m) ((txns, s), h) = (Inr (), (txns1, s1), h1)"
    by (auto simp: deliver_def swallow_def async_with_def andthen_def closing_def attempt_def work_def message_step_def Let_def assms
        split: prod.splits)
  then obtain h1 where d: "deliver flt gone (message_step call m) ((txns, s), h) = (Inr (), (txns1, s1), h1)" by blast
  from Cons.IH [of txns1 s1 h1] process_messages_Cons [OF m] d show ?case by (simp add: andthen_def)
qed simp

section \<open>The sweeper's loop is a run of sweeps\<close>

lemma sweep_iteration_world:
  assumes "swallow P (async_with flt ''session'' (work (sweep_step S env))) ((q, rows), h) = (a, w', h')"
  shows "w' = (q, rows) \<or> w' = (q @ fst (run_sweep S env rows), snd (run_sweep S env rows))"
proof -
  from assms obtain b where "async_with flt ''session'' (work (sweep_step S env)) ((q, rows), h) = (b, w', h')"
    by (blast dest: swallow_world)
  from async_with_world [OF this] show ?thesis
    by (auto simp: work_def sweep_step_def Let_def split: prod.splits)
qed

lemma sweep_loop_runs:
  "sweep_loop flt S envs ((q, rows), h) = (a, w', h') \<Longrightarrow>
   \<exists>envs'. subseq envs' envs \<and> w' = (q @ fst (sweeps S envs' rows), snd (sweeps S envs' rows))"
proof (induction envs arbitrary: q rows h)
  case Nil
  then show ?case by (intro exI [of _ "[]"]) auto
next
  case (Cons env envs)
  let ?m = "swallow (\<lambda>x. exn_class x \<noteq> ''CancelledError'') (async_with flt ''session'' (work (sweep_step S env)))"
  obtain b w1 h1 where m: "?m ((q, rows), h) = (b, w1, h1)" by (metis prod_cases3)
  obtain q1 rows1 where w1: "w1 = (q1, rows1)" by fastforce
  have "\<exists>envs'. subseq envs' envs \<and> w' = (q1 @ fst (sweeps S envs' rows1), snd (sweeps S envs' rows1))"
  proof (cases b)
    case (Inl x)
    with Cons.prems m w1 show ?thesis
      by (intro exI [of _ "[]"]) (auto simp: andthen_def)
  next
    case (Inr u)
    with Cons.prems m w1 show ?thesis
      by (intro Cons.IH [of _ _ h1]) (auto simp: andthen_def)
  qed
  then obtain envs' where e: "subseq envs' envs" "w' = (q1 @ fst (sweeps S envs' rows1), snd (sweeps S envs' rows1))" by blast
  from sweep_iteration_world [OF m] show ?case
  proof
    assume "w1 = (q, rows)"
    with e w1 show ?thesis by (intro exI [of _ envs']) auto
  next
    assume "w1 = (q @ fst (run_sweep S env rows), snd (run_sweep S env rows))"
    with e w1 show ?thesis by (intro exI [of _ "env # envs'"]) (auto split: prod.splits)
  qed
qed

lemma sweep_loop_ends: "\<exists>e s'. sweep_loop flt S envs s = (Inl e, s')"
  by (induction envs arbitrary: s) (auto simp: andthen_def split: prod.splits sum.splits)

lemma start_sweeper_runs:
  assumes "start_sweeper flt connect unreachable S envs ((q, rows), h) = Some (a, w', h')"
  shows "(\<exists>envs'. subseq envs' envs \<and> w' = (q @ fst (sweeps S envs' rows), snd (sweeps S envs' rows))) \<and> (\<exists>e. a = Inl e)"
proof -
  have stay: "\<exists>envs'. subseq envs' envs \<and> (q, rows) = (q @ fst (sweeps S envs' rows), snd (sweeps S envs' rows))"
    by (intro exI [of _ "[]"]) simp
  let ?h = "h @ [Opened ''engine'', Opened ''connection'']"
  obtain b w1 h1 where loop: "sweep_loop flt S envs ((q, rows), ?h @ [Called ''channel'']) = (b, w1, h1)" by (metis prod_cases3)
  with sweep_loop_ends [of flt S envs "((q, rows), ?h @ [Called ''channel''])"] have b: "\<exists>e. b = Inl e" by auto
  from assms show ?thesis
    using stay sweep_loop_runs [OF loop] loop b
    by (auto simp: start_sweeper_def attempt_def [of flt "Opened ''engine''"] closing_run andthen_attempt
        split: option.splits sum.splits prod.splits)
qed

section \<open>Properties\<close>

definition calm :: "faults \<Rightarrow> bool" where
  "calm flt = (\<forall>h e. flt h e = None)"

text \<open>What leads to the loop, and what follows it.\<close>

lemma start_worker_cases:
  assumes "start_worker flt gone connect unreachable step ms (w, h) = Some (a, w', h')"
  obtains (idle) "w' = w" "\<not> (calm flt \<and> a = Inr ())"
  | (loop) b h1 h2 where "consume flt gone step ms (w, h1) = (b, w', h2)" "calm flt \<Longrightarrow> a = b"
proof -
  let ?body = "andthen (attempt flt (Called ''channel'')) (\<lambda>_. andthen (attempt flt (Called ''set_qos'')) (\<lambda>_.
     andthen (attempt flt (Called ''declare_queue'')) (\<lambda>_. andthen (attempt flt (Opened ''engine'')) (\<lambda>_.
     async_with flt ''iterator'' (consume flt gone step ms)))))"
  have body: "w1 = w \<and> \<not> (calm flt \<and> b = Inr ()) \<or>
      (\<exists>c h1 h3. consume flt gone step ms (w, h1) = (c, w1, h3) \<and> (calm flt \<longrightarrow> b = c))"
    if "?body (w, h0) = (b, w1, h2)" for h0 b w1 h2
  proof (cases "calm flt")
    case True
    then have "flt h' e = None" for h' e by (simp add: calm_def)
    with that show ?thesis by (simp add: andthen_attempt async_with_def closing_run split: prod.splits) blast
  next
    case False
    with that show ?thesis
      by (auto simp: andthen_attempt async_with_def closing_run split: option.splits prod.splits)
  qed
  show thesis
  proof (cases "connect_with_retry connect unreachable 1 30")
    case None
    with assms show thesis by (simp add: start_worker_def)
  next
    case (Some rd)
    obtain r d where rd: "rd = (r, d)" by fastforce
    show thesis
    proof (cases r)
      case (Inl e)
      with assms Some rd show thesis by (intro idle) (auto simp: start_worker_def)
    next
      case (Inr u)
      obtain b w1 h2 where b: "?body (w, h @ [Opened ''connection'']) = (b, w1, h2)" by (metis prod_cases3)
      with assms Some rd Inr have "w' = w1 \<and> (calm flt \<longrightarrow> a = b)" "a = Inr () \<longrightarrow> b = Inr ()"
        by (auto simp: start_worker_def closing_run calm_def split: option.splits)
      with body [OF b] show thesis using idle loop by blast
    qed
  qed
qed

lemma start_worker_runs:
  assumes "start_worker flt gone connect unreachable (message_step call) ms ((txns, s), h) = Some (a, w', h')"
  shows "\<exists>ms'. subseq ms' ms \<and> w' = snd (process_messages call ms' txns s) \<and> (calm flt \<and> a = Inr () \<longrightarrow> ms' = ms)"
  using assms
proof (cases rule: start_worker_cases)
  case idle
  then show ?thesis by (intro exI [of _ "[]"]) auto
next
  case (loop b h1 h2)
  show ?thesis
  proof (cases "calm flt")
    case True
    then obtain h3 where "consume flt gone (message_step call) ms ((txns, s), h1) =
        (Inr (), snd (process_messages call ms txns s), h3)"
      using consume_all [of flt gone call ms txns s h1] by (auto simp: calm_def)
    with loop(1) show ?thesis by (intro exI [of _ ms]) auto
  next
    case False
    with consume_runs [OF loop(1)] show ?thesis by blast
  qed
qed

lemma start_worker_calm:
  assumes "calm flt" "connect 0 = Inr ()"
  shows "\<exists>h'. start_worker flt gone connect unreachable (message_step call) ms ((txns, s), h)
    = Some (Inr (), snd (process_messages call ms txns s), h')"
proof -
  have none: "flt h' e = None" for h' e using assms(1) by (simp add: calm_def)
  have "connect_with_retry connect unreachable 1 30 = Some (Inr (), [])"
    using assms(2) by (simp add: connect_with_retry_def connect_loop.simps)
  then show ?thesis
    using consume_all [of flt gone call ms txns s, OF none]
    by (simp add: start_worker_def closing_run andthen_attempt async_with_def none split: prod.splits)
      (metis prod.inject)
qed

text \<open>
  C12. However the worker ends (the broker, the channel, a session or the settling of a message
  may fail at any call, and a message whose channel is gone is left to the broker), the tables
  are those of some of the deliveries, in their order, processed one after the other; of all of
  them when no call fails. So no order is refunded beyond its amount and no refund is lost.
\<close>

theorem worker_is_a_run:
  assumes "start_worker flt gone connect unreachable
      (message_step (boundary_call (cfg\<lparr>mw_pydantic := lax_mode\<rparr>) token)) ms ((txns, s), h) = Some (a, (txns', s'), h')"
    and "ep_inv s" and "within_orders (ep_orders s) (ep_ledger s)" and "list_all shaped_entry ms"
  shows "(\<exists>ms'. subseq ms' ms \<and> (calm flt \<and> a = Inr () \<longrightarrow> ms' = ms) \<and>
      (txns', s') = snd (process_messages (boundary_call (cfg\<lparr>mw_pydantic := lax_mode\<rparr>) token) ms' txns s)) \<and>
    (\<forall>ord \<in> set (tb_rows (ep_orders s')). refunded_on (or_order_id ord) (ep_ledger s') \<le> or_amount ord) \<and>
    (\<forall>k r. find_refund k (ep_ledger s) = Some r \<longrightarrow> find_refund k (ep_ledger s') = Some r)"
proof -
  let ?call = "boundary_call (cfg\<lparr>mw_pydantic := lax_mode\<rparr>) token"
  from start_worker_runs [OF assms(1)] obtain ms' where ms': "subseq ms' ms" "calm flt \<and> a = Inr () \<longrightarrow> ms' = ms"
    and run: "(txns', s') = snd (process_messages ?call ms' txns s)" by blast
  from run obtain hows where "process_messages ?call ms' txns s = (hows, txns', s')"
    by (metis prod.collapse)
  moreover have "list_all shaped_entry ms'"
    using ms'(1) assms(4) by (auto simp: list_all_iff dest: list_emb_set)
  ultimately have "within_orders (ep_orders s') (ep_ledger s') \<and>
      (\<forall>k r. find_refund k (ep_ledger s) = Some r \<longrightarrow> find_refund k (ep_ledger s') = Some r)"
    using evidence.process_messages_tables [OF assms(2,3)] by blast
  with ms' run show ?thesis by (auto simp: within_orders_def list_all_iff)
qed

text \<open>A claim of 54.50 paid by a worker that nothing disturbs.\<close>

theorem worker_is_a_run_witness:
  "\<exists>txns s h. start_worker (\<lambda>_ _. None) (\<lambda>_. False) (\<lambda>_. Inr ()) (\<lambda>_. False) (message_step worker_call)
      (take 1 demo_inbox) ((Map.empty, worker_world), []) = Some (Inr (), (txns, s), h) \<and>
    map (\<lambda>r. (rf_request_id r, rf_amount r)) (tb_rows (ep_ledger s)) = [(''q'', 5450)] \<and>
    (\<forall>ord \<in> set (tb_rows (ep_orders s)). refunded_on (or_order_id ord) (ep_ledger s) \<le> or_amount ord)"
proof -
  obtain row where one: "process_message worker_call demo_claim_env 0 9 (Some (JObj demo_body)) Map.empty worker_world =
      (Acked, [''q'' \<mapsto> row], snd (snd demo_paid))" using demo_processed by blast
  have "snd (process_messages worker_call (take 1 demo_inbox) Map.empty worker_world) = ([''q'' \<mapsto> row], snd (snd demo_paid))"
    by (simp add: demo_inbox_def one)
  then obtain h where run: "start_worker (\<lambda>_ _. None) (\<lambda>_. False) (\<lambda>_. Inr ()) (\<lambda>_. False) (message_step worker_call)
      (take 1 demo_inbox) ((Map.empty, worker_world), []) = Some (Inr (), ([''q'' \<mapsto> row], snd (snd demo_paid)), h)"
    using start_worker_calm [of "\<lambda>_ _. None" "\<lambda>_. Inr ()" "\<lambda>_. False" "\<lambda>_. False" worker_call "take 1 demo_inbox" Map.empty worker_world "[]"]
    by (auto simp: calm_def)
  have "list_all shaped_entry (take 1 demo_inbox)"
    by (simp add: demo_inbox_def shaped_entry_def claim_shaped_def pf_gt_def pf_ge_def) code_simp
  from worker_is_a_run [OF run [unfolded worker_call_def] conjunct1 [OF worker_world_inv] conjunct2 [OF worker_world_inv] this]
    demo_paid_runs run
  show ?thesis by (intro exI [of _ "[''q'' \<mapsto> row]"] exI [of _ "snd (snd demo_paid)"] exI [of _ h]) simp
qed


definition no_queue :: faults where
  "no_queue h e = (if e = Called ''declare_queue'' then Some (Exn ''ChannelClosed'' []) else None)"


text \<open>
  The lifespan has no \<open>finally\<close>: a queue that cannot be declared leaves the connection open.
  So does the ingestion leave its engine when the embeddings client cannot be made.
\<close>

lemma lifespan_leaks:
  "lifespan no_queue (work (\<lambda>u. (Inr (), u))) ((), []) =
     (Inl (Exn ''ChannelClosed'' []), (), [Opened ''connection'', Called ''channel''])"
  "held [Opened ''connection'', Called ''channel''] ''connection'' = 1"
  by (simp_all add: lifespan_def andthen_attempt no_queue_def)

lemma ingest_leaks:
  assumes "chunk_markdown text 800 100 = Inr chunks"
  shows "ingest_policy no_queue (Inl x) aembed now name tier text (t, []) = (Inl x, t, [Opened ''engine''])"
    and "held [Opened ''engine''] ''engine'' = 1"
  using assms by (simp_all add: ingest_policy_def andthen_def work_def attempt_def no_queue_def)


text \<open>Two iterations; the commit of the second one fails, which had nothing to sweep.\<close>

definition twice :: "bool \<Rightarrow> sweep_env list" where
  "twice up = [sound_sweep, sound_sweep\<lparr>sw_commit := up\<rparr>]"


end
