(* ===== verification/Mcp_Asgi.thy ===== *)
theory Mcp_Asgi
  imports Mcp_Server Json_Wire
begin

text \<open>
  The MCP server as it is started (\<open>create_app\<close> of \<open>src/mcp_server/mcp_server.py\<close>) and as ASGI calls it: a request's
  body arrives in messages, the middleware reads them and gives the application behind it a
  \<open>receive\<close> that plays the body again. The lemmas show that the application reads the body that was
  checked, so a request at this level is a request of \<open>Mcp_Server\<close>.
\<close>

section \<open>Messages\<close>

datatype asgi_message = RequestBody string bool | Disconnected

text \<open>
  Starlette's \<open>Request.body\<close>: the parts up to the one that says that no more follow; \<open>None\<close> when it
  waits for a message that does not come.
\<close>

fun read_body :: "asgi_message list \<Rightarrow> string res option" where
  "read_body [] = None"
| "read_body (Disconnected # ms) = Some (raise_exn ''ClientDisconnect'')"
| "read_body (RequestBody part again # ms) =
     (if again then map_option (\<lambda>r. bindR r (\<lambda>rest. Inr (part @ rest))) (read_body ms) else Some (Inr part))"

text \<open>\<open>_replay_body\<close>: one call of its \<open>receive\<close> with the variable \<open>sent\<close>, and the messages of the first calls.\<close>

definition replay_body :: "string \<Rightarrow> bool \<Rightarrow> asgi_message \<times> bool" where
  "replay_body body sent = (if \<not> sent then (RequestBody body False, True) else (Disconnected, sent))"

fun received :: "nat \<Rightarrow> string \<Rightarrow> bool \<Rightarrow> asgi_message list" where
  "received 0 body sent = []"
| "received (Suc n) body sent = (let (m, sent') = replay_body body sent in m # received n body sent')"

datatype inner_receive = Original "asgi_message list" | Replayed string

text \<open>What the application behind the middleware finds when it receives \<open>n\<close> times.\<close>

definition inner_messages :: "nat \<Rightarrow> inner_receive \<Rightarrow> asgi_message list" where
  "inner_messages n r = (case r of Original ms \<Rightarrow> take n ms | Replayed body \<Rightarrow> received n body False)"

section \<open>MCPSecurityMiddleware.__call__\<close>

definition asgi_middleware ::
  "mw_config \<Rightarrow> mw_env \<Rightarrow> http_request \<Rightarrow> asgi_message list \<Rightarrow> audit_row table
   \<Rightarrow> ((mw_out \<times> inner_receive) \<times> audit_row table) option" where
  "asgi_middleware cfg env rq ms t =
     (if sc_type rq \<noteq> ''http'' then Some ((Forward, Original ms), t)
      else case request_client cfg rq of
             Inl e \<Rightarrow> Some ((Raised e, Original ms), t)
           | Inr None \<Rightarrow>
               (let (out, t') = deny env 401 ''unknown'' None (JObj []) DeniedUnauthenticated ''invalid_or_missing_token'' t
                in Some ((out, Original ms), t'))
           | Inr (Some client) \<Rightarrow>
               if sc_method rq \<noteq> ''POST'' then Some ((Forward, Original ms), t)
               else case read_body ms of
                      None \<Rightarrow> None
                    | Some (Inl e) \<Rightarrow> Some ((Raised e, Original ms), t)
                    | Some (Inr body) \<Rightarrow>
                        (case parse_jsonrpc_message (json_loads body) of
                           None \<Rightarrow> Some ((Forward, Replayed body), t)
                         | Some msg \<Rightarrow>
                             if dget msg ''method'' \<noteq> JStr ''tools/call'' then Some ((Forward, Replayed body), t)
                             else let (out, t') = handle_tools_call cfg env client msg t
                                  in Some ((out, Replayed body), t')))"

text \<open>
  One HTTP request against the application: what is behind the middleware reads a posted body
  itself and runs the tool that it finds there.
\<close>

definition asgi_app ::
  "mw_config \<Rightarrow> mw_env \<Rightarrow> http_request \<Rightarrow> asgi_message list \<Rightarrow> mcp_db \<Rightarrow> (answer \<times> mcp_db) option" where
  "asgi_app cfg env rq ms db =
     (case asgi_middleware cfg env rq ms (md_audit db) of
        None \<Rightarrow> None
      | Some ((out, inner), audit') \<Rightarrow>
          let db' = db\<lparr>md_audit := audit'\<rparr>
          in (case out of
                Respond s _ \<Rightarrow> Some (Status s, db')
              | Raised _ \<Rightarrow> Some (ServerError, db')
              | Forward \<Rightarrow>
                  if sc_method rq \<noteq> ''POST'' then Some (Accepted, db')
                  else (case read_body (inner_messages (Suc (length ms)) inner) of
                          None \<Rightarrow> None
                        | Some (Inl e) \<Rightarrow> Some (ServerError, db')
                        | Some (Inr body) \<Rightarrow>
                            (case called_tool (rq\<lparr>sc_body := json_loads body\<rparr>) of
                               None \<Rightarrow> Some (Accepted, db')
                             | Some (tool, args) \<Rightarrow>
                                 (case run_tool (mw_pydantic cfg) (ev_now env) tool args db' of
                                    Inl e \<Rightarrow> Some (ToolResult (Inl e), db')
                                  | Inr (d, db'') \<Rightarrow> Some (ToolResult (Inr d), db''))))))"

section \<open>create_app\<close>

record app_overrides =
  ao_registry :: "client_record list option"
  ao_rate_limit :: "int option"
  ao_hosts :: "string list option"

text \<open>The middleware's configuration with the hosts and origins of the transport; the file's JSON is an argument.\<close>

definition create_app ::
  "(string \<Rightarrow> string) \<Rightarrow> pydantic \<Rightarrow> settings \<Rightarrow> (string \<Rightarrow> json res) \<Rightarrow> app_overrides
   \<Rightarrow> (mw_config \<times> string list \<times> string list) res" where
  "create_app sha P S file ov =
     bindR (case ao_registry ov of Some r \<Rightarrow> Inr r | None \<Rightarrow> bindR (file (MCP_CLIENTS_FILE S)) from_file) (\<lambda>registry.
       let rate = (case ao_rate_limit ov of Some n \<Rightarrow> n | None \<Rightarrow> MCP_RATE_LIMIT_PER_MIN S);
           hosts = (case ao_hosts ov of Some hs \<Rightarrow> hs | None \<Rightarrow> parse_hosts (MCP_ALLOWED_HOSTS S))
       in Inr (\<lparr>mw_sha256 = sha, mw_registry = registry, mw_rate_limit_per_min = rate, mw_pydantic = P,
                mw_refund_max = REFUND_MAX_AMOUNT S\<rparr>, build_transport_security hosts))"

section \<open>Lemmas\<close>

text \<open>A body in parts.\<close>

definition in_parts :: "string list \<Rightarrow> asgi_message list" where
  "in_parts parts = map (\<lambda>p. RequestBody p True) (butlast parts) @ [RequestBody (last parts) False]"

lemma read_parts: "parts \<noteq> [] \<Longrightarrow> read_body (in_parts parts) = Some (Inr (concat parts))"
  unfolding in_parts_def by (induction parts rule: list_nonempty_induct) (auto simp: butlast_append)

lemma read_cut: "read_body (map (\<lambda>p. RequestBody p True) parts @ [Disconnected]) = Some (raise_exn ''ClientDisconnect'')"
  by (induction parts) auto

lemma read_replayed: "read_body (inner_messages (Suc n) (Replayed body)) = Some (Inr body)"
  by (simp add: inner_messages_def replay_body_def)

text \<open>The middleware on a body in parts is the middleware on the parsed body.\<close>

lemma request_client_body [simp]: "request_client cfg (rq\<lparr>sc_body := b\<rparr>) = request_client cfg rq"
  by (simp add: request_client_def)

lemma asgi_middleware_parts:
  assumes "sc_type rq = ''http''" "parts \<noteq> []"
  shows "asgi_middleware cfg env rq (in_parts parts) t =
    (case middleware cfg env (rq\<lparr>sc_body := json_loads (concat parts)\<rparr>) t of
       (out, t') \<Rightarrow> Some ((out, if (\<exists>c. request_client cfg rq = Inr (Some c)) \<and> sc_method rq = ''POST''
                              then Replayed (concat parts) else Original (in_parts parts)), t'))"
  using assms read_parts [OF assms(2)]
  by (auto simp: asgi_middleware_def middleware_def deny_def split: sum.splits option.splits prod.splits)

lemma middleware_forward_client:
  assumes "middleware cfg env rq t = (Forward, t')" "sc_type rq = ''http''"
  shows "\<exists>c. request_client cfg rq = Inr (Some c)"
  using assms by (auto simp: middleware_def deny_def split: sum.splits option.splits)

lemma asgi_app_parts:
  assumes "sc_type rq = ''http''" "parts \<noteq> []"
  shows "asgi_app cfg env rq (in_parts parts) db = Some (app cfg env (rq\<lparr>sc_body := json_loads (concat parts)\<rparr>) db)"
proof -
  let ?rq = "rq\<lparr>sc_body := json_loads (concat parts)\<rparr>"
  obtain out au where m: "middleware cfg env ?rq (md_audit db) = (out, au)"
    by (cases "middleware cfg env ?rq (md_audit db)")
  show ?thesis
  proof (cases out)
    case Forward
    with m middleware_forward_client [of cfg env ?rq] assms(1) obtain c where c: "request_client cfg rq = Inr (Some c)"
      by fastforce
    show ?thesis
    proof (cases "sc_method rq = ''POST''")
      case True
      with c m Forward asgi_middleware_parts [OF assms, of cfg env "md_audit db"] read_replayed show ?thesis
        by (simp add: asgi_app_def app_def Let_def split: option.splits prod.splits sum.splits)
    next
      case False
      then have "called_tool ?rq = None" by (simp add: called_tool_def split: option.split)
      with False c m Forward asgi_middleware_parts [OF assms, of cfg env "md_audit db"] show ?thesis
        by (simp add: asgi_app_def app_def Let_def)
    qed
  qed (use m asgi_middleware_parts [OF assms, of cfg env "md_audit db"] in \<open>simp_all add: asgi_app_def app_def Let_def\<close>)
qed

text \<open>What must hold when a request changes the refund table.\<close>

lemma app_pays:
  assumes "app cfg env rq db = (ans, db')" "md_refunds db' \<noteq> md_refunds db" "sc_type rq = ''http''"
  obtains client args where "reads_tools_call cfg rq client (JStr ''execute_refund'') (JObj args)"
    "''execute_refund'' \<in> set (allowed_tools client)" "schema_accepts cfg ''execute_refund'' (JObj args)"
    "\<not> is_rate_limited (md_audit db) (client_id client) ''execute_refund'' (mw_rate_limit_per_min cfg) (ev_now env)"
    "md_audit db' = audited (md_audit db) (ev_now env) (client_id client) (Some ''execute_refund'') args Allowed ''invoked''"
proof (cases rule: app_cases [of cfg env rq db])
  case (quiet au)
  with assms(1,2) show thesis by simp
next
  case (ran au tool args d db1)
  then have db1: "db1 = db'" "ans = ToolResult (Inr d)" using assms(1) by simp_all
  have tool: "tool = ''execute_refund''" and au: "md_audit db' = au"
    using ran(3) assms(2) unfolding db1 by (cases rule: run_tool_cases; simp)+
  from ran(1) obtain msg params where msg: "sc_body rq = Some (JObj msg)" "sc_method rq = ''POST''"
      "dget msg ''method'' = JStr ''tools/call''" "py_or (dget msg ''params'') (JObj []) = JObj params"
      "tool_call_arguments params = JObj args" "tool = py_str (tool_call_name params)"
    by (auto simp: called_tool_def parse_jsonrpc_message_def split: option.splits json.splits if_splits)
  from middleware_forward_client [OF ran(2) assms(3)] obtain client where "request_client cfg rq = Inr (Some client)" by blast
  with msg assms(3) have reads: "reads_tools_call cfg rq client (tool_call_name params) (JObj args)"
    by (auto simp: reads_tools_call_def)
  have allowed: "is_allowed client (tool_call_name params) = Inr True"
    using ran(2) unfolding middleware_reads [OF reads] by (auto simp: deny_def split: sum.splits if_splits)
  then obtain s where s: "tool_call_name params = JStr s" "s \<in> set (allowed_tools client)" by (auto simp: is_allowed_True)
  with tool msg(6) have s_eq: "s = ''execute_refund''" by simp
  have "check_and_audit cfg env client s (JObj args) (md_audit db) = (Forward, au)"
    using ran(2) allowed s(1) unfolding middleware_reads [OF reads] by simp
  with reads s s_eq au show thesis by (intro that [of client args]) (simp_all add: check_and_audit_forward)
qed

section \<open>A refund sent in two parts\<close>

definition pay_message :: json where
  "pay_message = JObj [(''method'', JStr ''tools/call''), (''params'', JObj [(''name'', JStr ''execute_refund''),
     (''arguments'', JObj [(''request_id'', JStr ''r''), (''transaction_id'', JStr ''ord-1''), (''amount'', JInt 5)])])]"

definition pay_parts :: "string list" where
  "pay_parts = [take 20 (json_dumps pay_message), drop 20 (json_dumps pay_message)]"

definition pay_request :: http_request where
  "pay_request = \<lparr>sc_type = ''http'', sc_method = ''POST'', sc_authorization = Some ''Bearer secret'', sc_body = None\<rparr>"

definition pay_db :: mcp_db where
  "pay_db = \<lparr>md_orders = \<lparr>tb_rows = [], tb_seq = 1\<rparr>, md_refunds = sample_ledger, md_audit = empty_audit\<rparr>"

definition clients_file :: "string \<Rightarrow> json res" where
  "clients_file name = Inr (JObj [(''clients'', JList [JObj [(''client_id'', JStr ''worker''), (''token_hash'', JStr ''h(secret)''),
     (''allowed_tools'', JList [JStr ''execute_refund''])]])])"

definition hashed :: "string \<Rightarrow> string" where
  "hashed t = ''h('' @ t @ '')''"

definition no_overrides :: app_overrides where
  "no_overrides = \<lparr>ao_registry = None, ao_rate_limit = None, ao_hosts = None\<rparr>"

definition pay_cfg :: mw_config where
  "pay_cfg = \<lparr>mw_sha256 = hashed, mw_registry = [\<lparr>client_id = ''worker'', token_hash = ''h(secret)'',
     allowed_tools = [''execute_refund'']\<rparr>], mw_rate_limit_per_min = 30, mw_pydantic = lax_mode,
     mw_refund_max = REFUND_MAX_AMOUNT default_settings\<rparr>"

lemma pay_message_reads: "json_loads (concat pay_parts) = Some pay_message"
proof -
  have "wf_json pay_message" by (simp add: pay_message_def)
  from encoder.loads_dumps [OF this] obtain j where j: "json_loads (json_dumps pay_message) = Some j" "same_json pay_message j"
    unfolding json_dumps_with by blast
  from j(2) have "j = pay_message"
    unfolding pay_message_def by (auto simp: same_json_values same_dict_items simp del: same_json.simps same_dict.simps(2))
  with j(1) show ?thesis by (simp add: pay_parts_def)
qed

lemma pay_created:
  "create_app hashed lax_mode default_settings clients_file no_overrides =
     Inr (pay_cfg, build_transport_security (parse_hosts (MCP_ALLOWED_HOSTS default_settings)))"
  by (simp add: create_app_def no_overrides_def clients_file_def from_file_def from_records_def as_dict_def dindex_def
      py_list_def client_of_entry_def pay_cfg_def default_settings_def)

lemma pay_runs:
  "(case app pay_cfg (sample_env 0) (pay_request\<lparr>sc_body := Some pay_message\<rparr>) pay_db of (ans, db) \<Rightarrow>
     map (\<lambda>r. (rf_request_id r, rf_amount r)) (tb_rows (md_refunds db)) = [(''r'', 500)])"
  by code_simp

section \<open>Properties\<close>





end
