(* ===== verification/Dashboard_Page.thy ===== *)
theory Dashboard_Page
  imports Dashboard Json_Wire
begin

text \<open>
  The dashboard from the gateway's replies to the widgets (\<open>src/ui/api_client.py\<close>, and \<open>main\<close> with the
  two columns of \<open>src/ui/app.py\<close>). A request is answered with a status and a text or raises; an exception that
  nothing catches ends the page where it is. How the framework writes a reply and a timestamp, and
  how \<open>datetime.fromisoformat\<close> reads that timestamp, are arguments.
\<close>

section \<open>api_client\<close>

type_synonym http_text = "(nat \<times> string) res"

definition raise_for_status :: "http_text \<Rightarrow> string res" where
  "raise_for_status reply =
     bindR reply (\<lambda>(status, text). if 200 \<le> status \<and> status < 300 then Inr text else raise_exn ''HTTPStatusError'')"

definition response_json :: "string \<Rightarrow> json res" where
  "response_json text = (case json_loads text of None \<Rightarrow> raise_exn ''JSONDecodeError'' | Some j \<Rightarrow> Inr j)"

definition read_time :: "(string \<Rightarrow> time res) \<Rightarrow> json \<Rightarrow> time res" where
  "read_time fromiso v = (case v of JStr s \<Rightarrow> fromiso s | _ \<Rightarrow> raise_exn ''TypeError'')"

text \<open>
  A row with its two timestamps read. The other values are taken out as the page does; a
  reply in which they have other types than the response model's is an error here.
\<close>

definition read_row_json :: "(string \<Rightarrow> time res) \<Rightarrow> json \<Rightarrow> transaction_summary res" where
  "read_row_json fromiso row =
     bindR (as_dict row) (\<lambda>d.
     bindR (bindR (dindex d ''created_at'') (read_time fromiso)) (\<lambda>created.
     bindR (bindR (dindex d ''updated_at'') (read_time fromiso)) (\<lambda>updated.
     bindR (dindex d ''request_id'') (\<lambda>rid.
     bindR (dindex d ''status'') (\<lambda>status.
     bindR (dindex d ''payload'') (\<lambda>payload.
       (case (rid, status, payload, dget d ''judge_trail'') of
          (JStr r, JStr st, JObj p, JNull) \<Rightarrow>
            Inr \<lparr>ts_request_id = r, ts_status = st, ts_created_at = created, ts_updated_at = updated,
                 ts_payload = p, ts_judge_trail = None\<rparr>
        | (JStr r, JStr st, JObj p, JObj t) \<Rightarrow>
            Inr \<lparr>ts_request_id = r, ts_status = st, ts_created_at = created, ts_updated_at = updated,
                 ts_payload = p, ts_judge_trail = Some t\<rparr>
        | _ \<Rightarrow> raise_exn ''TypeError'')))))))"

definition get_transactions :: "(string \<Rightarrow> time res) \<Rightarrow> http_text \<Rightarrow> transaction_summary list res" where
  "get_transactions fromiso reply =
     bindR (raise_for_status reply) (\<lambda>text. bindR (response_json text) (\<lambda>j.
       (case j of JList rows \<Rightarrow> mapR (read_row_json fromiso) rows | _ \<Rightarrow> raise_exn ''TypeError'')))"

definition get_system_health :: "http_text \<Rightarrow> dict res" where
  "get_system_health reply =
     bindR (raise_for_status reply) (\<lambda>text. bindR (response_json text) as_dict)"

section \<open>The page\<close>

definition TRANSACTION_LIMIT :: int where
  "TRANSACTION_LIMIT = 100"

record claim_form =
  fm_user_id :: string
  fm_claim_text :: string
  fm_order_id :: string
  fm_amount :: "pyfloat option"
  fm_currency :: string

text \<open>The column of the form: nothing happens until the button is pressed. Only an answer with another status is caught.\<close>

definition render_ingestion_column :: "(dict \<Rightarrow> http_reply res) \<Rightarrow> claim_form option \<Rightarrow> submitted option res" where
  "render_ingestion_column gateway pressed =
     (case pressed of
        None \<Rightarrow> Inr None
      | Some f \<Rightarrow>
          if strip (fm_claim_text f) = [] then Inr (Some EmptyText)
          else bindR (gateway (claim_fields (fm_user_id f) (fm_claim_text f) (Some (strip (fm_order_id f)))
                        (fm_amount f) (Some (fm_currency f)))) (\<lambda>reply.
                 Inr (Some (submit_claim (\<lambda>_. reply) (fm_user_id f) (fm_claim_text f) (fm_order_id f)
                        (fm_amount f) (fm_currency f)))))"

text \<open>What \<open>main\<close> has drawn, and the exception that ended it.\<close>

definition dashboard_main ::
  "(string \<Rightarrow> time res) \<Rightarrow> http_text \<Rightarrow> (dict \<Rightarrow> http_reply res) \<Rightarrow> claim_form option \<Rightarrow> http_text \<Rightarrow> time
   \<Rightarrow> (widget list \<times> submitted option) \<times> exn option" where
  "dashboard_main fromiso health gateway pressed listing now =
     (case get_system_health health of
        Inl e \<Rightarrow> (([], None), Some e)
      | Inr h \<Rightarrow>
          (case render_ingestion_column gateway pressed of
             Inl e \<Rightarrow> ((render_health_strip h, None), Some e)
           | Inr sub \<Rightarrow>
               (case bindR (get_transactions fromiso listing) (render_transaction_monitor now) of
                  Inl e \<Rightarrow> ((render_health_strip h, sub), Some e)
                | Inr ws \<Rightarrow> ((render_health_strip h @ ws, sub), None))))"

section \<open>The gateway's replies\<close>

definition summary_json :: "(time \<Rightarrow> string) \<Rightarrow> transaction_summary \<Rightarrow> json" where
  "summary_json isofmt s =
     JObj [(''request_id'', JStr (ts_request_id s)), (''status'', JStr (ts_status s)),
       (''created_at'', JStr (isofmt (ts_created_at s))), (''updated_at'', JStr (isofmt (ts_updated_at s))),
       (''payload'', JObj (ts_payload s)), (''judge_trail'', opt_json JObj (ts_judge_trail s))]"

text \<open>GET \<open>/api/v1/transactions\<close> and \<open>/api/v1/system-health\<close>, with the framework's printer.\<close>

definition transactions_reply ::
  "(json \<Rightarrow> string) \<Rightarrow> (time \<Rightarrow> string) \<Rightarrow> transaction_row list \<Rightarrow> int \<Rightarrow> http_text" where
  "transactions_reply dump isofmt rows limit =
     (case list_transactions rows limit of
        Inl _ \<Rightarrow> Inr (500, ''Internal Server Error'')
      | Inr ss \<Rightarrow> Inr (200, dump (JList (map (summary_json isofmt) ss))))"

definition health_json :: "health \<Rightarrow> json" where
  "health_json h = JObj [(''gateway'', JBool (sh_gateway h)), (''db'', JBool (sh_db h)), (''mcp'', JBool (sh_mcp h))]"

definition health_reply :: "(json \<Rightarrow> string) \<Rightarrow> bool \<Rightarrow> nat option \<Rightarrow> http_text" where
  "health_reply dump query_ok status = Inr (200, dump (health_json (system_health query_ok status)))"

section \<open>What survives the wire\<close>

definition same_summary :: "transaction_summary \<Rightarrow> transaction_summary \<Rightarrow> bool" where
  "same_summary s s' \<longleftrightarrow>
     ts_request_id s' = ts_request_id s \<and> ts_status s' = ts_status s \<and>
     ts_created_at s' = ts_created_at s \<and> ts_updated_at s' = ts_updated_at s \<and>
     same_dict (ts_payload s) (ts_payload s') \<and>
     (case (ts_judge_trail s, ts_judge_trail s') of
        (None, None) \<Rightarrow> True | (Some t, Some t') \<Rightarrow> same_dict t t' | _ \<Rightarrow> False)"

definition times_read :: "(string \<Rightarrow> time res) \<Rightarrow> (time \<Rightarrow> string) \<Rightarrow> time list \<Rightarrow> bool" where
  "times_read fromiso isofmt ts = list_all (\<lambda>t. fromiso (isofmt t) = Inr t) ts"

declare same_json.simps [simp del] same_list.simps [simp del] same_dict.simps [simp del]
declare same_json_values [simp] same_dict_items [simp]

lemma read_row_same:
  assumes "same_json (summary_json isofmt s) j" "times_read fromiso isofmt [ts_created_at s, ts_updated_at s]"
  shows "\<exists>s'. read_row_json fromiso j = Inr s' \<and> same_summary s s'"
proof -
  obtain p t where j: "j = JObj [(''request_id'', JStr (ts_request_id s)), (''status'', JStr (ts_status s)),
       (''created_at'', JStr (isofmt (ts_created_at s))), (''updated_at'', JStr (isofmt (ts_updated_at s))),
       (''payload'', JObj p), (''judge_trail'', t)]"
    and p: "same_dict (ts_payload s) p" and t: "same_json (opt_json JObj (ts_judge_trail s)) t"
    using assms(1)
    by (auto simp: summary_json_def)
  show ?thesis
  proof (cases "ts_judge_trail s")
    case None
    with t have "t = JNull" by (simp add: opt_json_def same_json_values)
    with j p None assms(2) show ?thesis
      by (simp add: read_row_json_def as_dict_def dindex_def dget_def read_time_def times_read_def same_summary_def bindR_def)
  next
    case (Some d)
    with t obtain d' where "t = JObj d'" "same_dict d d'" by (auto simp: opt_json_def same_json_values)
    with j p Some assms(2) show ?thesis
      by (simp add: read_row_json_def as_dict_def dindex_def dget_def read_time_def times_read_def same_summary_def bindR_def)
  qed
qed

lemma read_rows_same:
  assumes "list_all2 same_json (map (summary_json isofmt) ss) js"
    and "times_read fromiso isofmt (map ts_created_at ss @ map ts_updated_at ss)"
  shows "\<exists>ss'. mapR (read_row_json fromiso) js = Inr ss' \<and> list_all2 same_summary ss ss'"
  using assms
proof (induction ss arbitrary: js)
  case (Cons s ss)
  obtain j js' where js: "js = j # js'" "same_json (summary_json isofmt s) j"
      "list_all2 same_json (map (summary_json isofmt) ss) js'"
    using Cons.prems(1) by (auto simp: list_all2_Cons1)
  obtain s' where "read_row_json fromiso j = Inr s'" "same_summary s s'"
    using read_row_same [OF js(2)] Cons.prems(2) by (auto simp: times_read_def)
  moreover obtain ss' where "mapR (read_row_json fromiso) js' = Inr ss'" "list_all2 same_summary ss ss'"
    using Cons.IH [OF js(3)] Cons.prems(2) by (auto simp: times_read_def)
  ultimately show ?case using js(1) by (auto simp: bindR_def)
qed auto

text \<open>The listing as the dashboard gets it.\<close>

lemma get_transactions_reply:
  assumes "list_transactions rows limit = Inr ss"
    and "json_loads (dump (JList (map (summary_json isofmt) ss))) = Some j"
    and "same_json (JList (map (summary_json isofmt) ss)) j"
    and "times_read fromiso isofmt (map ts_created_at ss @ map ts_updated_at ss)"
  shows "\<exists>ss'. get_transactions fromiso (transactions_reply dump isofmt rows limit) = Inr ss' \<and> list_all2 same_summary ss ss'"
proof -
  obtain js where "j = JList js" "list_all2 same_json (map (summary_json isofmt) ss) js"
    using assms(3) by (auto simp: same_list_all2)
  with read_rows_same [OF this(2) assms(4)] assms(1,2) show ?thesis
    by (simp add: get_transactions_def transactions_reply_def raise_for_status_def response_json_def bindR_def)
qed

section \<open>A trail that can be shown can be shown after the wire\<close>

lemma dec_val_zero: "dec_val d = 0 \<longleftrightarrow> coef d = 0"
  by (simp add: dec_val_def)

lemma same_float_truthy: "same_float f g \<Longrightarrow> truthy (JFloat g) = truthy (JFloat f)"
  by (cases f; cases g; simp add: same_float_def flip: dec_val_zero)

lemma same_truthy: "same_json a b \<Longrightarrow> truthy b = truthy a"
proof (cases a)
  case (JFloat f)
  assume "same_json a b"
  with JFloat obtain g where "b = JFloat g" "same_float f g" by auto
  with JFloat same_float_truthy show ?thesis by blast
next
  case (JList xs)
  assume "same_json a b"
  with JList obtain ys where "b = JList ys" "list_all2 same_json xs ys" by (auto simp: same_list_all2)
  with JList show ?thesis by (auto dest: list_all2_lengthD)
next
  case (JObj d)
  assume "same_json a b"
  with JObj obtain d' where "b = JObj d'" "same_dict d d'" by auto
  with JObj show ?thesis by (metis same_dict_items(1,2) truthy.simps(7))
qed auto

lemma same_dget: "same_dict d d' \<Longrightarrow> same_json (dget d k) (dget d' k)"
proof (induction d arbitrary: d')
  case (Cons e d)
  obtain k' v where e: "e = (k', v)" by fastforce
  with Cons.prems obtain v' e' where "d' = (k', v') # e'" "same_json v v'" "same_dict d e'" by auto
  with Cons.IH [of e'] e show ?case by (simp add: dget_def)
qed (simp add: dget_def)

definition works :: "'a res \<Rightarrow> bool" where
  "works r = (case r of Inl _ \<Rightarrow> False | Inr _ \<Rightarrow> True)"

lemma works_simps [simp]: "works (Inr x)" "\<not> works (Inl e)"
  by (simp_all add: works_def)

lemma works_iff: "works r \<longleftrightarrow> (\<exists>x. r = Inr x)"
  by (cases r) auto

lemma works_bindR: "works (bindR m f) \<longleftrightarrow> (\<exists>x. m = Inr x \<and> works (f x))"
  by (cases m) auto

lemma same_as_dict: "same_json a b \<Longrightarrow> as_dict a = Inr d \<Longrightarrow> \<exists>d'. as_dict b = Inr d' \<and> same_dict d d'"
  by (auto simp: as_dict_def split: json.splits)

lemma same_JStr: "same_json a b \<Longrightarrow> b = JStr s \<longleftrightarrow> a = JStr s"
  by (cases a) auto

lemma same_dget_or: "same_dict d d' \<Longrightarrow> same_json v v \<Longrightarrow> same_json (dget_or d k v) (dget_or d' k v)"
proof (induction d arbitrary: d')
  case (Cons e d)
  obtain k' u where e: "e = (k', u)" by fastforce
  with Cons.prems obtain u' e' where "d' = (k', u') # e'" "same_json u u'" "same_dict d e'" by auto
  with Cons.IH [of e'] Cons.prems(2) e show ?case by (simp add: dget_or_def)
qed (simp add: dget_or_def)

lemma works_format: "same_json a b \<Longrightarrow> works (format_float n a) \<Longrightarrow> works (format_float n b)"
  by (cases a) (auto simp: format_float_def split: pyfloat.splits)

lemma works_guard:
  assumes "same_json a b" "works (describe_prompt_guard a)"
  shows "works (describe_prompt_guard b)"
proof (cases "truthy a")
  case False
  with same_truthy [OF assms(1)] show ?thesis by (simp add: describe_prompt_guard_def)
next
  case True
  with assms(2) obtain d where d: "as_dict a = Inr d" by (auto simp: describe_prompt_guard_def works_bindR)
  then obtain d' where d': "as_dict b = Inr d'" "same_dict d d'" using same_as_dict [OF assms(1)] by blast
  have score: "same_json (dget_or d ''score'' (JFloat (Fin (Dec 0 0)))) (dget_or d' ''score'' (JFloat (Fin (Dec 0 0))))"
    by (rule same_dget_or [OF d'(2)]) (simp add: same_float_def)
  have fmt: "\<exists>y. format_float 3 (dget_or d' ''score'' (JFloat (Fin (Dec 0 0)))) = Inr y"
    if "format_float 3 (dget_or d ''score'' (JFloat (Fin (Dec 0 0)))) = Inr x" for x
    using works_format [OF score, of 3] that by (simp add: works_iff)
  note status = same_JStr [OF same_dget [OF d'(2)]]
  from assms(2) True d d'(1) same_truthy [OF assms(1)] fmt status [of "''status''" "''skipped''"] show ?thesis
    by (auto simp: describe_prompt_guard_def Let_def works_bindR split: if_splits)
qed

lemma works_question:
  assumes "same_dict t t'" "works (describe_clarification_question (Some t))"
  shows "works (describe_clarification_question (Some t'))"
proof -
  let ?a = "py_or (dget t ''front_desk_retry'') (dget t ''front_desk'')"
  let ?b = "py_or (dget t' ''front_desk_retry'') (dget t' ''front_desk'')"
  have same: "same_json ?a ?b"
    using same_dget [OF assms(1)] same_truthy [OF same_dget [OF assms(1)]] by (simp add: py_or_def)
  show ?thesis
  proof (cases "truthy ?a")
    case False
    with same_truthy [OF same] show ?thesis by (simp add: describe_clarification_question_def)
  next
    case True
    with assms(2) obtain d where "as_dict ?a = Inr d"
      by (auto simp: describe_clarification_question_def Let_def works_bindR)
    with same_as_dict [OF same] show ?thesis
      by (auto simp: describe_clarification_question_def Let_def works_bindR)
  qed
qed

lemma works_verdict_line:
  assumes "same_dict t t'" "works (verdict_line t lk)"
  shows "works (verdict_line t' lk)"
proof (cases "truthy (dget t (snd lk))")
  case False
  with same_truthy [OF same_dget [OF assms(1)]] show ?thesis by (simp add: verdict_line_def)
next
  case True
  with assms(2) obtain d where "as_dict (dget t (snd lk)) = Inr d" by (auto simp: verdict_line_def works_bindR)
  with same_as_dict [OF same_dget [OF assms(1)]] show ?thesis by (auto simp: verdict_line_def Let_def works_bindR)
qed

lemma works_render_trail:
  assumes "same_dict t t'" "works (render_judge_trail (Some t))"
  shows "works (render_judge_trail (Some t'))"
proof (cases "t' = []")
  case True
  then show ?thesis by (simp add: render_judge_trail_def)
next
  case False
  with assms(1) have ne: "t \<noteq> []" by auto
  from assms(2) ne have t: "works (describe_prompt_guard (dget t ''prompt_guard''))"
    "works (describe_clarification_question (Some t))" "works (verdict_line t (''Judge 1 (Gemini)'', ''judge1''))"
    "works (verdict_line t (''Judge 2 (Groq)'', ''judge2''))" "works (verdict_line t (''Supreme Court'', ''supreme_court''))"
    by (auto simp: render_judge_trail_def works_bindR res_simps)
  from works_guard [OF same_dget [OF assms(1)] t(1)] works_question [OF assms(1) t(2)]
    t(3-5) [THEN works_verdict_line [OF assms(1)]] False show ?thesis
    by (auto simp: render_judge_trail_def works_bindR works_def split: sum.splits)
qed

section \<open>The page shows the tables\<close>

definition newest :: "transaction_row list \<Rightarrow> transaction_row list" where
  "newest rows = take (nat TRANSACTION_LIMIT) (sort_key (\<lambda>r. - tx_updated_at r) rows)"

text \<open>The framework's text of a value reads back.\<close>

definition prints :: "(json \<Rightarrow> string) \<Rightarrow> json \<Rightarrow> bool" where
  "prints dump j = (case json_loads (dump j) of None \<Rightarrow> False | Some j' \<Rightarrow> same_json j j')"

definition summary_key :: "transaction_summary \<Rightarrow> string \<times> string \<times> time \<times> time" where
  "summary_key s = (ts_request_id s, ts_status s, ts_created_at s, ts_updated_at s)"

definition row_key :: "transaction_row \<Rightarrow> string \<times> string \<times> time \<times> time" where
  "row_key r = (tx_request_id r, tx_status r, tx_created_at r, tx_updated_at r)"

lemma summaries_of_rows: "mapR TransactionSummary rs = Inr ss \<Longrightarrow> map summary_key ss = map row_key rs"
proof (induction rs arbitrary: ss)
  case (Cons r rs)
  then show ?case
    by (auto simp: res_simps TransactionSummary_def summary_key_def row_key_def split: json.splits)
qed simp

lemma listed_newest:
  assumes "list_transactions rows TRANSACTION_LIMIT = Inr ss"
  shows "map summary_key ss = map row_key (newest rows)"
  using assms summaries_of_rows
  by (simp add: list_transactions_def get_recent_transactions_def newest_def TRANSACTION_LIMIT_def)

lemma same_summaries_key: "list_all2 same_summary ss ss' \<Longrightarrow> map summary_key ss' = map summary_key ss"
  by (induction rule: list_all2_induct) (simp_all add: same_summary_def summary_key_def)

lemma throughput_of_keys:
  assumes "map summary_key ss = map row_key rs"
  shows "compute_throughput now w ss = length (filter (\<lambda>r. now - seconds w \<le> tx_created_at r) rs)"
  using assms
proof (induction ss arbitrary: rs)
  case (Cons s ss)
  then show ?case by (cases rs) (auto simp: compute_throughput_def summary_key_def row_key_def)
qed (simp add: compute_throughput_def)

lemma p95_of_keys:
  assumes "map summary_key ss' = map summary_key ss"
  shows "compute_p95_latency ss' = compute_p95_latency ss"
proof -
  have sec: "map row_seconds xs = map ((\<lambda>(_, _, c, u). of_int (u - c) / 1000000) \<circ> summary_key) xs" for xs
    by (simp add: row_seconds_def summary_key_def comp_def)
  have "map row_seconds ss' = map row_seconds ss" unfolding sec map_map [symmetric] assms ..
  moreover have "ss' = [] \<longleftrightarrow> ss = []" using assms by (cases ss; cases ss') auto
  ultimately show ?thesis by (simp add: compute_p95_latency_def)
qed

lemma rendered_rows:
  assumes "list_all2 same_summary ss ss'" "list_all (\<lambda>s. works (render_judge_trail (ts_judge_trail s))) ss"
  shows "\<exists>ws. mapR render_row ss' = Inr ws \<and> length ws = length ss"
  using assms
proof (induction rule: list_all2_induct)
  case (Cons s ss s' ss')
  have "works (render_judge_trail (ts_judge_trail s'))"
    using Cons.hyps(1) Cons.prems works_render_trail
    by (auto simp: same_summary_def render_judge_trail_def [of None] split: option.splits)
  then obtain w where "render_row s' = Inr w" by (auto simp: works_iff render_row_def bindR_def)
  with Cons show ?case by auto
qed simp

definition monitor_shows :: "time \<Rightarrow> transaction_row list \<Rightarrow> rat option \<Rightarrow> widget list \<Rightarrow> widget list" where
  "monitor_shows now rows p95 expanders =
     [Metric ''Throughput (last 60s)'' (show_nat (length (filter (\<lambda>r. now - seconds 60 \<le> tx_created_at r) rows))),
      Metric ''P95 Latency (s)'' (case p95 of None \<Rightarrow> ''N/A'' | Some p \<Rightarrow> fixed 2 p)] @
     (if rows = [] then [muted ''No transactions yet.''] else DataFrame (map row_key rows) # expanders)"

lemma monitor_of_listing:
  assumes "list_all2 same_summary ss ss'" "list_all (\<lambda>s. works (render_judge_trail (ts_judge_trail s))) ss"
    and "map summary_key ss = map row_key rs"
  shows "\<exists>expanders. render_transaction_monitor now ss' = Inr (monitor_shows now rs (compute_p95_latency ss) expanders) \<and>
    length expanders = length rs"
proof -
  from rendered_rows [OF assms(1,2)] obtain ws where ws: "mapR render_row ss' = Inr ws" "length ws = length ss" by blast
  have keys: "map summary_key ss' = map row_key rs" using same_summaries_key [OF assms(1)] assms(3) by simp
  then have "ss' = [] \<longleftrightarrow> rs = []" by (cases ss'; cases rs) auto
  moreover have "length ss = length rs" using assms(3) by (metis length_map)
  moreover have "map (\<lambda>r. (ts_request_id r, ts_status r, ts_created_at r, ts_updated_at r)) ss' = map row_key rs"
    using keys by (simp add: summary_key_def [abs_def])
  ultimately show ?thesis
    using ws throughput_of_keys [OF keys] p95_of_keys [OF same_summaries_key [OF assms(1)]]
    by (intro exI [of _ ws]) (simp add: render_transaction_monitor_def monitor_shows_def)
qed

lemma health_shown:
  assumes "prints dump (health_json (system_health query_ok status))"
  shows "get_system_health (health_reply dump query_ok status) =
    Inr [(''gateway'', JBool True), (''db'', JBool query_ok), (''mcp'', JBool (status = Some 401))]"
  using assms
  by (auto simp: prints_def health_reply_def get_system_health_def raise_for_status_def response_json_def health_json_def
      system_health_def check_db_def check_mcp_def as_dict_def split: option.splits)

text \<open>
  C40. The dashboard shows the tables: through the gateway's endpoints, the wire and the client, the
  page ends without an exception and its monitor lists the most recently updated rows of the
  transaction table, newest first, with their statuses and times, one expander each, and the
  throughput and latency of just these rows; its strip says the gateway is up and gives the
  results of the gateway's own checks. So the throughput never exceeds the 100 rows that are listed.
\<close>

theorem page_shows_tables:
  assumes "list_transactions rows TRANSACTION_LIMIT = Inr ss"
    and "prints dump (JList (map (summary_json isofmt) ss))" and "prints dump (health_json (system_health query_ok status))"
    and "times_read fromiso isofmt (map ts_created_at ss @ map ts_updated_at ss)"
    and "list_all (\<lambda>s. works (render_judge_trail (ts_judge_trail s))) ss"
    and "render_ingestion_column gateway pressed = Inr sub"
  shows "(\<exists>expanders. dashboard_main fromiso (health_reply dump query_ok status) gateway pressed
        (transactions_reply dump isofmt rows TRANSACTION_LIMIT) now =
      ((render_health_strip [(''gateway'', JBool True), (''db'', JBool query_ok), (''mcp'', JBool (status = Some 401))] @
          monitor_shows now (newest rows) (compute_p95_latency ss) expanders, sub), None) \<and>
      length expanders = length (newest rows)) \<and>
    sorted (map (\<lambda>r. - tx_updated_at r) (newest rows)) \<and>
    length (filter (\<lambda>r. now - seconds 60 \<le> tx_created_at r) (newest rows)) \<le> 100"
proof -
  from assms(2) obtain j where "json_loads (dump (JList (map (summary_json isofmt) ss))) = Some j"
    "same_json (JList (map (summary_json isofmt) ss)) j" by (auto simp: prints_def simp del: same_json_values split: option.splits)
  from get_transactions_reply [where dump = dump and isofmt = isofmt, OF assms(1) this assms(4)] obtain ss' where
    got: "get_transactions fromiso (transactions_reply dump isofmt rows TRANSACTION_LIMIT) = Inr ss'"
    and same: "list_all2 same_summary ss ss'" by blast
  from monitor_of_listing [OF same assms(5) listed_newest [OF assms(1)]] obtain expanders where
    "render_transaction_monitor now ss' = Inr (monitor_shows now (newest rows) (compute_p95_latency ss) expanders)"
    "length expanders = length (newest rows)" by blast
  moreover have "sorted (map (\<lambda>r. - tx_updated_at r) (newest rows))"
    by (auto simp: newest_def take_map [symmetric] intro!: sorted_wrt_take)
  moreover have "length (newest rows) \<le> 100" by (simp add: newest_def TRANSACTION_LIMIT_def)
  then have "length (filter (\<lambda>r. now - seconds 60 \<le> tx_created_at r) (newest rows)) \<le> 100"
    by (rule order_trans [OF length_filter_le])
  ultimately show ?thesis
    using health_shown [OF assms(3)] got assms(6) by (auto simp: dashboard_main_def)
qed

text \<open>One claim of two and a half seconds, with the encoder as the framework's printer.\<close>

definition stamp :: "time \<Rightarrow> string" where
  "stamp t = json_dumps (JInt t)"

definition unstamp :: "string \<Rightarrow> time res" where
  "unstamp s = (case json_loads s of Some (JInt i) \<Rightarrow> Inr i | _ \<Rightarrow> raise_exn ''ValueError'')"

definition demo_rows :: "transaction_row list" where
  "demo_rows = [\<lparr>tx_request_id = ''q'', tx_payload = JObj [(''user_id'', JStr ''u'')], tx_status = ''COMPLETED'',
     tx_created_at = 0, tx_updated_at = 2500000, tx_judge_trail = None\<rparr>]"

definition demo_listed :: "transaction_summary list" where
  "demo_listed = [\<lparr>ts_request_id = ''q'', ts_status = ''COMPLETED'', ts_created_at = 0, ts_updated_at = 2500000,
     ts_payload = [(''user_id'', JStr ''u'')], ts_judge_trail = None\<rparr>]"

lemma prints_dumps: "wf_json j \<Longrightarrow> prints json_dumps j"
  using encoder.loads_dumps [of j]
  by (auto simp: prints_def json_dumps_with simp del: same_json_values dumps_with.simps split: option.splits)

lemma unstamp_stamp: "unstamp (stamp t) = Inr t"
  using prints_dumps [of "JInt t"] by (auto simp: prints_def unstamp_def stamp_def split: option.splits)

theorem page_shows_tables_witness:
  "\<exists>expanders. dashboard_main unstamp (health_reply json_dumps True (Some 401)) (\<lambda>_. raise_exn ''ConnectError'') None
      (transactions_reply json_dumps stamp demo_rows TRANSACTION_LIMIT) (seconds 30) =
    ((render_health_strip [(''gateway'', JBool True), (''db'', JBool True), (''mcp'', JBool True)] @
       [Metric ''Throughput (last 60s)'' ''1'', Metric ''P95 Latency (s)'' ''2.50'',
        DataFrame [(''q'', ''COMPLETED'', 0, 2500000)]] @ expanders, None), None) \<and> length expanders = 1"
proof -
  have listed: "list_transactions demo_rows TRANSACTION_LIMIT = Inr demo_listed"
    by (simp add: list_transactions_def get_recent_transactions_def TRANSACTION_LIMIT_def demo_rows_def demo_listed_def
        TransactionSummary_def)
  have times: "times_read unstamp stamp (map ts_created_at demo_listed @ map ts_updated_at demo_listed)"
    by (simp add: times_read_def unstamp_stamp list_all_append list_all_iff)
  have newest: "newest demo_rows = demo_rows" by (simp add: newest_def TRANSACTION_LIMIT_def demo_rows_def)
  have printed: "prints json_dumps (JList (map (summary_json stamp) demo_listed))"
      "prints json_dumps (health_json (system_health True (Some 401)))"
    by (rule prints_dumps; simp add: demo_listed_def summary_json_def opt_json_def health_json_def)+
  have trails: "list_all (\<lambda>s. works (render_judge_trail (ts_judge_trail s))) demo_listed"
    by (simp add: demo_listed_def render_judge_trail_def)
  have form: "render_ingestion_column (\<lambda>_. raise_exn ''ConnectError'') None = Inr None"
    by (simp add: render_ingestion_column_def)
  have p95: "compute_p95_latency demo_listed = Some (5 / 2)" "fixed 2 (5 / 2) = ''2.50''" "show_nat 1 = ''1''"
    by code_simp+
  have shown: "monitor_shows (seconds 30) (newest demo_rows) (compute_p95_latency demo_listed) es =
      [Metric ''Throughput (last 60s)'' ''1'', Metric ''P95 Latency (s)'' ''2.50'',
       DataFrame [(''q'', ''COMPLETED'', 0, 2500000)]] @ es" for es
    unfolding newest using p95 by (simp add: monitor_shows_def demo_rows_def row_key_def)
  have one: "length (newest demo_rows) = 1" unfolding newest by (simp add: demo_rows_def)
  from page_shows_tables [OF listed printed times trails form, of "seconds 30"] show ?thesis
    unfolding shown one by simp
qed

text \<open>
  Every text of the gateway's health endpoint shows the gateway as up, and when it does not answer nothing is
  drawn at all: the page has no state in which it says that the gateway is down.
\<close>

lemma gateway_never_down:
  "prints dump (health_json (system_health query_ok status)) \<Longrightarrow>
     get_system_health (health_reply dump query_ok status) = Inr h \<Longrightarrow> dget h ''gateway'' = JBool True"
  "dashboard_main fromiso (Inl e) gateway pressed listing now = (([], None), Some e)"
  using health_shown by (auto simp: dashboard_main_def get_system_health_def raise_for_status_def dget_def)

end
