(* ===== verification/Spec2Isabelle.thy ===== *)
theory Spec2Isabelle
  imports Pipeline_Runs Mock_Retrieval Dashboard Traced_Worker Worker_Log Migrations Eval_Providers Agent_Hooks Report_Tables Services
    Mcp_Asgi Dashboard_Page
begin

text \<open>
  \<^bold>\<open>A transactional refund agent.\<close> A gateway accepts refund claims over HTTP and publishes them to a
  queue. A worker takes each message, claims it with an INSERT, scans the text for injected
  prompts, asks a Front-Desk model what the claim wants, checks the claim against orders and past
  refunds, asks two judge models (and a third one when they do not both approve), and executes an
  approved refund through an MCP server that authenticates, limits, validates and audits every
  call. A sweeper requeues claims whose worker died. Paths below are relative to the repository's
  root, where the Python package is \<open>src/\<close>.

  \<^bold>\<open>Values.\<close> \<open>Prelude\<close> has the results (\<open>res\<close>, an exception or a value), string helpers and the
  lemmas shared by all theories. \<open>PyDecimal\<close> has the decimals with the default context's
  precision and the floats as rationals with infinities and not-a-number. \<open>PyJson\<close> has JSON values as Python sees
  them, dictionaries with their order, truth values and \<open>str\<close>; \<open>Json_Loads\<close> the reader
  \<open>json.loads\<close>, and \<open>Json_Wire\<close> shows that it reads back what \<open>json.dumps\<close> wrote, for every way to
  escape characters that reads back (a locale, with the encoder and the prompts' fence as
  instances). Strings are lists of characters below 256.

  \<^bold>\<open>State.\<close> \<open>Settings\<close> is \<open>src/core/config.py\<close> and \<open>currency.py\<close>. \<open>Tables\<close> has a row record per
  table of \<open>src/core/models.py\<close>, and tables as row lists with the next value of their sequence.
  \<open>Store_Interface\<close> states what a keyed store promises as a locale; \<open>Refunds\<close> and \<open>Orders\<close>
  (\<open>src/core/repositories/\<close>, \<open>scripts/seed_orders.py\<close>) interpret it on the refund table and the order table.

  \<^bold>\<open>MCP server.\<close> \<open>Schemas\<close> is the argument schemas, the proposal and the claim body;
  \<open>Mcp_Security\<close> is \<open>src/mcp_server/security/\<close>: registry, rate limiter, audit, masking, transport
  hosts and the middleware; \<open>Mcp_Server\<close> the tools and the dispatch of a call. A request is one
  step: it reads the audit table, writes its row and forwards or denies. \<open>Mcp_Asgi\<close> is the server as
  \<open>create_app\<close> starts it and a request as it arrives, in the parts of its body, and shows that this is a
  request of \<open>Mcp_Server\<close>: what is behind the boundary reads the body that was checked.

  \<^bold>\<open>Worker.\<close> \<open>Mcp_Client\<close> is one call and the retry loop over a boundary that may lose a
  request or its answer, and \<open>src/worker/refund_executor.py\<close>; \<open>Evidence_Check\<close> is
  \<open>src/core/services/evidence_check.py\<close>, \<open>Claim_Evidence\<close> is \<open>src/worker/evidence.py\<close> over the
  tables; \<open>Llm\<close>, \<open>Prompt_Guard\<close>, \<open>Judge\<close> and \<open>Front_Desk\<close> are \<open>src/agents/\<close>; \<open>Amqp\<close> is
  \<open>src/worker/amqp.py\<close>; \<open>Worker\<close> is \<open>process_message\<close> of \<open>src/worker/worker.py\<close>, one definition
  per step of it, with each branch. \<open>Sweeper\<close> is \<open>src/worker/recovery_sweeper.py\<close>, \<open>Gateway\<close> is
  \<open>src/api/\<close>, and \<open>Chunking\<close> and \<open>Knowledge\<close> are the policy base that the judges' context comes from;
  \<open>Mock_Retrieval\<close> is that base behind the development's embeddings.

  \<^bold>\<open>Reading results.\<close> \<open>Dashboard\<close> is \<open>src/ui/\<close>: what the page makes of the listed transactions and what its
  form sends; \<open>Dashboard_Page\<close> is the way from the tables through the gateway's replies to the page; \<open>Benchmark\<close> is the numbers of the two report scripts of \<open>evals/promptfoo/\<close>,
  \<open>Report_Tables\<close> the Markdown they print, read back cell by cell, and \<open>Eval_Providers\<close> the two providers
  that produce the results, compared with what production decides on the same replies.

  \<^bold>\<open>Around it.\<close> \<open>Tracing\<close> is \<open>src/core/tracing.py\<close> with the SDK's calls as parameters, and shows
  that a traced step does what it does untraced; \<open>Traced_Worker\<close> is the worker's message inside its trace,
  with every observation that \<open>process_message\<close> and the agents open and the fields they record, and shows that
  its result and its tables are those of \<open>Worker\<close>, which is why the other theories leave tracing out;
  \<open>Worker_Log\<close> is the line that is logged for a decided claim, which says what the row says;
  \<open>Regex\<close> has regular expressions with a backtracking matcher and the words of an expression;
  \<open>Trace_Masking\<close> is \<open>src/core/trace_masking.py\<close> over it, and shows what an exported span no longer holds;
  \<open>Agent_Hooks\<close> is the three hooks of \<open>.agents/hooks/\<close>, with the commands that must be asked about and
  some that should be and are not. \<open>Services\<close> is what surrounds the steps: \<open>start_worker\<close>, \<open>start_sweeper\<close>,
  the lifespan and the session of the gateway, the two scripts and \<open>alembic/env.py\<close>, in which any call into a
  library may raise; its lemmas follow what stays open, and show that the tables of a worker that fails
  anywhere are those of a run of some of its messages, and those of the sweeper of some of its sweeps. \<open>Migrations\<close> is \<open>alembic/versions/\<close>: the revisions as
  statements over a schema, compared with the schema of the models.

  \<^bold>\<open>The pipeline.\<close> \<open>System\<close> composes them: a message in work is a job with a stage, and the
  inductive relation \<open>step\<close> interleaves publishing, redelivery, several workers at their stages,
  crashes, final writes and sweeps over one transaction table and one endpoint. Its lemmas are an
  invariant of every reachable state. \<open>Pipeline_Runs\<close> states the properties of the whole and shows
  concrete runs, also those in which the program does not do what it promises: two concurrent claims that
  refund more than the order, a late verdict over a newer one, a claim dropped in an outage.

  \<^bold>\<open>What the lemmas show.\<close> Money moves only for a claim that passed the prompt guard, the
  Front-Desk, the evidence check and the judges, at most once per request, and, as long as
  messages are handled one at a time, never beyond the order's amount; the evidence check decides its specification
  exactly; a tool call reaches the server only authenticated, permitted, under the limit,
  valid and after its audit row; no window of a minute lets through more calls than the limit; an
  accepted claim always has a row or a queued message as long as the database answers the claim; redelivered messages
  change nothing; a stuck claim is recovered. The agents' theories show which replies
  approve, how failures default, and that claim text cannot leave its fence in a prompt. Locales
  state the interfaces: the keyed store, the sessions a client calls through, the endpoint behind
  the worker, the printer of JSON; each is interpreted on the model of its provider. The
  dashboard says of every claim what the worker decided, and the reports count every row once.

  \<^bold>\<open>Parameters.\<close> Code that is not in the repository is an argument: the language models and the guard
  (\<open>llm_world\<close>: replies or exceptions, for each prompt), SHA-256, the pydantic messages of a rejected body, embeddings
  and vector distances, the tracing SDK, what the network loses, whether the database answers a statement, and
  clock readings.

  \<^bold>\<open>Bounds.\<close> Everything terminates by structural recursion or a measure; an unbounded
  repetition of a regular expression is tried as often as the text is long. The connection loop may
  run for ever and is a partial function in the option type; \<open>Amqp\<close> shows when it returns.
  \<open>run_stages\<close> takes three stages per message, which is enough for every path to a verdict. The JSON reader
  recurses on the length of the input.

  \<^bold>\<open>Not modelled.\<close> Logging (but for the worker's line on a decided claim), which returns nothing to the program. The sessions of the mcp package, FastAPI's routing and the
  two constructor calls of \<open>src/core/database.py\<close>, which only wire libraries; Streamlit with its
  caching, and the style sheet. Inside one message a database
  failure is modelled at the claim, at the rollback that ends the reads, and at the final write; in between
  the worker uses its session for the policy lookup only, whose failure it swallows. The processing delay and the asyncio scheduling within one
  message are not modelled: a message's steps are sequential (the two judges, which the source gathers, too),
  messages interleave. The embedding's own observation is inside the retrieval, which is a parameter of the
  worker, and an SDK that raises on leaving a span is modelled but excluded by the transparency theorem. Characters from 256 on are outside the string type.
  Deployment files are data. The evaluation's float arithmetic is exact here.
\<close>

end
